(* ===== verification/Py_Prelude.thy ===== *)
theory Py_Prelude
  imports Main "HOL-Library.AList" "HOL-Library.Word" "HOL-Library.List_Lexorder"
    "HOL-Library.Product_Lexorder"
begin

text \<open>
  The parts of Python the enclave's sources rely on everywhere: \<^verbatim>\<open>str\<close> as a sequence of
  Unicode code points, \<^verbatim>\<open>bytes\<close> as a list of 8-bit words, exceptions as values of a sum
  type, dictionaries as association lists in insertion order, and the list lemmas that the
  component theories share. Fallible code returns \<open>'a res\<close>: \<open>Inl\<close> is the raised exception,
  \<open>Inr\<close> the returned value.
\<close>

named_theorems py_simps \<open>unfolding rules of the Python operations, for evaluation on concrete inputs\<close>
named_theorems codec_simps \<open>inverse laws of the encoders and decoders\<close>

section \<open>Strings and bytes\<close>

type_synonym pystr = "nat list"
type_synonym byte = "8 word"
type_synonym bytes = "byte list"

text \<open>A HOL \<open>char\<close> is a byte and a Python character is a code point, so a literal of the
  source is written \<open>lit ''...''\<close>.\<close>

definition lit :: "string \<Rightarrow> pystr" where
  "lit s = map of_char s"

lemma lit_Nil [simp]: "lit [] = []"
  by (simp add: lit_def)

lemma lit_Cons [py_simps]: "lit (c # s) = of_char c # lit s"
  by (simp add: lit_def)

lemma length_lit [simp]: "length (lit s) = length s"
  by (simp add: lit_def)

lemma lit_eq_iff [simp]: "lit s = lit t \<longleftrightarrow> s = t"
proof -
  have "inj (of_char :: char \<Rightarrow> nat)"
    by (auto simp: inj_def)
  then show ?thesis
    by (auto simp: lit_def dest: map_injective)
qed

lemma lit_eq_Nil_iff [simp]: "lit s = [] \<longleftrightarrow> s = []" "[] = lit s \<longleftrightarrow> s = []"
  by (auto simp: lit_def)

lemma lit_less_256: "c \<in> set (lit s) \<Longrightarrow> c < 256"
  by (auto simp: lit_def)

section \<open>Exceptions and fallible results\<close>

datatype exn_kind =
    ValueError | TypeError | KeyError | AttributeError | OSError | RuntimeError
  | UnicodeEncodeError | UnicodeDecodeError | JSONDecodeError | BadZipFile | SyntaxError
  | TimeoutExpired | SocketTimeout | InvalidTag | NSMError | OutputFilesError | OtherError

text \<open>An exception is its class and the text \<open>str(e)\<close>.\<close>

datatype pyexn = Exn (exn_class: exn_kind) (exn_str: pystr)

type_synonym 'a res = "pyexn + 'a"

definition rbind :: "'a res \<Rightarrow> ('a \<Rightarrow> 'b res) \<Rightarrow> 'b res" where
  "rbind r f = (case r of Inl e \<Rightarrow> Inl e | Inr x \<Rightarrow> f x)"

lemma rbind_simps [simp]: "rbind (Inl e) f = Inl e" "rbind (Inr x) f = f x"
  by (simp_all add: rbind_def)

lemma rbind_eq_Inr_iff: "rbind r f = Inr y \<longleftrightarrow> (\<exists>x. r = Inr x \<and> f x = Inr y)"
  by (cases r) auto

lemma rbind_eq_Inl_iff: "rbind r f = Inl e \<longleftrightarrow> r = Inl e \<or> (\<exists>x. r = Inr x \<and> f x = Inl e)"
  by (cases r) auto

lemma rbind_assoc: "rbind (rbind r f) g = rbind r (\<lambda>x. rbind (f x) g)"
  by (cases r) auto

lemma rbind_cong [fundef_cong]:
  "r = r' \<Longrightarrow> (\<And>x. r' = Inr x \<Longrightarrow> f x = g x) \<Longrightarrow> rbind r f = rbind r' g"
  by (cases r') auto

text \<open>\<open>for x in xs: ...\<close> whose body may raise and carries an accumulator.\<close>

fun rfold :: "('a \<Rightarrow> 's \<Rightarrow> 's res) \<Rightarrow> 'a list \<Rightarrow> 's \<Rightarrow> 's res" where
  "rfold f [] s = Inr s"
| "rfold f (x # xs) s = rbind (f x s) (rfold f xs)"

lemma rfold_append: "rfold f (xs @ ys) s = rbind (rfold f xs s) (rfold f ys)"
  by (induction xs arbitrary: s) (auto simp: rbind_assoc intro: rbind_cong)

lemma rfold_invariant:
  assumes "rfold f xs s = Inr t" and "P s"
    and "\<And>x s s'. x \<in> set xs \<Longrightarrow> P s \<Longrightarrow> f x s = Inr s' \<Longrightarrow> P s'"
  shows "P t"
  using assms
proof (induction xs arbitrary: s)
  case (Cons x xs)
  from Cons.prems(1) obtain s' where "f x s = Inr s'" "rfold f xs s' = Inr t"
    by (auto simp: rbind_eq_Inr_iff)
  with Cons.prems(2,3) show ?case
    by (intro Cons.IH [of s']) auto
qed simp

text \<open>A list comprehension whose element expression may raise.\<close>

fun rmap :: "('a \<Rightarrow> 'b res) \<Rightarrow> 'a list \<Rightarrow> 'b list res" where
  "rmap f [] = Inr []"
| "rmap f (x # xs) = rbind (f x) (\<lambda>y. rbind (rmap f xs) (\<lambda>ys. Inr (y # ys)))"

lemma rmap_cong [fundef_cong]:
  "xs = ys \<Longrightarrow> (\<And>x. x \<in> set ys \<Longrightarrow> f x = g x) \<Longrightarrow> rmap f xs = rmap g ys"
  by (induction ys arbitrary: xs) auto

lemma rmap_Inr: "(\<And>x. x \<in> set xs \<Longrightarrow> f x = Inr (g x)) \<Longrightarrow> rmap f xs = Inr (map g xs)"
  by (induction xs) auto

section \<open>Dictionaries\<close>

text \<open>
  A Python dictionary keeps the order of first insertion, and assigning to a present key
  keeps its position: exactly \<^const>\<open>AList.update\<close>. \<open>d[k]\<close> raises \<open>KeyError\<close> for an absent
  key, \<open>d.get(k)\<close> does not, \<open>del d[k]\<close> is \<^const>\<open>AList.delete\<close>.
\<close>

type_synonym 'v dict = "(pystr \<times> 'v) list"

abbreviation dget :: "'v dict \<Rightarrow> pystr \<Rightarrow> 'v option" where
  "dget d k \<equiv> map_of d k"

abbreviation dset :: "pystr \<Rightarrow> 'v \<Rightarrow> 'v dict \<Rightarrow> 'v dict" where
  "dset \<equiv> AList.update"

abbreviation ddel :: "pystr \<Rightarrow> 'v dict \<Rightarrow> 'v dict" where
  "ddel \<equiv> AList.delete"

abbreviation dkeys :: "'v dict \<Rightarrow> pystr list" where
  "dkeys d \<equiv> map fst d"

lemma dget_dset [simp]: "dget (dset k v d) k' = (if k' = k then Some v else dget d k')"
  by (simp add: update_conv')

lemma dget_ddel [simp]: "dget (ddel k d) k' = (if k' = k then None else dget d k')"
  by (simp add: delete_conv')

lemma dget_filter:
  "distinct (dkeys d) \<Longrightarrow>
     dget (filter P d) k = (case dget d k of None \<Rightarrow> None | Some v \<Rightarrow> if P (k, v) then Some v else None)"
proof (induction d)
  case (Cons kv d)
  obtain k0 v0 where kv: "kv = (k0, v0)" by (cases kv)
  have "k0 \<notin> fst ` set d" using Cons.prems kv by simp
  then have "dget d k0 = None" by (simp add: map_of_eq_None_iff)
  with Cons kv show ?case by (auto split: option.splits)
qed simp

lemma distinct_dkeys_dset [simp]: "distinct (dkeys d) \<Longrightarrow> distinct (dkeys (dset k v d))"
  by (rule distinct_update)

lemma distinct_dkeys_ddel [simp]: "distinct (dkeys d) \<Longrightarrow> distinct (dkeys (ddel k d))"
  by (rule distinct_delete)

lemma distinct_dkeys_filter [simp]: "distinct (dkeys d) \<Longrightarrow> distinct (dkeys (filter P d))"
  by (rule distinct_map_filter)

text \<open>Deleting the keys whose values satisfy a condition, one after the other, is a filter.\<close>

lemma fold_ddel: "fold ddel ks d = filter (\<lambda>(k, v). k \<notin> set ks) d"
proof (induction ks arbitrary: d)
  case (Cons k ks)
  have "ddel k d = filter (\<lambda>(k', v). k' \<noteq> k) d" by (auto simp: AList.delete_eq intro!: filter_cong)
  with Cons show ?case by (auto intro: filter_cong)
qed simp

lemma fold_ddel_filtered:
  assumes "distinct (dkeys d)"
  shows "fold ddel (map fst (filter (\<lambda>(k, v). P v) d)) d = filter (\<lambda>(k, v). \<not> P v) d"
  unfolding fold_ddel
proof (intro filter_cong refl)
  fix x assume "x \<in> set d"
  moreover obtain k v where "x = (k, v)" by (cases x)
  ultimately have x: "x = (k, v)" "(k, v) \<in> set d" by simp_all
  then have "k \<in> set (map fst (filter (\<lambda>(k, v). P v) d)) \<longleftrightarrow> P v"
    using assms by (force dest: eq_key_imp_eq_value)
  with x show "(case x of (k, v) \<Rightarrow> k \<notin> set (map fst (filter (\<lambda>(k, v). P v) d))) = (case x of (k, v) \<Rightarrow> \<not> P v)"
    by simp
qed

section \<open>List operations\<close>

text \<open>\<open>s.split(sep)\<close> on a one-character separator: always at least one piece.\<close>

fun split_on :: "'a \<Rightarrow> 'a list \<Rightarrow> 'a list list" where
  "split_on c [] = [[]]"
| "split_on c (x # xs) =
     (if x = c then [] # split_on c xs
      else (case split_on c xs of [] \<Rightarrow> [[x]] | p # ps \<Rightarrow> (x # p) # ps))"

text \<open>\<open>sep.join(pieces)\<close>.\<close>

fun join_with :: "'a list \<Rightarrow> 'a list list \<Rightarrow> 'a list" where
  "join_with sep [] = []"
| "join_with sep [p] = p"
| "join_with sep (p # q # ps) = p @ sep @ join_with sep (q # ps)"

lemma split_on_neq_Nil [simp]: "split_on c s \<noteq> []"
  by (cases s) (auto split: list.splits)

lemma split_on_pieces: "p \<in> set (split_on c s) \<Longrightarrow> c \<notin> set p"
proof (induction s arbitrary: p)
  case (Cons x xs)
  then show ?case
    by (cases "split_on c xs") (auto split: if_splits)
qed simp

lemma join_split_on [simp]: "join_with [c] (split_on c s) = s"
proof (induction s)
  case (Cons x xs)
  obtain p ps where "split_on c xs = p # ps"
    by (cases "split_on c xs") auto
  with Cons show ?case by (cases ps) auto
qed simp

lemma split_on_free: "c \<notin> set s \<Longrightarrow> split_on c s = [s]"
  by (induction s) auto

lemma split_on_append_sep: "c \<notin> set p \<Longrightarrow> split_on c (p @ c # s) = p # split_on c s"
  by (induction p) auto

lemma split_on_append_both: "split_on c (a @ c # b) = split_on c a @ split_on c b"
proof (induction a)
  case (Cons x a)
  obtain p ps where "split_on c a = p # ps" by (cases "split_on c a") auto
  with Cons show ?case by auto
qed simp

lemma split_join_with:
  "ps \<noteq> [] \<Longrightarrow> (\<And>p. p \<in> set ps \<Longrightarrow> c \<notin> set p) \<Longrightarrow> split_on c (join_with [c] ps) = ps"
proof (induction ps rule: induct_list012)
  case (3 p q ps)
  then show ?case by (simp add: split_on_append_sep)
qed (auto simp: split_on_free)

text \<open>\<open>s.startswith(p)\<close> and \<open>s.endswith(p)\<close>.\<close>

definition starts_with :: "'a list \<Rightarrow> 'a list \<Rightarrow> bool" where
  "starts_with s p \<longleftrightarrow> take (length p) s = p"

definition ends_with :: "'a list \<Rightarrow> 'a list \<Rightarrow> bool" where
  "ends_with s p \<longleftrightarrow> length p \<le> length s \<and> drop (length s - length p) s = p"

lemma starts_with_iff: "starts_with s p \<longleftrightarrow> (\<exists>r. s = p @ r)"
  unfolding starts_with_def by (metis append_eq_conv_conj append_take_drop_id)

lemma ends_with_iff: "ends_with s p \<longleftrightarrow> (\<exists>r. s = r @ p)"
  unfolding ends_with_def
  by (metis append_eq_append_conv append_eq_conv_conj append_take_drop_id diff_diff_cancel
      le_add2 length_append length_drop)

lemma starts_with_append [simp]: "starts_with (p @ r) p"
  by (auto simp: starts_with_iff)

lemma sorted_map_fst_sort: "sorted (map fst (sort (xs :: ('a :: linorder \<times> 'b :: linorder) list)))"
proof -
  have "sorted (sort xs)" by simp
  then show ?thesis
    unfolding sorted_map by (rule sorted_wrt_mono_rel [rotated]) (auto simp: less_eq_prod_def)
qed

text \<open>\<^verbatim>\<open>str.lower\<close> on ASCII. The strings it is compared with here (type extensions, flags, backend
  names) contain no letter that a non-ASCII character lower-cases to as a whole.\<close>

definition lower_ascii :: "pystr \<Rightarrow> pystr" where
  "lower_ascii s = map (\<lambda>c. if 65 \<le> c \<and> c \<le> 90 then c + 32 else c) s"

text \<open>\<^verbatim>\<open>str.strip\<close>: white space as \<^verbatim>\<open>str.isspace\<close> has it.\<close>

definition is_py_space :: "nat \<Rightarrow> bool" where
  "is_py_space c \<longleftrightarrow> 9 \<le> c \<and> c \<le> 13 \<or> 28 \<le> c \<and> c \<le> 32 \<or> 8192 \<le> c \<and> c \<le> 8202
     \<or> c \<in> {133, 160, 5760, 8232, 8233, 8239, 8287, 12288}"

definition py_strip :: "pystr \<Rightarrow> pystr" where
  "py_strip s = rev (dropWhile is_py_space (rev (dropWhile is_py_space s)))"

lemma dropWhile_none: "(\<And>c. c \<in> set s \<Longrightarrow> \<not> P c) \<Longrightarrow> dropWhile P s = s"
  by (cases s) auto

lemma py_strip_id: "(\<And>c. c \<in> set s \<Longrightarrow> \<not> is_py_space c) \<Longrightarrow> py_strip s = s"
  using dropWhile_none [of s is_py_space] dropWhile_none [of "rev s" is_py_space] by (simp add: py_strip_def)

end
