(* ===== verification/Py_Codec.thy ===== *)
theory Py_Codec
  imports Py_Prelude
begin

text \<open>
  The standard-library codecs the sources call: decimal printing of integers, \<^verbatim>\<open>bytes.hex\<close> and
  \<^verbatim>\<open>bytes.fromhex\<close>, big-endian integers (\<^verbatim>\<open>struct '!I'\<close>, \<^verbatim>\<open>int.to_bytes\<close>, \<^verbatim>\<open>int.from_bytes\<close>),
  UTF-8 and Base64. Each encoder comes with the lemma that its decoder inverts it.
\<close>

section \<open>Decimal integers\<close>

fun show_nat :: "nat \<Rightarrow> pystr" where
  "show_nat n = (if n < 10 then [48 + n] else show_nat (n div 10) @ [48 + n mod 10])"

declare show_nat.simps [simp del]

definition show_int :: "int \<Rightarrow> pystr" where
  "show_int i = (if i < 0 then 45 # show_nat (nat (- i)) else show_nat (nat i))"

abbreviation is_digit :: "nat \<Rightarrow> bool" where
  "is_digit c \<equiv> 48 \<le> c \<and> c \<le> 57"

definition nat_of_digits :: "pystr \<Rightarrow> nat" where
  "nat_of_digits ds = foldl (\<lambda>a d. 10 * a + (d - 48)) 0 ds"

lemma show_nat_neq_Nil [simp]: "show_nat n \<noteq> []"
  by (subst show_nat.simps) simp

lemma show_nat_digits: "c \<in> set (show_nat n) \<Longrightarrow> is_digit c"
proof (induction n arbitrary: c rule: show_nat.induct)
  case (1 n)
  show ?case
  proof (cases "n < 10")
    case True
    with "1.prems" show ?thesis by (simp add: show_nat.simps [of n])
  next
    case False
    with "1.prems" have "c \<in> set (show_nat (n div 10)) \<or> c = 48 + n mod 10"
      by (auto simp: show_nat.simps [of n])
    with "1.IH" [OF False] show ?thesis by auto
  qed
qed

lemma nat_of_digits_show_nat [codec_simps]: "nat_of_digits (show_nat n) = n"
proof (induction n rule: show_nat.induct)
  case (1 n)
  show ?case
  proof (cases "n < 10")
    case True
    then show ?thesis by (simp add: show_nat.simps [of n] nat_of_digits_def)
  next
    case False
    with "1.IH" show ?thesis by (simp add: show_nat.simps [of n] nat_of_digits_def)
  qed
qed

lemma hd_show_nat_zero: "hd (show_nat n) = 48 \<longleftrightarrow> n = 0"
proof (induction n rule: show_nat.induct)
  case (1 n)
  show ?case
  proof (cases "n < 10")
    case True
    then show ?thesis by (simp add: show_nat.simps [of n])
  next
    case False
    with "1.IH" show ?thesis by (simp add: show_nat.simps [of n] hd_append)
  qed
qed

lemma show_nat_0: "show_nat 0 = [48]"
  by (simp add: show_nat.simps)

lemma hd_show_nat: "is_digit (hd (show_nat n))"
  by (rule show_nat_digits [of _ n]) simp

section \<open>Hexadecimal\<close>

lemma unat_byte_less [simp]: "unat (b :: byte) < 256"
  using unsigned_less [of b, where ?'a = nat] by simp

lemma unat_of_nat_byte: "n < 256 \<Longrightarrow> unat (of_nat n :: byte) = n"
  by (simp add: unat_of_nat)

definition hexdigit :: "nat \<Rightarrow> nat" where
  "hexdigit n = (if n < 10 then 48 + n else 87 + n)"

definition hex_val :: "nat \<Rightarrow> nat option" where
  "hex_val c = (if is_digit c then Some (c - 48)
     else if 97 \<le> c \<and> c \<le> 102 then Some (c - 87)
     else if 65 \<le> c \<and> c \<le> 70 then Some (c - 55) else None)"

lemma hex_val_hexdigit [simp]: "n < 16 \<Longrightarrow> hex_val (hexdigit n) = Some n"
  by (auto simp: hex_val_def hexdigit_def)

fun bytes_hex :: "bytes \<Rightarrow> pystr" where
  "bytes_hex [] = []"
| "bytes_hex (b # bs) = hexdigit (unat b div 16) # hexdigit (unat b mod 16) # bytes_hex bs"

definition is_c_space :: "nat \<Rightarrow> bool" where
  "is_c_space c \<longleftrightarrow> 9 \<le> c \<and> c \<le> 13 \<or> c = 32"

definition fromhex_error :: "nat \<Rightarrow> pyexn" where
  "fromhex_error i =
     Exn ValueError (lit ''non-hexadecimal number found in fromhex() arg at position '' @ show_nat i)"

text \<open>\<^verbatim>\<open>bytes.fromhex(s)\<close>: white space is skipped between bytes, \<open>i\<close> is the position in the string.\<close>

fun fromhex_at :: "nat \<Rightarrow> pystr \<Rightarrow> bytes res" where
  "fromhex_at i [] = Inr []"
| "fromhex_at i (c # s) =
     (if is_c_space c then fromhex_at (Suc i) s
      else (case hex_val c of
          None \<Rightarrow> Inl (fromhex_error i)
        | Some h \<Rightarrow> (case s of
            [] \<Rightarrow> Inl (fromhex_error (Suc i))
          | d # s' \<Rightarrow> (case hex_val d of
              None \<Rightarrow> Inl (fromhex_error (Suc i))
            | Some l \<Rightarrow>
                rbind (fromhex_at (Suc (Suc i)) s') (\<lambda>bs. Inr (of_nat (16 * h + l) # bs))))))"

definition bytes_fromhex :: "pystr \<Rightarrow> bytes res" where
  "bytes_fromhex s = fromhex_at 0 s"

lemma hexdigit_not_space [simp]: "n < 16 \<Longrightarrow> \<not> is_c_space (hexdigit n)"
  by (auto simp: is_c_space_def hexdigit_def)

lemma fromhex_at_bytes_hex: "fromhex_at i (bytes_hex bs) = Inr bs"
proof (induction bs arbitrary: i)
  case (Cons b bs)
  have "unat b div 16 < 16" using unat_byte_less [of b] by arith
  then show ?case by (simp add: Cons)
qed simp

lemma bytes_fromhex_hex [codec_simps]: "bytes_fromhex (bytes_hex bs) = Inr bs"
  by (simp add: bytes_fromhex_def fromhex_at_bytes_hex)

lemma length_bytes_hex [simp]: "length (bytes_hex bs) = 2 * length bs"
  by (induction bs) auto

lemma bytes_hex_inject [simp]: "bytes_hex a = bytes_hex b \<longleftrightarrow> a = b"
  by (metis bytes_fromhex_hex sum.inject(2))

lemma bytes_hex_ascii: "c \<in> set (bytes_hex bs) \<Longrightarrow> 48 \<le> c \<and> c \<le> 102"
proof (induction bs)
  case (Cons b bs)
  have "unat b div 16 < 16" using unat_byte_less [of b] by arith
  moreover have "unat b mod 16 < 16" by simp
  ultimately show ?case using Cons by (auto simp: hexdigit_def split: if_splits)
qed simp

section \<open>Big-endian integers\<close>

fun be_bytes :: "nat \<Rightarrow> nat \<Rightarrow> bytes" where
  "be_bytes 0 n = []"
| "be_bytes (Suc k) n = be_bytes k (n div 256) @ [of_nat (n mod 256)]"

definition be_nat :: "bytes \<Rightarrow> nat" where
  "be_nat bs = foldl (\<lambda>a b. 256 * a + unat b) 0 bs"

lemma length_be_bytes [simp]: "length (be_bytes k n) = k"
  by (induction k arbitrary: n) auto

lemma be_nat_snoc [simp]: "be_nat (bs @ [b]) = 256 * be_nat bs + unat b"
  by (simp add: be_nat_def)

lemma be_nat_Nil [simp]: "be_nat [] = 0"
  by (simp add: be_nat_def)

lemma be_nat_be_bytes [codec_simps]: "n < 256 ^ k \<Longrightarrow> be_nat (be_bytes k n) = n"
proof (induction k arbitrary: n)
  case (Suc k)
  from Suc.prems have "n div 256 < 256 ^ k"
    by (simp add: less_mult_imp_div_less mult.commute)
  then show ?case by (simp add: Suc.IH unat_of_nat_byte)
qed simp

lemma be_bytes_be_nat [codec_simps]: "be_bytes (length bs) (be_nat bs) = bs"
  by (induction bs rule: rev_induct) auto

lemma be_nat_less: "be_nat bs < 256 ^ length bs"
proof (induction bs rule: rev_induct)
  case (snoc b bs)
  then have "256 * be_nat bs + 256 \<le> 256 * 256 ^ length bs" by simp
  with unat_byte_less [of b] show ?case by (simp del: unat_byte_less)
qed simp

lemma be_bytes_inject: "m < 256 ^ k \<Longrightarrow> n < 256 ^ k \<Longrightarrow> be_bytes k m = be_bytes k n \<longleftrightarrow> m = n"
  using be_nat_be_bytes by metis

section \<open>UTF-8\<close>

definition is_surrogate :: "nat \<Rightarrow> bool" where
  "is_surrogate c \<longleftrightarrow> 0xD800 \<le> c \<and> c \<le> 0xDFFF"

definition valid_cp :: "nat \<Rightarrow> bool" where
  "valid_cp c \<longleftrightarrow> c < 0x110000 \<and> \<not> is_surrogate c"

definition utf8_vals :: "nat \<Rightarrow> nat list" where
  "utf8_vals c =
     (if c < 0x80 then [c]
      else if c < 0x800 then [0xC0 + c div 64, 0x80 + c mod 64]
      else if c < 0x10000 then [0xE0 + c div 4096, 0x80 + c div 64 mod 64, 0x80 + c mod 64]
      else [0xF0 + c div 262144, 0x80 + c div 4096 mod 64, 0x80 + c div 64 mod 64, 0x80 + c mod 64])"

definition hex4 :: "nat \<Rightarrow> pystr" where
  "hex4 n = [hexdigit (n div 4096 mod 16), hexdigit (n div 256 mod 16),
             hexdigit (n div 16 mod 16), hexdigit (n mod 16)]"

text \<open>The text of the \<^verbatim>\<open>UnicodeEncodeError\<close> for the first run of lone surrogates.\<close>

definition encode_error :: "pystr \<Rightarrow> pyexn" where
  "encode_error s =
     (let i = length (takeWhile (\<lambda>c. \<not> is_surrogate c) s);
          run = takeWhile is_surrogate (drop i s);
          pre = [39] @ lit ''utf-8'' @ [39] @ lit '' codec can'' @ [39] @ lit ''t encode character''
      in Exn UnicodeEncodeError
           (if length run = 1
            then pre @ lit '' '' @ [39] @ [92, 117] @ hex4 (hd run) @ [39] @ lit '' in position '' @ show_nat i
                   @ lit '': surrogates not allowed''
            else pre @ lit ''s in position '' @ show_nat i @ lit ''-''
                   @ show_nat (i + length run - 1) @ lit '': surrogates not allowed''))"

definition str_encode :: "pystr \<Rightarrow> bytes res" where
  "str_encode s =
     (if list_ex is_surrogate s then Inl (encode_error s)
      else Inr (concat (map (\<lambda>c. map of_nat (utf8_vals c)) s)))"

abbreviation is_cont :: "nat \<Rightarrow> bool" where
  "is_cont b \<equiv> 128 \<le> b \<and> b < 192"

text \<open>The strict decoder: over-long forms, surrogates and values past U+10FFFF are refused.\<close>

fun utf8_dec :: "nat list \<Rightarrow> nat list option" where
  "utf8_dec [] = Some []"
| "utf8_dec (a # r) =
     (if a < 0x80 then map_option (Cons a) (utf8_dec r)
      else if 0xC2 \<le> a \<and> a \<le> 0xDF then
        (case r of b # r1 \<Rightarrow>
           if is_cont b then map_option (Cons ((a - 0xC0) * 64 + (b - 128))) (utf8_dec r1) else None
         | [] \<Rightarrow> None)
      else if 0xE0 \<le> a \<and> a \<le> 0xEF then
        (case r of b # c # r2 \<Rightarrow>
           (let v = (a - 0xE0) * 4096 + (b - 128) * 64 + (c - 128)
            in if is_cont b \<and> is_cont c \<and> 0x800 \<le> v \<and> \<not> is_surrogate v
               then map_option (Cons v) (utf8_dec r2) else None)
         | _ \<Rightarrow> None)
      else if 0xF0 \<le> a \<and> a \<le> 0xF4 then
        (case r of b # c # d # r3 \<Rightarrow>
           (let v = (a - 0xF0) * 262144 + (b - 128) * 4096 + (c - 128) * 64 + (d - 128)
            in if is_cont b \<and> is_cont c \<and> is_cont d \<and> 0x10000 \<le> v \<and> v < 0x110000
               then map_option (Cons v) (utf8_dec r3) else None)
         | _ \<Rightarrow> None)
      else None)"

definition bytes_decode :: "bytes \<Rightarrow> pystr option" where
  "bytes_decode bs = utf8_dec (map unat bs)"

lemma utf8_vals_byte: "c < 0x110000 \<Longrightarrow> v \<in> set (utf8_vals c) \<Longrightarrow> v < 256"
  by (auto simp: utf8_vals_def split: if_splits)

lemma map_unat_of_nat_byte: "(\<And>v. v \<in> set vs \<Longrightarrow> v < 256) \<Longrightarrow> map unat (map of_nat vs :: bytes) = vs"
  by (induction vs) (auto simp: unat_of_nat_byte)

lemma sextets3: "c div 4096 * 4096 + c div 64 mod 64 * 64 + c mod 64 = (c :: nat)"
proof -
  have "c div 4096 = c div 64 div 64" by (simp add: div_mult2_eq [symmetric])
  moreover have "c div 64 div 64 * 64 + c div 64 mod 64 = c div 64" "c div 64 * 64 + c mod 64 = c"
    by simp_all
  ultimately show ?thesis by linarith
qed

lemma sextets4:
  "c div 262144 * 262144 + c div 4096 mod 64 * 4096 + c div 64 mod 64 * 64 + c mod 64 = (c :: nat)"
proof -
  have "c div 262144 = c div 4096 div 64" by (simp add: div_mult2_eq [symmetric])
  moreover have "c div 4096 div 64 * 64 + c div 4096 mod 64 = c div 4096" by simp
  ultimately show ?thesis using sextets3 [of c] by linarith
qed

lemma utf8_dec_vals2:
  assumes "0x80 \<le> c" "c < 0x800"
  shows "utf8_dec (utf8_vals c @ r) = map_option (Cons c) (utf8_dec r)"
proof -
  have "2 \<le> c div 64" "c div 64 \<le> 31" using assms by auto
  with assms show ?thesis by (simp add: utf8_vals_def)
qed

lemma utf8_dec_vals3:
  assumes "0x800 \<le> c" "c < 0x10000" "\<not> is_surrogate c"
  shows "utf8_dec (utf8_vals c @ r) = map_option (Cons c) (utf8_dec r)"
proof -
  have "c div 4096 \<le> 15" using assms by auto
  with assms show ?thesis
    using sextets3 [of c] by (simp add: utf8_vals_def)
qed

lemma utf8_dec_vals4:
  assumes "0x10000 \<le> c" "c < 0x110000"
  shows "utf8_dec (utf8_vals c @ r) = map_option (Cons c) (utf8_dec r)"
proof -
  have "c div 262144 \<le> 4" using assms by auto
  with assms show ?thesis
    using sextets4 [of c] by (simp add: utf8_vals_def)
qed

lemma utf8_dec_vals:
  assumes "valid_cp c"
  shows "utf8_dec (utf8_vals c @ r) = map_option (Cons c) (utf8_dec r)"
proof -
  have c: "c < 0x110000" "\<not> is_surrogate c" using assms by (auto simp: valid_cp_def)
  consider "c < 0x80" | "0x80 \<le> c" "c < 0x800" | "0x800 \<le> c" "c < 0x10000" | "0x10000 \<le> c"
    by linarith
  then show ?thesis
  proof cases
    case 1
    then show ?thesis by (simp add: utf8_vals_def)
  qed (use c in \<open>simp_all add: utf8_dec_vals2 utf8_dec_vals3 utf8_dec_vals4 del: utf8_dec.simps\<close>)
qed

lemma bytes_decode_str_encode [codec_simps]:
  assumes "list_all valid_cp s"
  shows "\<exists>bs. str_encode s = Inr bs \<and> bytes_decode bs = Some s"
proof -
  have "\<not> list_ex is_surrogate s"
    using assms by (auto simp: list_ex_iff list_all_iff valid_cp_def)
  moreover have "utf8_dec (map unat (concat (map (\<lambda>c. map of_nat (utf8_vals c) :: bytes) s))) = Some s"
    using assms
  proof (induction s)
    case (Cons c s)
    then have "map unat (map of_nat (utf8_vals c) :: bytes) = utf8_vals c"
      by (intro map_unat_of_nat_byte utf8_vals_byte [of c]) (auto simp: valid_cp_def)
    with Cons show ?case by (simp add: utf8_dec_vals del: utf8_dec.simps)
  qed simp
  ultimately show ?thesis by (simp add: str_encode_def bytes_decode_def)
qed

lemma str_encode_inject:
  "list_all valid_cp s \<Longrightarrow> list_all valid_cp t \<Longrightarrow> str_encode s = str_encode t \<longleftrightarrow> s = t"
  using bytes_decode_str_encode [of s] bytes_decode_str_encode [of t] by auto

lemma str_encode_ascii:
  "(\<And>c. c \<in> set s \<Longrightarrow> c < 128) \<Longrightarrow> str_encode s = Inr (map of_nat s)"
proof -
  assume a: "\<And>c. c \<in> set s \<Longrightarrow> c < 128"
  then have "\<not> list_ex is_surrogate s"
    by (force simp: list_ex_iff is_surrogate_def)
  moreover have "concat (map (\<lambda>c. map of_nat (utf8_vals c) :: bytes) s) = map of_nat s"
    using a by (induction s) (auto simp: utf8_vals_def)
  ultimately show ?thesis by (simp add: str_encode_def)
qed

section \<open>Base64\<close>

definition b64_char :: "nat \<Rightarrow> nat" where
  "b64_char n = (if n < 26 then 65 + n else if n < 52 then 71 + n else if n < 62 then n - 4
     else if n = 62 then 43 else 47)"

definition b64_val :: "nat \<Rightarrow> nat option" where
  "b64_val c = (if 65 \<le> c \<and> c \<le> 90 then Some (c - 65) else if 97 \<le> c \<and> c \<le> 122 then Some (c - 71)
     else if is_digit c then Some (c + 4) else if c = 43 then Some 62
     else if c = 47 then Some 63 else None)"

lemma b64_val_char [simp]: "n < 64 \<Longrightarrow> b64_val (b64_char n) = Some n"
  by (auto simp: b64_val_def b64_char_def)

lemma b64_char_not_pad [simp]: "n < 64 \<Longrightarrow> b64_char n \<noteq> 61"
  by (auto simp: b64_char_def)

lemma b64_char_ascii: "n < 64 \<Longrightarrow> 43 \<le> b64_char n \<and> b64_char n \<le> 122"
  by (auto simp: b64_char_def)

text \<open>\<^verbatim>\<open>base64.b64encode(bs).decode()\<close>.\<close>

fun b64encode :: "bytes \<Rightarrow> pystr" where
  "b64encode [] = []"
| "b64encode [a] = [b64_char (unat a div 4), b64_char (unat a mod 4 * 16), 61, 61]"
| "b64encode [a, b] = [b64_char (unat a div 4), b64_char (unat a mod 4 * 16 + unat b div 16),
     b64_char (unat b mod 16 * 4), 61]"
| "b64encode (a # b # c # r) = b64_char (unat a div 4) # b64_char (unat a mod 4 * 16 + unat b div 16)
     # b64_char (unat b mod 16 * 4 + unat c div 64) # b64_char (unat c mod 64) # b64encode r"

text \<open>
  The non-strict decoder \<^verbatim>\<open>binascii.a2b_base64\<close>: characters outside the alphabet are skipped, a
  complete pad sequence ends the input. \<open>q\<close> is the position in the quad, \<open>l\<close> the bits left over,
  \<open>p\<close> the pads seen, \<open>k\<close> the bytes produced so far.
\<close>

fun a2b_base64 :: "nat \<Rightarrow> nat \<Rightarrow> nat \<Rightarrow> nat \<Rightarrow> pystr \<Rightarrow> bytes res" where
  "a2b_base64 q l p k [] =
     (if q = 0 then Inr []
      else if q = 1 then Inl (Exn ValueError (lit ''Invalid base64-encoded string: number of data characters (''
             @ show_nat (k div 3 * 4 + 1) @ lit '') cannot be 1 more than a multiple of 4''))
      else Inl (Exn ValueError (lit ''Incorrect padding'')))"
| "a2b_base64 q l p k (c # s) =
     (if c = 61 then
        (if q \<ge> 2 then if q + Suc p \<ge> 4 then Inr [] else a2b_base64 q l (Suc p) k s
         else a2b_base64 q l p k s)
      else (case b64_val c of
          None \<Rightarrow> a2b_base64 q l p k s
        | Some v \<Rightarrow>
            (if q = 0 then a2b_base64 1 v 0 k s
             else if q = 1 then rbind (a2b_base64 2 (v mod 16) 0 (Suc k) s)
                                  (\<lambda>bs. Inr (of_nat (l * 4 + v div 16) # bs))
             else if q = 2 then rbind (a2b_base64 3 (v mod 4) 0 (Suc k) s)
                                  (\<lambda>bs. Inr (of_nat (l * 16 + v div 4) # bs))
             else rbind (a2b_base64 0 0 0 (Suc k) s) (\<lambda>bs. Inr (of_nat (l * 64 + v) # bs)))))"

definition b64decode :: "pystr \<Rightarrow> bytes res" where
  "b64decode s =
     (if list_ex (\<lambda>c. 128 \<le> c) s
      then Inl (Exn ValueError (lit ''string argument should contain only ASCII characters''))
      else a2b_base64 0 0 0 0 s)"

lemma byte_div_mod_less:
  "unat (a :: byte) div 4 < 64" "unat a div 16 < 16" "unat a div 64 < 4"
  "unat a mod 4 * 16 + unat b div 16 < 64" "unat b mod 16 * 4 + unat c div 64 < 64"
  for a b c :: byte
proof -
  show "unat a div 4 < 64" "unat a div 16 < 16" "unat a div 64 < 4"
    by (rule less_mult_imp_div_less, simp)+
  have "unat b div 16 < 16" "unat c div 64 < 4"
    by (rule less_mult_imp_div_less, simp)+
  moreover have "unat a mod 4 < 4" "unat b mod 16 < 16" by simp_all
  ultimately show "unat a mod 4 * 16 + unat b div 16 < 64" "unat b mod 16 * 4 + unat c div 64 < 64"
    by linarith+
qed

lemma b64_arith:
  "x div 4 * 4 + x mod 4 = (x :: nat)"
  "n < 16 \<Longrightarrow> (x mod 4 * 16 + n) div 16 = x mod 4" "n < 16 \<Longrightarrow> (x mod 4 * 16 + n) mod 16 = n"
  "m < 4 \<Longrightarrow> (x mod 16 * 4 + m) div 4 = x mod 16" "m < 4 \<Longrightarrow> (x mod 16 * 4 + m) mod 4 = m"
  by simp_all

lemma a2b_b64encode: "a2b_base64 0 0 0 k (b64encode bs) = Inr bs"
proof (induction bs arbitrary: k rule: b64encode.induct)
  case (2 a)
  have "unat a mod 4 * 16 < 64" by simp
  then show ?case
    by (simp add: byte_div_mod_less b64_arith(1))
next
  case (3 a b)
  have "unat b mod 16 * 4 < 64" by simp
  then show ?case
    by (simp add: byte_div_mod_less b64_arith)
next
  case (4 a b c r)
  then show ?case
    by (simp add: byte_div_mod_less b64_arith)
qed simp

lemma b64_char_less [simp]: "n < 64 \<Longrightarrow> b64_char n < 123"
  using b64_char_ascii [of n] by simp

lemma b64encode_ascii: "\<forall>c \<in> set (b64encode bs). c < 123"
  by (induction bs rule: b64encode.induct) (simp_all add: byte_div_mod_less)

lemma b64decode_b64encode [codec_simps]: "b64decode (b64encode bs) = Inr bs"
proof -
  have "\<not> list_ex (\<lambda>c. 128 \<le> c) (b64encode bs)"
    using b64encode_ascii [of bs] by (auto simp: list_ex_iff)
  then show ?thesis by (simp add: b64decode_def a2b_b64encode)
qed

lemma b64encode_inject [simp]: "b64encode a = b64encode b \<longleftrightarrow> a = b"
  by (metis b64decode_b64encode sum.inject(2))

end
