(* ===== verification/Sha2.thy ===== *)
theory Sha2
  imports Py_Codec
begin

text \<open>
  \<^verbatim>\<open>hashlib.sha256\<close> and \<^verbatim>\<open>hashlib.sha512\<close> (FIPS 180-4), which the attestation proofs, the
  output-file manifest and the TDX report data are built from. Both are instances of one
  Merkle-Damgard construction over a word type; the digest lengths are theorems.
\<close>

unbundle bit_operations_syntax

record 'a sha2_params =
  rot_S0 :: "nat \<times> nat \<times> nat"
  rot_S1 :: "nat \<times> nat \<times> nat"
  rot_s0 :: "nat \<times> nat \<times> nat"
  rot_s1 :: "nat \<times> nat \<times> nat"
  round_ks :: "'a list"
  init_h :: "'a list"
  word_bytes :: nat

definition sha_rotr :: "nat \<Rightarrow> 'a::len word \<Rightarrow> 'a word" where
  "sha_rotr n x = drop_bit n x OR push_bit (LENGTH('a) - n) x"

definition rot3 :: "nat \<times> nat \<times> nat \<Rightarrow> 'a::len word \<Rightarrow> 'a word" where
  "rot3 r x = (case r of (i, j, k) \<Rightarrow> sha_rotr i x XOR sha_rotr j x XOR sha_rotr k x)"

definition rot2_shift :: "nat \<times> nat \<times> nat \<Rightarrow> 'a::len word \<Rightarrow> 'a word" where
  "rot2_shift r x = (case r of (i, j, k) \<Rightarrow> sha_rotr i x XOR sha_rotr j x XOR drop_bit k x)"

definition sha_ch :: "'a::len word \<Rightarrow> 'a word \<Rightarrow> 'a word \<Rightarrow> 'a word" where
  "sha_ch x y z = (x AND y) XOR (NOT x AND z)"

definition sha_maj :: "'a::len word \<Rightarrow> 'a word \<Rightarrow> 'a word \<Rightarrow> 'a word" where
  "sha_maj x y z = (x AND y) XOR (x AND z) XOR (y AND z)"

text \<open>The message schedule, latest word first.\<close>

fun sched_ext :: "('a::len word) sha2_params \<Rightarrow> nat \<Rightarrow> 'a word list \<Rightarrow> 'a word list" where
  "sched_ext p 0 ws = ws"
| "sched_ext p (Suc n) ws =
     sched_ext p n ((rot2_shift (rot_s1 p) (ws ! 1) + ws ! 6 + rot2_shift (rot_s0 p) (ws ! 14) + ws ! 15) # ws)"

type_synonym 'a sha_regs = "'a \<times> 'a \<times> 'a \<times> 'a \<times> 'a \<times> 'a \<times> 'a \<times> 'a"

fun sha_next :: "'a::plus \<Rightarrow> 'a \<Rightarrow> 'a sha_regs \<Rightarrow> 'a sha_regs" where
  "sha_next t1 t2 (a, b, c, d, e, f, g, h) = (t1 + t2, a, b, c, d + t1, e, f, g)"

fun sha_round :: "('a::len word) sha2_params \<Rightarrow> 'a word \<times> 'a word \<Rightarrow> 'a word sha_regs \<Rightarrow> 'a word sha_regs" where
  "sha_round p (k, w) (a, b, c, d, e, f, g, h) =
     sha_next (h + rot3 (rot_S1 p) e + sha_ch e f g + k + w) (rot3 (rot_S0 p) a + sha_maj a b c)
       (a, b, c, d, e, f, g, h)"

fun regs_list :: "'a sha_regs \<Rightarrow> 'a list" where
  "regs_list (a, b, c, d, e, f, g, h) = [a, b, c, d, e, f, g, h]"

fun list_regs :: "'a::zero list \<Rightarrow> 'a sha_regs" where
  "list_regs [a, b, c, d, e, f, g, h] = (a, b, c, d, e, f, g, h)"
| "list_regs _ = (0, 0, 0, 0, 0, 0, 0, 0)"

fun chunks :: "nat \<Rightarrow> 'b list \<Rightarrow> 'b list list" where
  "chunks n xs = (if n = 0 \<or> xs = [] then [] else take n xs # chunks n (drop n xs))"

declare chunks.simps [simp del]

definition sha_compress :: "('a::len word) sha2_params \<Rightarrow> bytes \<Rightarrow> 'a word list \<Rightarrow> 'a word list" where
  "sha_compress p block h =
     (let w16 = map (\<lambda>bs. of_nat (be_nat bs)) (chunks (word_bytes p) block);
          ws = rev (sched_ext p (length (round_ks p) - 16) (rev w16))
      in map2 (+) h (regs_list (fold (sha_round p) (zip (round_ks p) ws) (list_regs h))))"

definition sha_pad :: "nat \<Rightarrow> bytes \<Rightarrow> bytes" where
  "sha_pad wb bs =
     (let block = 16 * wb; used = (length bs + 1 + 2 * wb) mod block
      in bs @ [0x80] @ replicate ((block - used) mod block) 0 @ be_bytes (2 * wb) (8 * length bs))"

definition sha2 :: "('a::len word) sha2_params \<Rightarrow> bytes \<Rightarrow> bytes" where
  "sha2 p bs =
     concat (map (\<lambda>w. be_bytes (word_bytes p) (unat w))
       (fold (sha_compress p) (chunks (16 * word_bytes p) (sha_pad (word_bytes p) bs)) (init_h p)))"

text \<open>
  The constants, as the standard obtains them: the round constants are the first bits of the
  fractional parts of the cube roots of the first 64 (80) primes, the initial state those of the square
  roots of the first eight. Reading the root of \<open>p * 2 ^ (k * w)\<close> into a \<open>w\<close>-bit word drops the integral part.
\<close>

definition int_root :: "nat \<Rightarrow> int \<Rightarrow> int" where
  "int_root k n = foldr (\<lambda>b r. if (r + 2 ^ b) ^ k \<le> n then r + 2 ^ b else r) [0..<80] 0"

definition frac_root :: "nat \<Rightarrow> int \<Rightarrow> 'a::len word" where
  "frac_root k p = of_int (int_root k (p * 2 ^ (k * LENGTH('a))))"

definition small_primes :: "int list" where
  "small_primes = filter (\<lambda>n. list_all (\<lambda>d. n mod d \<noteq> 0) [2..n - 1]) [2..409]"

definition first_primes :: "int list" where
  "first_primes = [2, 3, 5, 7, 11, 13, 17, 19]"

definition sha256_params :: "32 word sha2_params" where
  "sha256_params = \<lparr>rot_S0 = (2, 13, 22), rot_S1 = (6, 11, 25), rot_s0 = (7, 18, 3), rot_s1 = (17, 19, 10),
    round_ks = map (frac_root 3) (take 64 small_primes), init_h = map (frac_root 2) first_primes, word_bytes = 4\<rparr>"

definition sha512_params :: "64 word sha2_params" where
  "sha512_params = \<lparr>rot_S0 = (28, 34, 39), rot_S1 = (14, 18, 41), rot_s0 = (1, 8, 7), rot_s1 = (19, 61, 6),
    round_ks = map (frac_root 3) small_primes, init_h = map (frac_root 2) first_primes, word_bytes = 8\<rparr>"

definition sha256 :: "bytes \<Rightarrow> bytes" where
  "sha256 = sha2 sha256_params"

definition sha512 :: "bytes \<Rightarrow> bytes" where
  "sha512 = sha2 sha512_params"

abbreviation sha256_hex :: "bytes \<Rightarrow> pystr" where
  "sha256_hex bs \<equiv> bytes_hex (sha256 bs)"

section \<open>Digest lengths\<close>

lemma length_regs_list [simp]: "length (regs_list r) = 8"
  by (cases r) auto

lemma length_sha_compress [simp]: "length h = 8 \<Longrightarrow> length (sha_compress p b h) = 8"
  by (simp add: sha_compress_def Let_def)

lemma length_sha_fold: "length h = 8 \<Longrightarrow> length (fold (sha_compress p) bs h) = 8"
  by (induction bs arbitrary: h) auto

lemma length_concat_be_bytes: "length (concat (map (\<lambda>w. be_bytes k (f w)) ws)) = k * length ws"
  by (induction ws) auto

lemma length_sha256 [simp]: "length (sha256 bs) = 32"
  unfolding sha256_def sha2_def length_concat_be_bytes
  by (subst length_sha_fold) (simp_all add: sha256_params_def first_primes_def)

lemma length_sha512 [simp]: "length (sha512 bs) = 64"
  unfolding sha512_def sha2_def length_concat_be_bytes
  by (subst length_sha_fold) (simp_all add: sha512_params_def first_primes_def)

lemma length_sha256_hex: "length (sha256_hex bs) = 64"
  by simp

end
