(* ===== verification/Py_Json.thy ===== *)
theory Py_Json
  imports Py_Codec
begin

text \<open>
  Python values as the sources build and exchange them, \<^verbatim>\<open>json.dumps\<close> (\<^verbatim>\<open>ensure_ascii\<close>, with or
  without \<^verbatim>\<open>sort_keys\<close> and compact separators) and \<^verbatim>\<open>json.loads\<close>. The parser follows the C
  scanner of CPython: it is defined with fuel, one unit per nested call, and \<open>json_loads\<close>
  supplies more than twice as many units as the text has characters; \<open>pv_fuel\<close> shows that no larger supply changes a result.
  The conversion of a decimal literal to a double and back to its shortest \<^verbatim>\<open>repr\<close> is the
  argument \<open>fr\<close>; a float is carried as that \<^verbatim>\<open>repr\<close>. The round trip \<open>json_loads_text\<close> is what makes
  a canonical JSON text determine the value it was printed from.
\<close>

section \<open>Values\<close>

datatype pyval =
    PNone | PBool bool | PInt int | PFloat pystr | PStr pystr | PBytes bytes
  | PList "pyval list" | PDict "(pystr \<times> pyval) list"

abbreviation pstr :: "string \<Rightarrow> pyval" where
  "pstr s \<equiv> PStr (lit s)"

text \<open>Python's truth value, \<open>if x:\<close>. A float is falsy when it is a zero.\<close>

fun truthy :: "pyval \<Rightarrow> bool" where
  "truthy PNone = False"
| "truthy (PBool b) = b"
| "truthy (PInt i) = (i \<noteq> 0)"
| "truthy (PFloat f) = (f \<noteq> lit ''0.0'' \<and> f \<noteq> lit ''-0.0'')"
| "truthy (PStr s) = (s \<noteq> [])"
| "truthy (PBytes b) = (b \<noteq> [])"
| "truthy (PList xs) = (xs \<noteq> [])"
| "truthy (PDict d) = (d \<noteq> [])"

text \<open>The class name that \<^verbatim>\<open>TypeError\<close> messages show.\<close>

fun type_name :: "pyval \<Rightarrow> pystr" where
  "type_name PNone = lit ''NoneType''"
| "type_name (PBool b) = lit ''bool''"
| "type_name (PInt i) = lit ''int''"
| "type_name (PFloat f) = lit ''float''"
| "type_name (PStr s) = lit ''str''"
| "type_name (PBytes b) = lit ''bytes''"
| "type_name (PList xs) = lit ''list''"
| "type_name (PDict d) = lit ''dict''"

section \<open>json.dumps\<close>

definition u_escape :: "nat \<Rightarrow> pystr" where
  "u_escape n = [92, 117] @ hex4 n"

definition json_esc :: "nat \<Rightarrow> pystr" where
  "json_esc c =
     (if c = 34 then [92, 34] else if c = 92 then [92, 92]
      else if c = 10 then [92, 110] else if c = 13 then [92, 114] else if c = 9 then [92, 116]
      else if c = 12 then [92, 102] else if c = 8 then [92, 98]
      else if 32 \<le> c \<and> c \<le> 126 then [c]
      else if c < 0x10000 then u_escape c
      else u_escape (0xD800 + (c - 0x10000) div 1024 mod 1024) @ u_escape (0xDC00 + (c - 0x10000) mod 1024))"

definition json_str :: "pystr \<Rightarrow> pystr" where
  "json_str s = [34] @ concat (map json_esc s) @ [34]"

definition item_sep :: "bool \<Rightarrow> pystr" where
  "item_sep compact = (if compact then [44] else [44, 32])"

definition key_sep :: "bool \<Rightarrow> pystr" where
  "key_sep compact = (if compact then [58] else [58, 32])"

definition dict_items :: "bool \<Rightarrow> (pystr \<times> 'v) list \<Rightarrow> (pystr \<times> 'v) list" where
  "dict_items sort_keys d = (if sort_keys then sort_key fst d else d)"

lemma set_dict_items [simp]: "set (dict_items so d) = set d"
  by (simp add: dict_items_def)

lemma dict_items_Nil_iff [simp]: "dict_items so d = [] \<longleftrightarrow> d = []"
  using set_dict_items [of so d] by (metis set_empty)

text \<open>A float prints as its \<^verbatim>\<open>repr\<close>, except for the three values JSON has no number for.\<close>

definition float_text :: "pystr \<Rightarrow> pystr" where
  "float_text f = (if f = lit ''nan'' then lit ''NaN'' else if f = lit ''inf'' then lit ''Infinity''
     else if f = lit ''-inf'' then lit ''-Infinity'' else f)"

lemma pyval_size_list: "x \<in> set xs \<Longrightarrow> size x < size (PList xs)"
  by (induction xs) auto

lemma pyval_size_dict: "(k, v) \<in> set d \<Longrightarrow> size v < size (PDict d)"
  by (induction d) auto

function json_text :: "bool \<Rightarrow> bool \<Rightarrow> pyval \<Rightarrow> pystr" where
  "json_text so cp PNone = lit ''null''"
| "json_text so cp (PBool b) = (if b then lit ''true'' else lit ''false'')"
| "json_text so cp (PInt i) = show_int i"
| "json_text so cp (PFloat f) = float_text f"
| "json_text so cp (PStr s) = json_str s"
| "json_text so cp (PBytes b) = []"
| "json_text so cp (PList xs) = [91] @ join_with (item_sep cp) (map (json_text so cp) xs) @ [93]"
| "json_text so cp (PDict d) =
     [123] @ join_with (item_sep cp)
       (map (\<lambda>(k, v). json_str k @ key_sep cp @ json_text so cp v) (dict_items so d)) @ [125]"
  by pat_completeness auto

termination
  by (relation "measure (\<lambda>(so, cp, v). size v)")
    (auto dest: pyval_size_list pyval_size_dict)

text \<open>\<^verbatim>\<open>bytes\<close> are not serializable wherever they stand in the value.\<close>

fun has_bytes :: "pyval \<Rightarrow> bool" where
  "has_bytes (PBytes b) = True"
| "has_bytes (PList xs) = list_ex has_bytes xs"
| "has_bytes (PDict d) = list_ex (\<lambda>(k, v). has_bytes v) d"
| "has_bytes _ = False"

definition json_dumps :: "bool \<Rightarrow> bool \<Rightarrow> pyval \<Rightarrow> pystr res" where
  "json_dumps sort_keys compact v =
     (if has_bytes v then Inl (Exn TypeError (lit ''Object of type bytes is not JSON serializable''))
      else Inr (json_text sort_keys compact v))"

section \<open>json.loads\<close>

definition is_json_ws :: "nat \<Rightarrow> bool" where
  "is_json_ws c \<longleftrightarrow> c = 32 \<or> c = 9 \<or> c = 10 \<or> c = 13"

definition skip_ws :: "pystr \<Rightarrow> pystr" where
  "skip_ws s = dropWhile is_json_ws s"

definition hex4_val :: "nat \<Rightarrow> nat \<Rightarrow> nat \<Rightarrow> nat \<Rightarrow> nat option" where
  "hex4_val a b c d =
     (case (hex_val a, hex_val b, hex_val c, hex_val d) of
        (Some p, Some q, Some r, Some s) \<Rightarrow> Some (4096 * p + 256 * q + 16 * r + s)
      | _ \<Rightarrow> None)"

definition simple_escape :: "nat \<Rightarrow> nat option" where
  "simple_escape e =
     (if e = 34 \<or> e = 92 \<or> e = 47 then Some e else if e = 98 then Some 8 else if e = 102 then Some 12
      else if e = 110 then Some 10 else if e = 114 then Some 13 else if e = 116 then Some 9 else None)"

abbreviation is_high_surrogate :: "nat \<Rightarrow> bool" where
  "is_high_surrogate u \<equiv> 0xD800 \<le> u \<and> u \<le> 0xDBFF"

abbreviation is_low_surrogate :: "nat \<Rightarrow> bool" where
  "is_low_surrogate u \<equiv> 0xDC00 \<le> u \<and> u \<le> 0xDFFF"

definition join_surrogates :: "nat \<Rightarrow> nat \<Rightarrow> nat" where
  "join_surrogates hi lo = 0x10000 + (hi - 0xD800) * 1024 + (lo - 0xDC00)"

definition take_u :: "pystr \<Rightarrow> (nat \<times> pystr) option" where
  "take_u s = (case s of a # b # c # d # r \<Rightarrow> map_option (\<lambda>u. (u, r)) (hex4_val a b c d) | _ \<Rightarrow> None)"

text \<open>After \<^verbatim>\<open>\u\<close>: a high surrogate followed by an escaped low surrogate is one character.\<close>

definition parse_unicode :: "pystr \<Rightarrow> (nat \<times> pystr) option" where
  "parse_unicode s =
     (case take_u s of
        None \<Rightarrow> None
      | Some (u, r) \<Rightarrow>
          (if is_high_surrogate u \<and> starts_with r [92, 117] then
             (case take_u (drop 2 r) of
                None \<Rightarrow> None
              | Some (w, q) \<Rightarrow> if is_low_surrogate w then Some (join_surrogates u w, q) else Some (u, r))
           else Some (u, r)))"

definition parse_escape :: "pystr \<Rightarrow> (nat \<times> pystr) option" where
  "parse_escape s =
     (case s of
        [] \<Rightarrow> None
      | e # r \<Rightarrow> if e = 117 then parse_unicode r else map_option (\<lambda>v. (v, r)) (simple_escape e))"

lemma take_u_rest: "take_u s = Some (u, r) \<Longrightarrow> length r < length s"
  by (auto simp: take_u_def split: list.splits)

lemma parse_unicode_rest: "parse_unicode s = Some (u, r) \<Longrightarrow> length r < length s"
proof (cases "take_u s")
  case (Some p)
  assume h: "parse_unicode s = Some (u, r)"
  obtain w q where p: "p = (w, q)" by (cases p)
  have "length q < length s" using Some p take_u_rest by blast
  moreover have "length r' < length q" if "take_u (drop 2 q) = Some (x, r')" for x r'
    using take_u_rest [OF that] by simp
  ultimately show ?thesis using h Some p
    by (fastforce simp: parse_unicode_def split: option.splits if_splits)
qed (simp add: parse_unicode_def)

lemma parse_escape_rest: "parse_escape s = Some (u, r) \<Longrightarrow> length r < length s"
  using parse_unicode_rest by (fastforce simp: parse_escape_def split: list.splits if_splits)

abbreviation cons_fst :: "nat \<Rightarrow> (pystr \<times> pystr) option \<Rightarrow> (pystr \<times> pystr) option" where
  "cons_fst c r \<equiv> map_option (\<lambda>(t, s). (c # t, s)) r"

text \<open>The body of a string after its opening quote: the decoded text and what follows the
  closing quote.\<close>

function parse_str :: "pystr \<Rightarrow> (pystr \<times> pystr) option" where
  "parse_str [] = None"
| "parse_str (c # s) =
     (if c = 34 then Some ([], s)
      else if c = 92 then
        (case parse_escape s of None \<Rightarrow> None | Some (v, r) \<Rightarrow> cons_fst v (parse_str r))
      else if c < 32 then None
      else cons_fst c (parse_str s))"
  by pat_completeness auto
termination
  by (relation "measure length") (auto dest: parse_escape_rest)

text \<open>The digits after a point, and an exponent; both optional.\<close>

definition parse_frac :: "pystr \<Rightarrow> pystr \<times> pystr" where
  "parse_frac s =
     (case s of
        c # d # r \<Rightarrow> (if c = 46 \<and> is_digit d
                      then (c # takeWhile is_digit (d # r), dropWhile is_digit (d # r)) else ([], s))
      | _ \<Rightarrow> ([], s))"

definition parse_exp :: "pystr \<Rightarrow> pystr \<times> pystr" where
  "parse_exp s =
     (case s of
        [] \<Rightarrow> ([], s)
      | c # r \<Rightarrow>
          (if c = 101 \<or> c = 69 then
             (let (sgn, ds) = (case r of d # r' \<Rightarrow> (if d = 43 \<or> d = 45 then ([d], r') else ([], r))
                               | [] \<Rightarrow> ([], r))
              in if takeWhile is_digit ds = [] then ([], s)
                 else (c # sgn @ takeWhile is_digit ds, dropWhile is_digit ds))
           else ([], s)))"

definition parse_int_part :: "pystr \<Rightarrow> (pystr \<times> pystr) option" where
  "parse_int_part s =
     (case s of
        [] \<Rightarrow> None
      | c # r \<Rightarrow> (if c = 48 then Some ([48], r)
                  else if is_digit c then Some (takeWhile is_digit s, dropWhile is_digit s)
                  else None))"

definition parse_number :: "(pystr \<Rightarrow> pystr) \<Rightarrow> pystr \<Rightarrow> (pyval \<times> pystr) option" where
  "parse_number fr s =
     (let (neg, s0) = (case s of c # r \<Rightarrow> (if c = 45 then (True, r) else (False, s)) | [] \<Rightarrow> (False, s))
      in case parse_int_part s0 of
           None \<Rightarrow> None
         | Some (ds, s1) \<Rightarrow>
             (let (f, s2) = parse_frac s1; (e, s3) = parse_exp s2;
                  sign = (if neg then [45] else [])
              in if f = [] \<and> e = []
                 then Some (PInt (if neg then - int (nat_of_digits ds) else int (nat_of_digits ds)), s1)
                 else Some (PFloat (fr (sign @ ds @ f @ e)), s3)))"

definition parse_literal :: "pystr \<Rightarrow> (pyval \<times> pystr) option" where
  "parse_literal s =
     (if starts_with s (lit ''null'') then Some (PNone, drop 4 s)
      else if starts_with s (lit ''true'') then Some (PBool True, drop 4 s)
      else if starts_with s (lit ''false'') then Some (PBool False, drop 5 s)
      else if starts_with s (lit ''NaN'') then Some (PFloat (lit ''nan''), drop 3 s)
      else if starts_with s (lit ''Infinity'') then Some (PFloat (lit ''inf''), drop 8 s)
      else if starts_with s (lit ''-Infinity'') then Some (PFloat (lit ''-inf''), drop 9 s)
      else None)"

fun pv :: "(pystr \<Rightarrow> pystr) \<Rightarrow> nat \<Rightarrow> pystr \<Rightarrow> (pyval \<times> pystr) option"
and pelems :: "(pystr \<Rightarrow> pystr) \<Rightarrow> nat \<Rightarrow> pyval list \<Rightarrow> pystr \<Rightarrow> (pyval \<times> pystr) option"
and pmembers :: "(pystr \<Rightarrow> pystr) \<Rightarrow> nat \<Rightarrow> pyval dict \<Rightarrow> pystr \<Rightarrow> (pyval \<times> pystr) option" where
  "pv fr 0 s = None"
| "pv fr (Suc n) s =
     (case s of
        [] \<Rightarrow> None
      | c # r \<Rightarrow>
          if c = 34 then map_option (\<lambda>(t, r'). (PStr t, r')) (parse_str r)
          else if c = 91 then
            (case skip_ws r of
               [] \<Rightarrow> None
             | d # r' \<Rightarrow> if d = 93 then Some (PList [], r') else pelems fr n [] (d # r'))
          else if c = 123 then
            (case skip_ws r of
               [] \<Rightarrow> None
             | d # r' \<Rightarrow> if d = 125 then Some (PDict [], r') else if d = 34 then pmembers fr n [] r' else None)
          else (case parse_literal s of Some p \<Rightarrow> Some p | None \<Rightarrow> parse_number fr s))"
| "pelems fr 0 acc s = None"
| "pelems fr (Suc n) acc s =
     (case pv fr n s of
        None \<Rightarrow> None
      | Some (v, r) \<Rightarrow>
          (case skip_ws r of
             [] \<Rightarrow> None
           | d # r' \<Rightarrow>
               if d = 93 then Some (PList (acc @ [v]), r')
               else if d = 44 then pelems fr n (acc @ [v]) (skip_ws r') else None))"
| "pmembers fr 0 acc s = None"
| "pmembers fr (Suc n) acc s =
     (case parse_str s of
        None \<Rightarrow> None
      | Some (k, r) \<Rightarrow>
          (case skip_ws r of
             [] \<Rightarrow> None
           | d # r' \<Rightarrow>
               if d \<noteq> 58 then None
               else (case pv fr n (skip_ws r') of
                   None \<Rightarrow> None
                 | Some (v, q) \<Rightarrow>
                     (case skip_ws q of
                        [] \<Rightarrow> None
                      | e # q' \<Rightarrow>
                          if e = 125 then Some (PDict (dset k v acc), q')
                          else if e = 44 then
                            (case skip_ws q' of
                               [] \<Rightarrow> None
                             | g # q2 \<Rightarrow> if g = 34 then pmembers fr n (dset k v acc) q2 else None)
                          else None))))"

text \<open>\<^verbatim>\<open>json.loads\<close>: a leading byte-order mark is refused, white space is allowed around the value,
  anything else after it is an error. \<open>None\<close> is \<^verbatim>\<open>JSONDecodeError\<close>.\<close>

definition json_loads :: "(pystr \<Rightarrow> pystr) \<Rightarrow> pystr \<Rightarrow> pyval option" where
  "json_loads fr s =
     (if starts_with s [0xFEFF] then None
      else (case pv fr (Suc (2 * length s)) (skip_ws s) of
          None \<Rightarrow> None
        | Some (v, r) \<Rightarrow> if skip_ws r = [] then Some v else None))"

section \<open>The fuel is enough\<close>

lemma length_skip_ws: "length (skip_ws s) \<le> length s"
  by (simp add: skip_ws_def length_dropWhile_le)

lemma skip_ws_Cons_length: "skip_ws r = d # r' \<Longrightarrow> length r' < length r"
  using length_skip_ws [of r] by simp

lemma parse_str_rest: "parse_str s = Some (t, r) \<Longrightarrow> length r < length s"
proof (induction s arbitrary: t rule: parse_str.induct)
  case (2 c s)
  consider "c = 34" | "c = 92" | "c \<noteq> 34" "c \<noteq> 92" "c < 32" | "c \<noteq> 34" "c \<noteq> 92" "\<not> c < 32" by blast
  then show ?case
  proof cases
    case 2
    with "2.prems" obtain v r' t' where "parse_escape s = Some (v, r')" "parse_str r' = Some (t', r)"
      by (auto split: option.splits)
    with "2.IH"(1) 2 parse_escape_rest show ?thesis by fastforce
  next
    case 4
    with "2.prems" obtain t' where "parse_str s = Some (t', r)" by auto
    with "2.IH"(2) 4 show ?thesis by fastforce
  qed (use "2.prems" in auto)
qed simp

lemma parse_int_part_rest: "parse_int_part s = Some (ds, r) \<Longrightarrow> length r < length s"
  using length_dropWhile_le [of is_digit "tl s"]
  by (auto simp: parse_int_part_def le_imp_less_Suc split: list.splits if_splits)

lemma parse_frac_rest: "parse_frac s = (f, r) \<Longrightarrow> length r \<le> length s"
  using length_dropWhile_le [of is_digit "tl (tl s)"]
  by (auto simp: parse_frac_def split: list.splits if_splits)

lemma parse_exp_rest: "parse_exp s = (f, r) \<Longrightarrow> length r \<le> length s"
  using length_dropWhile_le [of is_digit "tl s"] length_dropWhile_le [of is_digit "tl (tl s)"]
  by (auto simp: parse_exp_def Let_def split: list.splits if_splits prod.splits)

lemma parse_number_rest:
  assumes "parse_number fr s = Some (v, r)"
  shows "length r < length s"
proof -
  obtain neg s0 where n: "(case s of c # q \<Rightarrow> (if c = 45 then (True, q) else (False, s)) | [] \<Rightarrow> (False, s)) = (neg, s0)"
    by fastforce
  then have "length s0 \<le> length s" by (auto split: list.splits if_splits)
  moreover obtain ds s1 where i: "parse_int_part s0 = Some (ds, s1)"
    using assms n by (auto simp: parse_number_def Let_def split: option.splits)
  moreover obtain f s2 e s3 where fe: "parse_frac s1 = (f, s2)" "parse_exp s2 = (e, s3)" by fastforce
  moreover have "r = s1 \<or> r = s3"
    using assms n i fe by (auto simp: parse_number_def Let_def split: if_splits)
  ultimately show ?thesis
    using parse_int_part_rest [OF i] parse_frac_rest [OF fe(1)] parse_exp_rest [OF fe(2)] by auto
qed

lemma parse_literal_rest: "parse_literal s = Some (v, r) \<Longrightarrow> length r < length s"
  by (auto simp: parse_literal_def starts_with_iff split: if_splits)

text \<open>Every parser returns a proper suffix; one lemma per parser, then the mutual induction.\<close>

lemma pv_step_rest:
  assumes elems: "\<And>acc q v r. pelems fr n acc q = Some (v, r) \<Longrightarrow> length r < length q"
    and membs: "\<And>d q v r. pmembers fr n d q = Some (v, r) \<Longrightarrow> length r < length q"
    and res: "pv fr (Suc n) s = Some (v, r)"
  shows "length r < length s"
proof -
  from res obtain c q where s: "s = c # q" by (auto split: list.splits)
  consider "c = 34" | "c = 91" | "c = 123" | "c \<noteq> 34" "c \<noteq> 91" "c \<noteq> 123" by blast
  then show ?thesis
  proof cases
    case 1
    with res s show ?thesis by (auto dest: parse_str_rest)
  next
    case 2
    with res s obtain d q' where q: "skip_ws q = d # q'" by (auto split: list.splits)
    with res s 2 show ?thesis
      using skip_ws_Cons_length [OF q] elems [of "[]" "d # q'" v r] by (auto split: if_splits)
  next
    case 3
    with res s obtain d q' where q: "skip_ws q = d # q'" by (auto split: list.splits)
    with res s 3 show ?thesis
      using skip_ws_Cons_length [OF q] membs [of "[]" q' v r] by (auto split: if_splits)
  next
    case 4
    with res s show ?thesis
      by (auto split: option.splits dest: parse_number_rest parse_literal_rest)
  qed
qed

lemma pelems_step_rest:
  assumes val: "\<And>q v r. pv fr n q = Some (v, r) \<Longrightarrow> length r < length q"
    and elems: "\<And>acc q v r. pelems fr n acc q = Some (v, r) \<Longrightarrow> length r < length q"
    and res: "pelems fr (Suc n) acc s = Some (v, r)"
  shows "length r < length s"
proof -
  from res obtain w q where w: "pv fr n s = Some (w, q)" by (auto split: option.splits)
  from res w obtain d q' where q': "skip_ws q = d # q'" by (auto split: list.splits)
  show ?thesis
    using res w q' val [OF w] skip_ws_Cons_length [OF q'] length_skip_ws [of q']
      elems [of "acc @ [w]" "skip_ws q'" v r] by (auto split: if_splits)
qed

lemma pmembers_step_rest:
  assumes val: "\<And>q v r. pv fr n q = Some (v, r) \<Longrightarrow> length r < length q"
    and membs: "\<And>d q v r. pmembers fr n d q = Some (v, r) \<Longrightarrow> length r < length q"
    and res: "pmembers fr (Suc n) d s = Some (v, r)"
  shows "length r < length s"
proof -
  from res obtain k q where k: "parse_str s = Some (k, q)" by (auto split: option.splits)
  from res k obtain q' where q': "skip_ws q = 58 # q'" by (auto split: list.splits if_splits)
  from res k q' obtain w p where w: "pv fr n (skip_ws q') = Some (w, p)" by (auto split: option.splits)
  have len: "length p < length s"
    using parse_str_rest [OF k] skip_ws_Cons_length [OF q'] length_skip_ws [of q'] val [OF w] by simp
  from res k q' w obtain e p' where p': "skip_ws p = e # p'" by (auto split: list.splits)
  show ?thesis
  proof (cases "e = 125")
    case True
    with res k q' w p' len skip_ws_Cons_length [OF p'] show ?thesis by auto
  next
    case False
    with res k q' w p' obtain p2 where
      p2: "skip_ws p' = 34 # p2" "pmembers fr n (dset k w d) p2 = Some (v, r)"
      by (auto split: if_splits list.splits)
    from membs [OF p2(2)] len skip_ws_Cons_length [OF p'] skip_ws_Cons_length [OF p2(1)]
    show ?thesis by simp
  qed
qed

lemma parsers_rest:
  "(\<forall>s v r. pv fr n s = Some (v, r) \<longrightarrow> length r < length s) \<and>
   (\<forall>acc s v r. pelems fr n acc s = Some (v, r) \<longrightarrow> length r < length s) \<and>
   (\<forall>d s v r. pmembers fr n d s = Some (v, r) \<longrightarrow> length r < length s)"
proof (induction n)
  case (Suc n)
  note v = Suc.IH [THEN conjunct1, rule_format]
    and e = Suc.IH [THEN conjunct2, THEN conjunct1, rule_format]
    and d = Suc.IH [THEN conjunct2, THEN conjunct2, rule_format]
  have "length r < length s" if "pv fr (Suc n) s = Some (x, r)" for s x r
    by (rule pv_step_rest [of fr n s x r]) (use e d that in blast)+
  moreover have "length r < length s" if "pelems fr (Suc n) acc s = Some (x, r)" for acc s x r
    by (rule pelems_step_rest [of fr n acc s x r]) (use v e that in blast)+
  moreover have "length r < length s" if "pmembers fr (Suc n) a s = Some (x, r)" for a s x r
    by (rule pmembers_step_rest [of fr n a s x r]) (use v d that in blast)+
  ultimately show ?case by blast
qed simp

lemma pv_rest: "pv fr n s = Some (v, r) \<Longrightarrow> length r < length s"
  using parsers_rest by blast

text \<open>Past \<open>2 * length s\<close> the supply of fuel does not matter.\<close>

lemma pv_step_fuel:
  assumes elems: "\<And>acc q. 2 * length q + 1 < n \<Longrightarrow> 2 * length q + 1 < m \<Longrightarrow> pelems fr n acc q = pelems fr m acc q"
    and membs: "\<And>d q. 2 * length q < n \<Longrightarrow> 2 * length q < m \<Longrightarrow> pmembers fr n d q = pmembers fr m d q"
    and len: "2 * length s < Suc n" "2 * length s < Suc m"
  shows "pv fr (Suc n) s = pv fr (Suc m) s"
proof (cases s)
  case (Cons c q)
  have e: "pelems fr n [] (d # q') = pelems fr m [] (d # q')" if "skip_ws q = d # q'" for d q'
    using skip_ws_Cons_length [OF that] len Cons by (intro elems) auto
  have m: "pmembers fr n [] q' = pmembers fr m [] q'" if "skip_ws q = d # q'" for d q'
    using skip_ws_Cons_length [OF that] len Cons by (intro membs) auto
  show ?thesis
    unfolding Cons pv.simps by (auto simp: e m split: list.splits)
qed simp

lemma pelems_step_fuel:
  assumes val: "\<And>q. 2 * length q < n \<Longrightarrow> 2 * length q < m \<Longrightarrow> pv fr n q = pv fr m q"
    and elems: "\<And>acc q. 2 * length q + 1 < n \<Longrightarrow> 2 * length q + 1 < m \<Longrightarrow> pelems fr n acc q = pelems fr m acc q"
    and len: "2 * length s + 1 < Suc n" "2 * length s + 1 < Suc m"
  shows "pelems fr (Suc n) acc s = pelems fr (Suc m) acc s"
proof -
  have v: "pv fr n s = pv fr m s" using len by (intro val) auto
  have e: "pelems fr n a (skip_ws q') = pelems fr m a (skip_ws q')"
    if "pv fr m s = Some (w, q)" "skip_ws q = d # q'" for w q d q' a
    using pv_rest [OF that(1)] skip_ws_Cons_length [OF that(2)] length_skip_ws [of q'] len
    by (intro elems) auto
  show ?thesis
    unfolding pelems.simps v by (auto simp: e split: option.splits list.splits)
qed

lemma pmembers_step_fuel:
  assumes val: "\<And>q. 2 * length q < n \<Longrightarrow> 2 * length q < m \<Longrightarrow> pv fr n q = pv fr m q"
    and membs: "\<And>d q. 2 * length q < n \<Longrightarrow> 2 * length q < m \<Longrightarrow> pmembers fr n d q = pmembers fr m d q"
    and len: "2 * length s < Suc n" "2 * length s < Suc m"
  shows "pmembers fr (Suc n) d s = pmembers fr (Suc m) d s"
proof -
  have v: "pv fr n (skip_ws q') = pv fr m (skip_ws q')"
    if "parse_str s = Some (k, q)" "skip_ws q = c # q'" for k q c q'
    using parse_str_rest [OF that(1)] skip_ws_Cons_length [OF that(2)] length_skip_ws [of q'] len
    by (intro val) auto
  have e: "pmembers fr n a p2 = pmembers fr m a p2"
    if "parse_str s = Some (k, q)" "skip_ws q = c # q'" "pv fr m (skip_ws q') = Some (w, p)"
      "skip_ws p = g # p'" "skip_ws p' = h # p2" for k q c q' w p g p' h p2 a
    using parse_str_rest [OF that(1)] skip_ws_Cons_length [OF that(2)] length_skip_ws [of q']
      pv_rest [OF that(3)] skip_ws_Cons_length [OF that(4)] skip_ws_Cons_length [OF that(5)] len
    by (intro membs) auto
  show ?thesis
    unfolding pmembers.simps by (auto simp: v e split: option.splits list.splits)
qed

lemma parsers_fuel:
  "(\<forall>m s. 2 * length s < n \<longrightarrow> 2 * length s < m \<longrightarrow> pv fr n s = pv fr m s) \<and>
   (\<forall>m acc s. 2 * length s + 1 < n \<longrightarrow> 2 * length s + 1 < m \<longrightarrow> pelems fr n acc s = pelems fr m acc s) \<and>
   (\<forall>m d s. 2 * length s < n \<longrightarrow> 2 * length s < m \<longrightarrow> pmembers fr n d s = pmembers fr m d s)"
proof (induction n)
  case (Suc n)
  note v = Suc.IH [THEN conjunct1, rule_format]
    and e = Suc.IH [THEN conjunct2, THEN conjunct1, rule_format]
    and d = Suc.IH [THEN conjunct2, THEN conjunct2, rule_format]
  have "pv fr (Suc n) s = pv fr m s" if "2 * length s < Suc n" "2 * length s < m" for m s
    using that by (cases m) (auto simp del: pv.simps intro!: pv_step_fuel e d)
  moreover have "pelems fr (Suc n) acc s = pelems fr m acc s"
    if "2 * length s + 1 < Suc n" "2 * length s + 1 < m" for m acc s
    using that by (cases m) (auto simp del: pelems.simps intro!: pelems_step_fuel v e)
  moreover have "pmembers fr (Suc n) a s = pmembers fr m a s"
    if "2 * length s < Suc n" "2 * length s < m" for m a s
    using that by (cases m) (auto simp del: pmembers.simps intro!: pmembers_step_fuel v d)
  ultimately show ?case by blast
qed simp

lemma pv_fuel: "2 * length s < n \<Longrightarrow> pv fr n s = pv fr (Suc (2 * length s)) s"
  by (rule parsers_fuel [THEN conjunct1, rule_format]) simp_all

section \<open>Round trip\<close>

text \<open>
  Values whose text determines them: Unicode strings without lone surrogates, distinct keys, no
  floats (their conversion is the parameter \<open>fr\<close>) and no \<^verbatim>\<open>bytes\<close>. With \<^verbatim>\<open>sort_keys\<close> the text is that
  of the value with its keys sorted, \<open>json_norm\<close>.
\<close>

fun json_ok :: "pyval \<Rightarrow> bool" where
  "json_ok (PStr s) = list_all valid_cp s"
| "json_ok (PList xs) = list_all json_ok xs"
| "json_ok (PDict d) = (distinct (dkeys d) \<and> list_all (\<lambda>(k, v). list_all valid_cp k \<and> json_ok v) d)"
| "json_ok (PFloat f) = False"
| "json_ok (PBytes b) = False"
| "json_ok _ = True"

function json_norm :: "bool \<Rightarrow> pyval \<Rightarrow> pyval" where
  "json_norm so (PList xs) = PList (map (json_norm so) xs)"
| "json_norm so (PDict d) = PDict (map (\<lambda>(k, v). (k, json_norm so v)) (dict_items so d))"
| "json_norm so PNone = PNone"
| "json_norm so (PBool b) = PBool b"
| "json_norm so (PInt i) = PInt i"
| "json_norm so (PFloat f) = PFloat f"
| "json_norm so (PStr s) = PStr s"
| "json_norm so (PBytes b) = PBytes b"
  by pat_completeness auto
termination
  by (relation "measure (\<lambda>(so, v). size v)") (auto dest: pyval_size_list pyval_size_dict)

lemma json_ok_no_bytes: "json_ok v \<Longrightarrow> \<not> has_bytes v"
  by (induction v rule: has_bytes.induct) (auto simp: list_all_iff list_ex_iff)

lemma hex4_val_hex4: "n < 0x10000 \<Longrightarrow> take_u (hex4 n @ r) = Some (n, r)"
proof -
  assume "n < 0x10000"
  then have "n div 4096 < 16" by auto
  moreover have "4096 * (n div 4096) + 256 * (n div 256 mod 16) + 16 * (n div 16 mod 16) + n mod 16 = n"
  proof -
    have "n div 256 = n div 16 div 16" "n div 4096 = n div 256 div 16"
      by (simp_all add: div_mult2_eq [symmetric])
    moreover have "n div 256 div 16 * 16 + n div 256 mod 16 = n div 256"
      "n div 16 div 16 * 16 + n div 16 mod 16 = n div 16" "n div 16 * 16 + n mod 16 = n" by simp_all
    ultimately show ?thesis by linarith
  qed
  ultimately show ?thesis
    by (simp add: take_u_def hex4_def hex4_val_def)
qed

lemma parse_escape_u:
  "n < 0x10000 \<Longrightarrow> \<not> is_high_surrogate n \<Longrightarrow> parse_escape (117 # hex4 n @ r) = Some (n, r)"
  by (auto simp: parse_escape_def parse_unicode_def hex4_val_hex4)

lemma parse_escape_pair:
  assumes "0x10000 \<le> c" "c < 0x110000"
  shows "parse_escape (117 # hex4 (0xD800 + (c - 0x10000) div 1024 mod 1024)
      @ u_escape (0xDC00 + (c - 0x10000) mod 1024) @ r) = Some (c, r)"
proof -
  let ?hi = "0xD800 + (c - 0x10000) div 1024 mod 1024" and ?lo = "0xDC00 + (c - 0x10000) mod 1024"
  have b: "(c - 0x10000) div 1024 < 1024" using assms by auto
  then have m: "(c - 0x10000) div 1024 mod 1024 = (c - 0x10000) div 1024" by simp
  have hi: "?hi < 0x10000" "is_high_surrogate ?hi" using b by auto
  have "(c - 0x10000) mod 1024 \<le> 1023" by (simp add: less_Suc_eq_le [symmetric])
  then have lo: "?lo < 0x10000" "is_low_surrogate ?lo" by auto
  have "join_surrogates ?hi ?lo = c"
    using assms div_mult_mod_eq [of "c - 0x10000" 1024] unfolding join_surrogates_def m by simp
  then show ?thesis
    using hi lo hex4_val_hex4 [OF hi(1)] hex4_val_hex4 [OF lo(1)]
    by (simp add: parse_escape_def parse_unicode_def u_escape_def starts_with_def)
qed

lemma parse_str_json_esc:
  assumes "valid_cp c"
  shows "parse_str (json_esc c @ r) = cons_fst c (parse_str r)"
proof -
  have c: "c < 0x110000" "\<not> is_surrogate c" using assms by (auto simp: valid_cp_def)
  consider (esc) "c \<in> {34, 92, 10, 13, 9, 12, 8}" | (plain) "32 \<le> c" "c \<le> 126" "c \<noteq> 34" "c \<noteq> 92"
    | (bmp) "c < 32 \<or> 126 < c" "c \<notin> {10, 13, 9, 12, 8}" "c < 0x10000" | (astral) "0x10000 \<le> c"
    by fastforce
  then show ?thesis
  proof cases
    case esc
    then show ?thesis by (auto simp: json_esc_def parse_escape_def simple_escape_def)
  next
    case plain
    then show ?thesis by (simp add: json_esc_def)
  next
    case bmp
    then have "json_esc c = 92 # 117 # hex4 c" by (auto simp: json_esc_def u_escape_def)
    moreover have "parse_escape (117 # hex4 c @ r) = Some (c, r)"
      using bmp c by (intro parse_escape_u) (auto simp: is_surrogate_def)
    ultimately show ?thesis by simp
  next
    case astral
    then have "json_esc c = 92 # 117 # hex4 (0xD800 + (c - 0x10000) div 1024 mod 1024)
        @ u_escape (0xDC00 + (c - 0x10000) mod 1024)"
      by (auto simp: json_esc_def u_escape_def)
    with astral c show ?thesis using parse_escape_pair [of c r] by simp
  qed
qed

lemma parse_str_text:
  "list_all valid_cp s \<Longrightarrow> parse_str (concat (map json_esc s) @ 34 # r) = Some (s, r)"
  by (induction s) (auto simp: parse_str_json_esc simp del: parse_str.simps(2), simp)

definition num_end :: "pystr \<Rightarrow> bool" where
  "num_end r \<longleftrightarrow> (case r of [] \<Rightarrow> True | c # _ \<Rightarrow> \<not> is_digit c \<and> c \<noteq> 46 \<and> c \<noteq> 101 \<and> c \<noteq> 69)"

lemma span_show_nat:
  assumes "num_end r"
  shows "takeWhile is_digit (show_nat n @ r) = show_nat n" "dropWhile is_digit (show_nat n @ r) = r"
proof -
  have d: "\<And>c. c \<in> set (show_nat n) \<Longrightarrow> is_digit c" by (rule show_nat_digits)
  have r: "takeWhile is_digit r = []" "dropWhile is_digit r = r"
    using assms by (auto simp: num_end_def split: list.splits)
  show "takeWhile is_digit (show_nat n @ r) = show_nat n"
    using takeWhile_append2 [of "show_nat n" is_digit r] d r by auto
  show "dropWhile is_digit (show_nat n @ r) = r"
    using dropWhile_append2 [of "show_nat n" is_digit r] d r by auto
qed

lemma parse_int_part_show_nat:
  assumes "num_end r"
  shows "parse_int_part (show_nat n @ r) = Some (show_nat n, r)"
proof (cases "n = 0")
  case True
  then show ?thesis by (simp add: show_nat_0 parse_int_part_def)
next
  case False
  obtain c t where ct: "show_nat n = c # t" by (cases "show_nat n") auto
  have "is_digit c" "c \<noteq> 48" using hd_show_nat [of n] hd_show_nat_zero [of n] False ct by auto
  then have "parse_int_part (c # (t @ r)) = Some (takeWhile is_digit (c # (t @ r)), dropWhile is_digit (c # (t @ r)))"
    by (simp add: parse_int_part_def)
  then show ?thesis using span_show_nat [OF assms, of n] ct by simp
qed

lemma num_end_no_tail: "num_end r \<Longrightarrow> parse_frac r = ([], r) \<and> parse_exp r = ([], r)"
  by (auto simp: num_end_def parse_frac_def parse_exp_def split: list.splits)

lemma parse_number_show_int:
  assumes "num_end r"
  shows "parse_number fr (show_int i @ r) = Some (PInt i, r)"
proof (cases "i < 0")
  case True
  then show ?thesis
    using assms by (simp add: show_int_def parse_number_def parse_int_part_show_nat num_end_no_tail codec_simps)
next
  case False
  obtain c t where ct: "show_nat (nat i) = c # t" by (cases "show_nat (nat i)") auto
  then have "c \<noteq> 45" using hd_show_nat [of "nat i"] by auto
  with False ct show ?thesis
    using assms parse_int_part_show_nat [OF assms, of "nat i"] nat_of_digits_show_nat [of "nat i"]
    by (simp add: show_int_def parse_number_def num_end_no_tail)
qed

text \<open>No printed value starts with white space or with a closing bracket.\<close>

lemma json_text_hd:
  assumes "json_ok v"
  shows "\<exists>c t. json_text so cp v = c # t \<and> \<not> is_json_ws c \<and> c \<noteq> 93 \<and> c < 128"
proof (cases v)
  case (PInt i)
  obtain c t where ct: "show_nat (nat \<bar>i\<bar>) = c # t" by (cases "show_nat (nat \<bar>i\<bar>)") auto
  then have "is_digit c" using hd_show_nat [of "nat \<bar>i\<bar>"] by auto
  with PInt ct show ?thesis by (auto simp: show_int_def is_json_ws_def)
qed (use assms in \<open>auto simp: is_json_ws_def json_str_def lit_Cons\<close>)

lemma skip_ws_json_text: "json_ok v \<Longrightarrow> skip_ws (json_text so cp v @ r) = json_text so cp v @ r"
  using json_text_hd [of v so cp] by (auto simp: skip_ws_def)

lemma skip_ws_sep: "skip_ws (32 # s) = skip_ws s"
  by (simp add: skip_ws_def is_json_ws_def)

lemma skip_ws_id: "\<not> is_json_ws c \<Longrightarrow> skip_ws (c # s) = c # s"
  by (simp add: skip_ws_def)

lemma show_int_form:
  obtains (neg) c t where "show_int i = 45 # c # t" "is_digit c"
    | (pos) c t where "show_int i = c # t" "is_digit c"
proof (cases "i < 0")
  case True
  then show ?thesis
    using neg [of "hd (show_nat (nat (- i)))" "tl (show_nat (nat (- i)))"] hd_show_nat [of "nat (- i)"]
    by (simp add: show_int_def)
next
  case False
  then show ?thesis
    using pos [of "hd (show_nat (nat i))" "tl (show_nat (nat i))"] hd_show_nat [of "nat i"]
    by (simp add: show_int_def)
qed

lemma parse_literal_show_int: "parse_literal (show_int i @ r) = None"
  by (cases rule: show_int_form [of i]) (auto simp: parse_literal_def starts_with_def lit_Cons)

lemma pv_text_int:
  assumes r: "num_end r"
  shows "pv fr (Suc n) (show_int i @ r) = Some (PInt i, r)"
proof -
  note facts = parse_literal_show_int [of i r] parse_number_show_int [OF r, of fr i]
  show ?thesis
    by (cases rule: show_int_form [of i]) (use facts in auto)
qed

text \<open>\<open>pv_prints\<close>: the parser recovers \<open>v\<close> from its text, in front of any delimiter and with
  enough fuel. The next two lemmas carry it through lists and dictionaries.\<close>

definition pv_prints :: "(pystr \<Rightarrow> pystr) \<Rightarrow> bool \<Rightarrow> bool \<Rightarrow> pyval \<Rightarrow> bool" where
  "pv_prints fr so cp v \<longleftrightarrow>
     (\<forall>n r. 2 * length (json_text so cp v @ r) < n \<longrightarrow> num_end r \<longrightarrow>
        pv fr n (json_text so cp v @ r) = Some (json_norm so v, r))"

lemma num_end_item [simp]: "num_end (item_sep cp @ s)" "num_end (93 # s)" "num_end (125 # s)"
  by (auto simp: num_end_def item_sep_def)

lemma skip_ws_item_sep: "skip_ws (item_sep cp @ s) = 44 # (if cp then s else 32 # s)"
  by (simp add: item_sep_def skip_ws_id is_json_ws_def)

lemma pelems_more:
  assumes "pv_prints fr so cp x" "skip_ws q = q" "2 * length (json_text so cp x @ item_sep cp @ q) < m"
  shows "pelems fr (Suc m) acc (json_text so cp x @ item_sep cp @ q) = pelems fr m (acc @ [json_norm so x]) q"
proof -
  have "pv fr m (json_text so cp x @ item_sep cp @ q) = Some (json_norm so x, item_sep cp @ q)"
    using assms(1,3) num_end_item(1) by (simp add: pv_prints_def)
  moreover have "skip_ws (if cp then q else 32 # q) = q"
    using assms(2) by (simp add: skip_ws_sep)
  ultimately show ?thesis by (simp add: skip_ws_item_sep)
qed

lemma pelems_text:
  assumes "\<And>x. x \<in> set xs \<Longrightarrow> pv_prints fr so cp x \<and> json_ok x" and "xs \<noteq> []"
    and "2 * length (join_with (item_sep cp) (map (json_text so cp) xs) @ 93 # r) + 1 < n"
  shows "pelems fr n acc (join_with (item_sep cp) (map (json_text so cp) xs) @ 93 # r)
    = Some (PList (acc @ map (json_norm so) xs), r)"
  using assms
proof (induction xs arbitrary: acc n rule: induct_list012)
  case (2 x)
  then obtain m where n: "n = Suc m" by (cases n) auto
  with 2 have "pv fr m (json_text so cp x @ 93 # r) = Some (json_norm so x, 93 # r)"
    by (auto simp: pv_prints_def)
  then show ?case by (simp add: n skip_ws_id is_json_ws_def)
next
  case (3 x y xs)
  let ?q = "join_with (item_sep cp) (map (json_text so cp) (y # xs)) @ 93 # r"
  from 3 obtain m where n: "n = Suc m" by (cases n) auto
  have eq: "join_with (item_sep cp) (map (json_text so cp) (x # y # xs)) @ 93 # r
      = json_text so cp x @ item_sep cp @ ?q" by simp
  have ws: "skip_ws ?q = ?q"
    using json_text_hd [of y so cp] "3.prems"(1) [of y] by (cases xs) (auto simp: skip_ws_id)
  have len: "2 * length (json_text so cp x @ item_sep cp @ ?q) < m"
    using "3.prems"(3) unfolding eq n by simp
  have "pelems fr m (acc @ [json_norm so x]) ?q
      = Some (PList ((acc @ [json_norm so x]) @ map (json_norm so) (y # xs)), r)"
    using "3.prems"(1,3) n by (intro "3.IH"(2)) (auto simp: item_sep_def)
  then show ?case
    using pelems_more [of fr so cp x ?q m acc] "3.prems"(1) [of x] ws len unfolding eq n by simp
qed simp

lemma dset_fresh: "k \<notin> set (dkeys d) \<Longrightarrow> dset k v d = d @ [(k, v)]"
  by (induction d) auto

abbreviation esc_str :: "pystr \<Rightarrow> pystr" where
  "esc_str k \<equiv> concat (map json_esc k)"

lemma skip_ws_key_sep: "json_ok v \<Longrightarrow> skip_ws (key_sep cp @ json_text so cp v @ q)
    = 58 # (if cp then json_text so cp v @ q else 32 # json_text so cp v @ q)"
  by (simp add: key_sep_def skip_ws_id is_json_ws_def)

text \<open>One member, up to the delimiter after its value.\<close>

lemma pmembers_one:
  assumes "pv_prints fr so cp v" "json_ok v" "list_all valid_cp k" "num_end q"
    and "2 * length (json_text so cp v @ q) < m"
  shows "parse_str (esc_str k @ 34 # key_sep cp @ json_text so cp v @ q)
      = Some (k, key_sep cp @ json_text so cp v @ q)"
    and "skip_ws (key_sep cp @ json_text so cp v @ q) = 58 # (if cp then [] else [32]) @ json_text so cp v @ q"
    and "pv fr m (skip_ws ((if cp then [] else [32]) @ json_text so cp v @ q)) = Some (json_norm so v, q)"
  using assms
  by (auto simp: parse_str_text skip_ws_key_sep skip_ws_sep skip_ws_json_text pv_prints_def)

lemma pmembers_last:
  assumes "pv_prints fr so cp v" "json_ok v" "list_all valid_cp k"
    and "2 * length (json_text so cp v @ 125 # r) < m"
  shows "pmembers fr (Suc m) acc (esc_str k @ 34 # key_sep cp @ json_text so cp v @ 125 # r)
    = Some (PDict (dset k (json_norm so v) acc), r)"
  using pmembers_one [OF assms(1-3) _ assms(4)] by (simp add: skip_ws_id is_json_ws_def)

lemma pmembers_more:
  assumes "pv_prints fr so cp v" "json_ok v" "list_all valid_cp k"
    and "2 * length (json_text so cp v @ item_sep cp @ 34 # q) < m"
  shows "pmembers fr (Suc m) acc (esc_str k @ 34 # key_sep cp @ json_text so cp v @ item_sep cp @ 34 # q)
    = pmembers fr m (dset k (json_norm so v) acc) q"
proof -
  have "skip_ws (if cp then 34 # q else 32 # 34 # q) = 34 # q"
    by (simp add: skip_ws_sep skip_ws_id is_json_ws_def)
  with pmembers_one [OF assms(1-3) _ assms(4)] show ?thesis by (simp add: skip_ws_item_sep)
qed

text \<open>A member without its opening quote, which the caller of \<open>pmembers\<close> has consumed.\<close>

definition member_tail :: "bool \<Rightarrow> bool \<Rightarrow> pystr \<times> pyval \<Rightarrow> pystr" where
  "member_tail so cp kv = esc_str (fst kv) @ 34 # key_sep cp @ json_text so cp (snd kv)"

lemma pmembers_text:
  assumes "\<And>k v. (k, v) \<in> set items \<Longrightarrow> pv_prints fr so cp v \<and> json_ok v \<and> list_all valid_cp k"
    and "items \<noteq> []" "distinct (dkeys (acc @ items))"
    and "2 * length (join_with (item_sep cp @ [34]) (map (member_tail so cp) items) @ 125 # r) < n"
  shows "pmembers fr n acc (join_with (item_sep cp @ [34]) (map (member_tail so cp) items) @ 125 # r)
    = Some (PDict (acc @ map (\<lambda>(k, v). (k, json_norm so v)) items), r)"
  using assms
proof (induction items arbitrary: acc n rule: induct_list012)
  case (2 kv)
  obtain k v where kv: "kv = (k, v)" by (cases kv)
  from 2 obtain m where n: "n = Suc m" by (cases n) auto
  have "2 * length (json_text so cp v @ 125 # r) < m"
    using "2.prems"(4) n kv by (auto simp: member_tail_def key_sep_def split: if_splits)
  with "2.prems"(1) [of k v] "2.prems"(3) kv n show ?case
    by (simp add: member_tail_def pmembers_last dset_fresh del: pmembers.simps)
next
  case (3 kv kv' items)
  obtain k v where kv: "kv = (k, v)" by (cases kv)
  let ?q = "join_with (item_sep cp @ [34]) (map (member_tail so cp) (kv' # items)) @ 125 # r"
  from 3 obtain m where n: "n = Suc m" by (cases n) auto
  have eq: "join_with (item_sep cp @ [34]) (map (member_tail so cp) (kv # kv' # items)) @ 125 # r
      = esc_str k @ 34 # key_sep cp @ json_text so cp v @ item_sep cp @ 34 # ?q"
    by (simp add: kv member_tail_def)
  have len: "2 * length (json_text so cp v @ item_sep cp @ 34 # ?q) < m"
    using "3.prems"(4) unfolding eq n by (auto simp: key_sep_def split: if_splits)
  have "pmembers fr m (acc @ [(k, json_norm so v)]) ?q
      = Some (PDict ((acc @ [(k, json_norm so v)]) @ map (\<lambda>(k, v). (k, json_norm so v)) (kv' # items)), r)"
    using "3.prems" len kv by (intro "3.IH"(2)) auto
  moreover have "dset k (json_norm so v) acc = acc @ [(k, json_norm so v)]"
    using "3.prems"(3) kv by (intro dset_fresh) auto
  ultimately show ?case
    using pmembers_more [of fr so cp v k ?q m acc] "3.prems"(1) [of k v] len
    unfolding eq n by (simp add: kv del: pmembers.simps)
qed simp

lemma join_members:
  "items \<noteq> [] \<Longrightarrow> join_with (item_sep cp) (map (\<lambda>(k, v). json_str k @ key_sep cp @ json_text so cp v) items)
     = 34 # join_with (item_sep cp @ [34]) (map (member_tail so cp) items)"
  by (induction items rule: induct_list012) (auto simp: json_str_def member_tail_def)

lemma dkeys_dict_items: "distinct (dkeys d) \<Longrightarrow> distinct (dkeys (dict_items so d))"
  by (simp add: dict_items_def distinct_map)

text \<open>The round trip for every value, by induction along the printer.\<close>

lemma pv_prints_list:
  assumes "json_ok (PList xs)" "\<And>x. x \<in> set xs \<Longrightarrow> json_ok x \<Longrightarrow> pv_prints fr so cp x"
  shows "pv_prints fr so cp (PList xs)"
  unfolding pv_prints_def
proof (intro allI impI)
  fix n r
  assume n: "2 * length (json_text so cp (PList xs) @ r) < n"
  then obtain m where m: "n = Suc m" by (cases n) auto
  let ?body = "join_with (item_sep cp) (map (json_text so cp) xs) @ 93 # r"
  show "pv fr n (json_text so cp (PList xs) @ r) = Some (json_norm so (PList xs), r)"
  proof (cases xs)
    case Nil
    then show ?thesis by (simp add: m skip_ws_id is_json_ws_def)
  next
    case (Cons x ys)
    then obtain c t where ct: "?body = c # t" "\<not> is_json_ws c" "c \<noteq> 93"
      using json_text_hd [of x so cp] assms(1) by (cases ys) auto
    have "pelems fr m [] ?body = Some (PList ([] @ map (json_norm so) xs), r)"
      using assms n m Cons by (intro pelems_text) (auto simp: list_all_iff)
    with ct show ?thesis by (simp add: m skip_ws_id)
  qed
qed

lemma pv_prints_dict:
  assumes "json_ok (PDict d)" "\<And>k v. (k, v) \<in> set d \<Longrightarrow> json_ok v \<Longrightarrow> pv_prints fr so cp v"
  shows "pv_prints fr so cp (PDict d)"
  unfolding pv_prints_def
proof (intro allI impI)
  fix n r
  assume n: "2 * length (json_text so cp (PDict d) @ r) < n"
  then obtain m where m: "n = Suc m" by (cases n) auto
  let ?items = "dict_items so d"
  show "pv fr n (json_text so cp (PDict d) @ r) = Some (json_norm so (PDict d), r)"
  proof (cases "d = []")
    case True
    then show ?thesis by (simp add: m skip_ws_id is_json_ws_def dict_items_def)
  next
    case False
    then have j: "json_text so cp (PDict d) @ r
        = 123 # 34 # join_with (item_sep cp @ [34]) (map (member_tail so cp) ?items) @ 125 # r"
      by (simp add: join_members)
    have "pmembers fr m [] (join_with (item_sep cp @ [34]) (map (member_tail so cp) ?items) @ 125 # r)
        = Some (PDict ([] @ map (\<lambda>(k, v). (k, json_norm so v)) ?items), r)"
      using assms n m False unfolding j
      by (intro pmembers_text) (auto simp: list_all_iff dkeys_dict_items)
    then show ?thesis unfolding j by (simp add: m skip_ws_id is_json_ws_def)
  qed
qed

lemma pv_prints_atom:
  assumes "\<And>m r. num_end r \<Longrightarrow> pv fr (Suc m) (json_text so cp v @ r) = Some (json_norm so v, r)"
  shows "pv_prints fr so cp v"
  unfolding pv_prints_def
proof (intro allI impI)
  fix n r
  assume "2 * length (json_text so cp v @ r) < n" "num_end r"
  then show "pv fr n (json_text so cp v @ r) = Some (json_norm so v, r)"
    using assms by (cases n) auto
qed

lemma pv_prints_all: "json_ok v \<Longrightarrow> pv_prints fr so cp v"
proof (induction so cp v rule: json_text.induct)
  case (7 so cp xs)
  then show ?case by (intro pv_prints_list) auto
next
  case (8 so cp d)
  then show ?case by (intro pv_prints_dict) auto
next
  case (3 so cp i)
  show ?case by (intro pv_prints_atom) (simp add: pv_text_int del: pv.simps)
next
  case (5 so cp s)
  then show ?case by (intro pv_prints_atom) (simp add: json_str_def parse_str_text)
qed (auto intro!: pv_prints_atom simp: parse_literal_def starts_with_def lit_Cons)

theorem json_loads_text:
  assumes "json_ok v"
  shows "json_loads fr (json_text so cp v) = Some (json_norm so v)"
proof -
  have "num_end []" by (simp add: num_end_def)
  then have "pv fr (Suc (2 * length (json_text so cp v))) (json_text so cp v) = Some (json_norm so v, [])"
    using pv_prints_all [OF assms, of fr so cp] by (fastforce simp: pv_prints_def simp del: pv.simps)
  moreover have "skip_ws (json_text so cp v) = json_text so cp v"
    using skip_ws_json_text [OF assms, of so cp "[]"] by simp
  moreover have "\<not> starts_with (json_text so cp v) [0xFEFF]"
    using json_text_hd [OF assms, of so cp] by (auto simp: starts_with_def)
  ultimately show ?thesis
    by (simp add: json_loads_def del: pv.simps) (simp add: skip_ws_def)
qed

text \<open>The text is ASCII, so encoding it to UTF-8 never fails.\<close>

lemma hexdigit_less: "n < 16 \<Longrightarrow> hexdigit n < 128"
  by (simp add: hexdigit_def)

lemma json_esc_ascii: "\<forall>c \<in> set (json_esc x). c < 128"
proof -
  have "\<forall>c \<in> set (hex4 n). c < 128" for n
    by (simp add: hex4_def hexdigit_less)
  then show ?thesis by (simp add: json_esc_def u_escape_def ball_Un)
qed

lemma json_str_ascii: "\<forall>c \<in> set (json_str s). c < 128"
  using json_esc_ascii by (auto simp: json_str_def)

lemma join_with_set: "c \<in> set (join_with sep ps) \<Longrightarrow> c \<in> set sep \<or> (\<exists>p \<in> set ps. c \<in> set p)"
  by (induction ps rule: induct_list012) auto

lemma show_int_ascii: "c \<in> set (show_int i) \<Longrightarrow> c < 128"
  using show_nat_digits by (fastforce simp: show_int_def split: if_splits)

lemma seps_ascii: "c \<in> set (item_sep cp) \<Longrightarrow> c < 128" "c \<in> set (key_sep cp) \<Longrightarrow> c < 128"
  by (auto simp: item_sep_def key_sep_def split: if_splits)

lemma json_text_ascii: "json_ok v \<Longrightarrow> \<forall>c \<in> set (json_text so cp v). c < 128"
proof (induction so cp v rule: json_text.induct)
  case (7 so cp xs)
  then have "\<And>x c. x \<in> set xs \<Longrightarrow> c \<in> set (json_text so cp x) \<Longrightarrow> c < 128"
    by (auto simp: list_all_iff)
  then show ?case by (auto dest!: join_with_set seps_ascii)
next
  case (8 so cp d)
  then have "\<And>k v c. (k, v) \<in> set d \<Longrightarrow> c \<in> set (json_text so cp v) \<Longrightarrow> c < 128"
    by (force simp: list_all_iff)
  then show ?case using json_str_ascii by (auto dest!: join_with_set seps_ascii)
qed (auto simp: show_int_ascii json_str_ascii lit_Cons)

lemma str_encode_json_text: "json_ok v \<Longrightarrow> str_encode (json_text so cp v) = Inr (map of_nat (json_text so cp v))"
  using json_text_ascii by (intro str_encode_ascii) auto

lemma map_of_nat_byte_inject:
  assumes "\<forall>c \<in> set s. c < 256" "\<forall>c \<in> set t. c < 256"
  shows "map of_nat s = (map of_nat t :: bytes) \<longleftrightarrow> s = t"
proof
  assume h: "map of_nat s = (map of_nat t :: bytes)"
  have "map unat (map of_nat s :: bytes) = s" "map unat (map of_nat t :: bytes) = t"
    by (rule map_unat_of_nat_byte, use assms in blast)+
  with h show "s = t" by metis
qed simp

end
