(* ===== verification/Output_Files.thy ===== *)
theory Output_Files
  imports Sha2 Py_Json "HOL-Library.Multiset"
begin

text \<open>
  \<^verbatim>\<open>implementations/output_files.py\<close>: the name rule, the content types, the walk over the outputs
  directory, the no-follow open, the collection loop, and the manifest whose hash is attested.

  A directory tree is \<open>fnode\<close>; the entry order of a directory is the order in which \<^verbatim>\<open>os.scandir\<close>
  yields it. The collection reads the file system several times while other processes may
  change it, so it takes the tree as a function of time: \<open>fs 0\<close> is what the checks and the walk
  see, \<open>fs (Suc i)\<close> what the \<open>i\<close>-th open sees. Two limits of the model: the walk itself sees one
  snapshot, and opening a FIFO that replaced a checked file returns instead of blocking.
\<close>

section \<open>The name rule\<close>

text \<open>The regular expression of the source, with the meaning of \<^verbatim>\<open>fullmatch\<close>.\<close>

datatype rx = RCls "(nat \<times> nat) list" | RSeq rx rx | RRep rx nat nat

fun rep_match :: "(pystr \<Rightarrow> bool) \<Rightarrow> nat \<Rightarrow> nat \<Rightarrow> pystr \<Rightarrow> bool" where
  "rep_match P m 0 s = (m = 0 \<and> s = [])"
| "rep_match P m (Suc n) s =
     ((m = 0 \<and> s = []) \<or>
      list_ex (\<lambda>i. P (take i s) \<and> rep_match P (m - 1) n (drop i s)) [0..<Suc (length s)])"

primrec rx_fullmatch :: "rx \<Rightarrow> pystr \<Rightarrow> bool" where
  "rx_fullmatch (RCls cs) s = (case s of [c] \<Rightarrow> list_ex (\<lambda>(a, b). a \<le> c \<and> c \<le> b) cs | _ \<Rightarrow> False)"
| "rx_fullmatch (RSeq a b) s =
     list_ex (\<lambda>i. rx_fullmatch a (take i s) \<and> rx_fullmatch b (drop i s)) [0..<Suc (length s)]"
| "rx_fullmatch (RRep r m n) s = rep_match (rx_fullmatch r) m n s"

definition SEGMENT_RE :: rx where
  \<comment> \<open>\<^verbatim>\<open>[A-Za-z0-9][A-Za-z0-9._-]{0,99}\<close>\<close>
  "SEGMENT_RE =
     RSeq (RCls [(65, 90), (97, 122), (48, 57)])
       (RRep (RCls [(65, 90), (97, 122), (48, 57), (46, 46), (95, 95), (45, 45)]) 0 99)"

definition OUTPUT_FILE_NAME_RE :: rx where
  \<comment> \<open>a segment, then \<^verbatim>\<open>(/segment){0,4}\<close>\<close>
  "OUTPUT_FILE_NAME_RE = RSeq SEGMENT_RE (RRep (RSeq (RCls [(47, 47)]) SEGMENT_RE) 0 4)"

definition MAX_OUTPUT_FILE_NAME_LEN :: nat where
  "MAX_OUTPUT_FILE_NAME_LEN = 255"

definition is_valid_output_file_name :: "pystr \<Rightarrow> bool" where
  "is_valid_output_file_name name \<longleftrightarrow>
     length name \<le> MAX_OUTPUT_FILE_NAME_LEN \<and> rx_fullmatch OUTPUT_FILE_NAME_RE name"

section \<open>Content types\<close>

definition OUTPUT_TYPES :: "pystr dict" where
  "OUTPUT_TYPES =
     [(lit ''csv'', lit ''text/csv''), (lit ''png'', lit ''image/png''), (lit ''jpg'', lit ''image/jpeg''),
      (lit ''jpeg'', lit ''image/jpeg''), (lit ''json'', lit ''application/json''),
      (lit ''txt'', lit ''text/plain''), (lit ''pdf'', lit ''application/pdf'')]"

definition DEFAULT_OUTPUT_TYPE :: pystr where
  "DEFAULT_OUTPUT_TYPE = lit ''application/octet-stream''"

definition output_file_type :: "pystr \<Rightarrow> pystr" where
  "output_file_type name =
     (let base = last (split_on 47 name);
          ext = (if 46 \<in> set base then lower_ascii (last (split_on 46 base)) else [])
      in case dget OUTPUT_TYPES ext of Some t \<Rightarrow> t | None \<Rightarrow> DEFAULT_OUTPUT_TYPE)"

section \<open>Walking the outputs directory\<close>

datatype fnode = FFile bytes | FDir "(pystr \<times> fnode) list" | FLink pystr | FSpecial

text \<open>The violations of the output rules; \<open>of_message\<close> renders them with the given \<^verbatim>\<open>repr\<close>.\<close>

datatype of_error =
    SymlinkNotAllowed pystr | NotRegular pystr | InvalidName pystr | TooManyFiles int
  | TotalTooLarge nat int | TotalTooLargeRead int | NotADirectory | CannotRead pystr pystr

fun of_message :: "(pystr \<Rightarrow> pystr) \<Rightarrow> of_error \<Rightarrow> pystr" where
  "of_message repr (SymlinkNotAllowed n) = lit ''symlink not allowed: '' @ repr n"
| "of_message repr (NotRegular n) = lit ''not a regular file: '' @ repr n"
| "of_message repr (InvalidName n) = lit ''invalid file name: '' @ repr n"
| "of_message repr (TooManyFiles m) = lit ''too many files (> '' @ show_int m @ lit '')''"
| "of_message repr (TotalTooLarge t m) =
     lit ''total size too large ('' @ show_nat t @ lit '' > '' @ show_int m @ lit '' bytes)''"
| "of_message repr (TotalTooLargeRead m) = lit ''total size too large (> '' @ show_int m @ lit '' bytes)''"
| "of_message repr NotADirectory = lit ''outputs is not a directory''"
| "of_message repr (CannotRead n e) = lit ''cannot read '' @ repr n @ lit '': '' @ e"

type_synonym dir_entries = "(pystr \<times> fnode) list"
type_synonym walk_stack = "(pystr \<times> dir_entries) list"

definition qualify :: "pystr \<Rightarrow> pystr \<Rightarrow> pystr" where
  "qualify rel_dir name = (if rel_dir = [] then name else rel_dir @ [47] @ name)"

text \<open>The inner \<^verbatim>\<open>for entry in it\<close>; the top of the stack is the head of the list.\<close>

fun walk_entries :: "int \<Rightarrow> pystr \<Rightarrow> dir_entries \<Rightarrow> walk_stack \<Rightarrow> (pystr \<times> nat) list
    \<Rightarrow> of_error + (walk_stack \<times> (pystr \<times> nat) list)" where
  "walk_entries max_files rel_dir [] stack found = Inr (stack, found)"
| "walk_entries max_files rel_dir ((entry, node) # es) stack found =
     (let name = qualify rel_dir entry
      in case node of
           FLink _ \<Rightarrow> Inl (SymlinkNotAllowed name)
         | FDir sub \<Rightarrow> walk_entries max_files rel_dir es ((name, sub) # stack) found
         | FSpecial \<Rightarrow> Inl (NotRegular name)
         | FFile content \<Rightarrow>
             (if \<not> is_valid_output_file_name name then Inl (InvalidName name)
              else if int (length (found @ [(name, length content)])) > max_files
              then Inl (TooManyFiles max_files)
              else walk_entries max_files rel_dir es stack (found @ [(name, length content)])))"

fun node_size :: "fnode \<Rightarrow> nat" where
  "node_size (FDir es) = Suc (sum_list (map (\<lambda>(n, x). node_size x) es))"
| "node_size _ = 1"

definition entries_size :: "dir_entries \<Rightarrow> nat" where
  "entries_size es = sum_list (map (\<lambda>(n, x). node_size x) es)"

definition stack_size :: "walk_stack \<Rightarrow> nat" where
  "stack_size st = sum_list (map (\<lambda>(r, es). Suc (entries_size es)) st)"

lemma entries_size_simps [simp]:
  "entries_size [] = 0" "entries_size ((n, x) # es) = node_size x + entries_size es"
  by (simp_all add: entries_size_def)

lemma stack_size_simps [simp]:
  "stack_size [] = 0" "stack_size ((r, es) # st) = Suc (entries_size es + stack_size st)"
  by (simp_all add: stack_size_def)

lemma node_size_FDir [simp]: "node_size (FDir es) = Suc (entries_size es)"
  by (simp add: entries_size_def)

declare node_size.simps(1) [simp del]

lemma walk_entries_size:
  "walk_entries m rel es st found = Inr (st', found') \<Longrightarrow> stack_size st' \<le> stack_size st + entries_size es"
proof (induction es arbitrary: st found)
  case (Cons e es)
  obtain entry node where e: "e = (entry, node)" by (cases e)
  from Cons.prems show ?case
    by (cases node) (auto simp: e Let_def dest!: Cons.IH split: if_splits)
qed simp

function walk_loop :: "int \<Rightarrow> walk_stack \<Rightarrow> (pystr \<times> nat) list \<Rightarrow> of_error + (pystr \<times> nat) list" where
  "walk_loop max_files [] found = Inr found"
| "walk_loop max_files ((rel_dir, es) # stack) found =
     (case walk_entries max_files rel_dir es stack found of
        Inl e \<Rightarrow> Inl e
      | Inr (stack', found') \<Rightarrow> walk_loop max_files stack' found')"
  by pat_completeness auto
termination
  by (relation "measure (\<lambda>(m, st, f). stack_size st)")
    (auto dest!: walk_entries_size simp: stack_size_def)

definition walk :: "dir_entries \<Rightarrow> int \<Rightarrow> of_error + (pystr \<times> nat) list" where
  "walk root max_files = walk_loop max_files [([], root)] []"

section \<open>Opening without following links\<close>

text \<open>An \<^verbatim>\<open>OSError\<close> (its \<^verbatim>\<open>strerror\<close>), or the file is there and not regular.\<close>

datatype open_error = OSErrno pystr | OpenedNotRegular

definition ENOENT :: pystr where "ENOENT = lit ''No such file or directory''"
definition ENOTDIR :: pystr where "ENOTDIR = lit ''Not a directory''"
definition ELOOP :: pystr where "ELOOP = lit ''Too many levels of symbolic links''"

text \<open>\<^verbatim>\<open>os.open\<close> with \<^verbatim>\<open>O_DIRECTORY | O_NOFOLLOW\<close>.\<close>

definition open_dir :: "fnode option \<Rightarrow> open_error + dir_entries" where
  "open_dir n = (case n of None \<Rightarrow> Inl (OSErrno ENOENT) | Some (FDir es) \<Rightarrow> Inr es | Some _ \<Rightarrow> Inl (OSErrno ENOTDIR))"

text \<open>\<^verbatim>\<open>os.open\<close> with \<^verbatim>\<open>O_NOFOLLOW\<close>, then the \<^verbatim>\<open>fstat\<close> check.\<close>

definition open_last :: "fnode option \<Rightarrow> open_error + bytes" where
  "open_last n = (case n of
       None \<Rightarrow> Inl (OSErrno ENOENT)
     | Some (FLink _) \<Rightarrow> Inl (OSErrno ELOOP)
     | Some (FFile content) \<Rightarrow> Inr content
     | Some _ \<Rightarrow> Inl OpenedNotRegular)"

fun open_segments :: "dir_entries \<Rightarrow> pystr list \<Rightarrow> open_error + bytes" where
  "open_segments es [] = Inl (OSErrno ENOENT)"
| "open_segments es [seg] = open_last (dget es seg)"
| "open_segments es (seg # segs) =
     (case open_dir (dget es seg) of Inl e \<Rightarrow> Inl e | Inr es' \<Rightarrow> open_segments es' segs)"

definition open_nofollow :: "fnode option \<Rightarrow> pystr \<Rightarrow> open_error + bytes" where
  "open_nofollow output_dir name =
     (case open_dir output_dir of Inl e \<Rightarrow> Inl e | Inr es \<Rightarrow> open_segments es (split_on 47 name))"

section \<open>Collecting\<close>

record out_file =
  of_name :: pystr
  of_size :: nat
  of_sha256 :: pystr
  of_type :: pystr
  of_content :: bytes

definition mk_out_file :: "pystr \<Rightarrow> bytes \<Rightarrow> out_file" where
  "mk_out_file name content =
     \<lparr>of_name = name, of_size = length content, of_sha256 = sha256_hex content,
      of_type = output_file_type name, of_content = content\<rparr>"

fun read_files :: "(nat \<Rightarrow> fnode option) \<Rightarrow> int \<Rightarrow> (pystr \<times> nat) list \<Rightarrow> int \<Rightarrow> out_file list
    \<Rightarrow> of_error + out_file list" where
  "read_files fs max_total [] tot files = Inr files"
| "read_files fs max_total ((name, _) # entries) tot files =
     (case open_nofollow (fs 0) name of
        Inl (OSErrno strerror) \<Rightarrow> Inl (CannotRead name strerror)
      | Inl OpenedNotRegular \<Rightarrow> Inl (NotRegular name)
      | Inr whole \<Rightarrow>
          (let content = take (nat (max_total - tot + 1)) whole;
               tot' = tot + int (length content)
           in if tot' > max_total then Inl (TotalTooLargeRead max_total)
              else read_files (\<lambda>i. fs (Suc i)) max_total entries tot' (files @ [mk_out_file name content])))"

definition collect_output_files ::
    "(nat \<Rightarrow> fnode option) \<Rightarrow> int \<Rightarrow> int \<Rightarrow> of_error + out_file list" where
  "collect_output_files fs max_files max_total_bytes =
     (case fs 0 of
        None \<Rightarrow> Inr []
      | Some (FDir root) \<Rightarrow>
          (case walk root max_files of
             Inl e \<Rightarrow> Inl e
           | Inr entries \<Rightarrow>
               (let tot = sum_list (map snd entries)
                in if int tot > max_total_bytes then Inl (TotalTooLarge tot max_total_bytes)
                   else read_files (\<lambda>i. fs (Suc i)) max_total_bytes (sort entries) 0 []))
      | Some _ \<Rightarrow> Inl NotADirectory)"

section \<open>The manifest\<close>

record manifest_entry =
  m_name :: pystr
  m_size :: nat
  m_sha256 :: pystr
  m_type :: pystr

definition manifest_of :: "out_file \<Rightarrow> manifest_entry" where
  "manifest_of f = \<lparr>m_name = of_name f, m_size = of_size f, m_sha256 = of_sha256 f, m_type = of_type f\<rparr>"

definition build_files_manifest :: "out_file list \<Rightarrow> manifest_entry list" where
  "build_files_manifest files = sort_key m_name (map manifest_of files)"

definition manifest_entry_val :: "manifest_entry \<Rightarrow> pyval" where
  "manifest_entry_val m =
     PDict [(lit ''name'', PStr (m_name m)), (lit ''size'', PInt (int (m_size m))),
            (lit ''sha256'', PStr (m_sha256 m)), (lit ''type'', PStr (m_type m))]"

definition canonical_manifest_bytes :: "manifest_entry list \<Rightarrow> bytes res" where
  "canonical_manifest_bytes manifest =
     rbind (json_dumps True True (PList (map manifest_entry_val manifest))) str_encode"

definition files_manifest_sha256 :: "manifest_entry list \<Rightarrow> pystr res" where
  "files_manifest_sha256 manifest =
     rbind (canonical_manifest_bytes manifest) (\<lambda>bs. Inr (sha256_hex bs))"

section \<open>What the name rule means\<close>

lemma split_points_iff:
  "list_ex (\<lambda>i. P (take i s) \<and> Q (drop i s)) [0..<Suc (length s)] \<longleftrightarrow> (\<exists>a b. s = a @ b \<and> P a \<and> Q b)"
proof
  assume "\<exists>a b. s = a @ b \<and> P a \<and> Q b"
  then obtain a b where s: "s = a @ b" "P a" "Q b" by blast
  then have "P (take (length a) s) \<and> Q (drop (length a) s)" "length a < Suc (length s)" by auto
  then show "list_ex (\<lambda>i. P (take i s) \<and> Q (drop i s)) [0..<Suc (length s)]"
    unfolding list_ex_iff by (metis atLeastLessThan_iff le0 set_upt)
next
  assume "list_ex (\<lambda>i. P (take i s) \<and> Q (drop i s)) [0..<Suc (length s)]"
  then obtain i where "P (take i s)" "Q (drop i s)" unfolding list_ex_iff by blast
  then show "\<exists>a b. s = a @ b \<and> P a \<and> Q b" by (metis append_take_drop_id)
qed

lemma rep_match_iff:
  "rep_match P 0 n s \<longleftrightarrow> (\<exists>ps. length ps \<le> n \<and> list_all P ps \<and> s = concat ps)"
proof (induction n arbitrary: s)
  case (Suc n)
  have "rep_match P 0 (Suc n) s \<longleftrightarrow> s = [] \<or> (\<exists>a b. s = a @ b \<and> P a \<and> rep_match P 0 n b)"
    by (simp only: rep_match.simps split_points_iff) simp
  also have "\<dots> \<longleftrightarrow> (\<exists>ps. length ps \<le> Suc n \<and> list_all P ps \<and> s = concat ps)"
  proof
    assume "s = [] \<or> (\<exists>a b. s = a @ b \<and> P a \<and> rep_match P 0 n b)"
    then show "\<exists>ps. length ps \<le> Suc n \<and> list_all P ps \<and> s = concat ps"
    proof
      assume "\<exists>a b. s = a @ b \<and> P a \<and> rep_match P 0 n b"
      then obtain a ps where "s = a @ concat ps" "P a" "length ps \<le> n" "list_all P ps"
        unfolding Suc.IH by blast
      then show ?thesis by (intro exI [of _ "a # ps"]) auto
    qed (auto intro: exI [of _ "[]"])
  next
    assume "\<exists>ps. length ps \<le> Suc n \<and> list_all P ps \<and> s = concat ps"
    then obtain ps where ps: "length ps \<le> Suc n" "list_all P ps" "s = concat ps" by blast
    then show "s = [] \<or> (\<exists>a b. s = a @ b \<and> P a \<and> rep_match P 0 n b)"
      unfolding Suc.IH by (cases ps) auto
  qed
  finally show ?case .
qed auto

lemma rx_fullmatch_seq: "rx_fullmatch (RSeq r t) s \<longleftrightarrow> (\<exists>a b. s = a @ b \<and> rx_fullmatch r a \<and> rx_fullmatch t b)"
  by (simp only: rx_fullmatch.simps split_points_iff)

lemma rx_fullmatch_cls: "rx_fullmatch (RCls cs) s \<longleftrightarrow> (\<exists>c. s = [c] \<and> list_ex (\<lambda>(a, b). a \<le> c \<and> c \<le> b) cs)"
  by (auto split: list.splits)

lemma rx_fullmatch_cls_seq:
  "rx_fullmatch (RSeq (RCls cs) r) s \<longleftrightarrow>
     (\<exists>c t. s = c # t \<and> list_ex (\<lambda>(a, b). a \<le> c \<and> c \<le> b) cs \<and> rx_fullmatch r t)"
  unfolding rx_fullmatch_seq rx_fullmatch_cls by (metis append_Cons append_Nil)

lemma rep_cls_iff:
  "rep_match (rx_fullmatch (RCls cs)) 0 n s \<longleftrightarrow>
     length s \<le> n \<and> list_all (\<lambda>c. list_ex (\<lambda>(a, b). a \<le> c \<and> c \<le> b) cs) s"
  (is "_ \<longleftrightarrow> length s \<le> n \<and> list_all ?C s")
proof -
  have "(\<exists>ps. length ps \<le> n \<and> list_all (rx_fullmatch (RCls cs)) ps \<and> s = concat ps)
      \<longleftrightarrow> length s \<le> n \<and> list_all ?C s"
  proof
    assume "\<exists>ps. length ps \<le> n \<and> list_all (rx_fullmatch (RCls cs)) ps \<and> s = concat ps"
    then obtain ps where ps: "length ps \<le> n" "list_all (rx_fullmatch (RCls cs)) ps" "s = concat ps" by blast
    from ps(2) have "length (concat ps) = length ps \<and> list_all ?C (concat ps)"
      by (induction ps) (auto simp: rx_fullmatch_cls simp del: rx_fullmatch.simps)
    with ps show "length s \<le> n \<and> list_all ?C s" by auto
  next
    assume "length s \<le> n \<and> list_all ?C s"
    then show "\<exists>ps. length ps \<le> n \<and> list_all (rx_fullmatch (RCls cs)) ps \<and> s = concat ps"
      by (intro exI [of _ "map (\<lambda>c. [c]) s"]) (auto simp: list_all_iff list_ex_iff)
  qed
  then show ?thesis by (simp only: rep_match_iff)
qed

definition is_alnum :: "nat \<Rightarrow> bool" where
  "is_alnum c \<longleftrightarrow> 65 \<le> c \<and> c \<le> 90 \<or> 97 \<le> c \<and> c \<le> 122 \<or> 48 \<le> c \<and> c \<le> 57"

definition segment_ok :: "pystr \<Rightarrow> bool" where
  "segment_ok s \<longleftrightarrow> s \<noteq> [] \<and> is_alnum (hd s) \<and> length s \<le> 100
     \<and> list_all (\<lambda>c. is_alnum c \<or> c = 46 \<or> c = 95 \<or> c = 45) (tl s)"

lemma segment_classes:
  "list_ex (\<lambda>(a, b). a \<le> c \<and> c \<le> b) [(65, 90), (97, 122), (48, 57)] = is_alnum c"
  "list_ex (\<lambda>(a, b). a \<le> c \<and> c \<le> b) [(65, 90), (97, 122), (48, 57), (46, 46), (95, 95), (45, 45)]
     = (is_alnum c \<or> c = 46 \<or> c = 95 \<or> c = 45)"
  by (simp_all add: is_alnum_def) linarith

lemma segment_re_iff: "rx_fullmatch SEGMENT_RE s \<longleftrightarrow> segment_ok s"
  unfolding SEGMENT_RE_def rx_fullmatch_cls_seq rx_fullmatch.simps(3) rep_cls_iff segment_classes
  by (cases s) (auto simp: segment_ok_def)

lemma segment_ok_no_slash: "segment_ok s \<Longrightarrow> 47 \<notin> set s"
  by (cases s) (auto simp: segment_ok_def is_alnum_def list_all_iff)

lemma join_with_concat: "join_with [c] (p # ps) = p @ concat (map (Cons c) ps)"
  by (induction ps arbitrary: p) auto

lemma name_re_join:
  "rx_fullmatch OUTPUT_FILE_NAME_RE s \<longleftrightarrow>
      (\<exists>g gs. s = join_with [47] (g # gs) \<and> segment_ok g \<and> length gs \<le> 4 \<and> list_all segment_ok gs)"
proof -
  let ?tail = "RSeq (RCls [(47, 47)]) SEGMENT_RE"
  have tail: "rx_fullmatch ?tail t \<longleftrightarrow> (\<exists>g. t = 47 # g \<and> segment_ok g)" for t
    unfolding rx_fullmatch_cls_seq segment_re_iff by auto
  have tails: "list_all (rx_fullmatch ?tail) ps \<longleftrightarrow> (\<exists>gs. ps = map (Cons 47) gs \<and> list_all segment_ok gs)" for ps
  proof (induction ps)
    case (Cons p ps)
    then show ?case
      by (auto simp: tail Cons_eq_map_conv simp del: rx_fullmatch.simps; fastforce)
  qed simp
  have "rx_fullmatch OUTPUT_FILE_NAME_RE s \<longleftrightarrow> (\<exists>a b. s = a @ b \<and> segment_ok a \<and>
      (\<exists>ps. length ps \<le> 4 \<and> (\<exists>gs. ps = map (Cons 47) gs \<and> list_all segment_ok gs) \<and> b = concat ps))"
    by (simp only: OUTPUT_FILE_NAME_RE_def rx_fullmatch_seq [of SEGMENT_RE] segment_re_iff
        rx_fullmatch.simps(3) rep_match_iff tails)
  also have "\<dots> \<longleftrightarrow> (\<exists>a gs. s = a @ concat (map (Cons 47) gs) \<and> segment_ok a \<and> length gs \<le> 4
      \<and> list_all segment_ok gs)"
  proof (intro iffI; elim exE conjE)
    fix a gs
    assume "s = a @ concat (map (Cons 47) gs)" "segment_ok a" "length gs \<le> 4" "list_all segment_ok gs"
    then show "\<exists>a b. s = a @ b \<and> segment_ok a \<and>
        (\<exists>ps. length ps \<le> 4 \<and> (\<exists>gs. ps = map (Cons 47) gs \<and> list_all segment_ok gs) \<and> b = concat ps)"
      by (intro exI [of _ a] exI [of _ "concat (map (Cons 47) gs)"] exI [of _ "map (Cons 47) gs"] conjI
          exI [of _ gs]) auto
  qed auto
  finally show ?thesis by (simp only: join_with_concat)
qed

lemma name_re_iff:
  "rx_fullmatch OUTPUT_FILE_NAME_RE s \<longleftrightarrow> length (split_on 47 s) \<le> 5 \<and> list_all segment_ok (split_on 47 s)"
  unfolding name_re_join
proof
  assume "\<exists>g gs. s = join_with [47] (g # gs) \<and> segment_ok g \<and> length gs \<le> 4 \<and> list_all segment_ok gs"
  then obtain g gs where s: "s = join_with [47] (g # gs)" "list_all segment_ok (g # gs)" "length gs \<le> 4" by auto
  then have "split_on 47 s = g # gs"
    by (metis list_all_iff list.distinct(1) segment_ok_no_slash split_join_with)
  with s show "length (split_on 47 s) \<le> 5 \<and> list_all segment_ok (split_on 47 s)" by simp
next
  assume h: "length (split_on 47 s) \<le> 5 \<and> list_all segment_ok (split_on 47 s)"
  obtain g gs where g: "split_on 47 s = g # gs" by (cases "split_on 47 s") auto
  then have "s = join_with [47] (g # gs)" by (metis join_split_on)
  with h g show "\<exists>g gs. s = join_with [47] (g # gs) \<and> segment_ok g \<and> length gs \<le> 4 \<and> list_all segment_ok gs"
    by auto
qed

lemma valid_name_rule:
  "is_valid_output_file_name name \<longleftrightarrow>
     length name \<le> 255 \<and> length (split_on 47 name) \<le> 5 \<and> list_all segment_ok (split_on 47 name)"
  by (simp only: is_valid_output_file_name_def MAX_OUTPUT_FILE_NAME_LEN_def name_re_iff)

text \<open>C38: The regular expression of the name rule accepts exactly the relative paths of one to five
  segments, each starting with a letter or digit, of at most 100 characters from letters, digits, dot,
  underscore and hyphen, with at most 255 characters in all.\<close>

theorem is_valid_output_file_name_iff:
  "is_valid_output_file_name name \<longleftrightarrow>
     length name \<le> 255 \<and> length (split_on 47 name) \<le> 5 \<and> list_all segment_ok (split_on 47 name)"
  by (rule valid_name_rule)

section \<open>What the walk finds\<close>

text \<open>The specification of the walk: every regular file below a directory, with its qualified
  name, by plain recursion; and the trees without links and special files.\<close>

fun node_files :: "pystr \<Rightarrow> fnode \<Rightarrow> (pystr \<times> bytes) list" where
  "node_files name (FFile c) = [(name, c)]"
| "node_files name (FDir es) = concat (map (\<lambda>(e, x). node_files (qualify name e) x) es)"
| "node_files name _ = []"

definition tree_files :: "pystr \<Rightarrow> dir_entries \<Rightarrow> (pystr \<times> bytes) list" where
  "tree_files rel es = concat (map (\<lambda>(e, x). node_files (qualify rel e) x) es)"

fun node_clean :: "fnode \<Rightarrow> bool" where
  "node_clean (FFile c) = True"
| "node_clean (FDir es) = list_all (\<lambda>(e, x). node_clean x) es"
| "node_clean _ = False"

abbreviation entries_clean :: "dir_entries \<Rightarrow> bool" where
  "entries_clean es \<equiv> list_all (\<lambda>(e, x). node_clean x) es"

abbreviation name_sizes :: "(pystr \<times> bytes) list \<Rightarrow> (pystr \<times> nat) list" where
  "name_sizes fs \<equiv> map (\<lambda>(n, c). (n, length c)) fs"

definition stack_files :: "walk_stack \<Rightarrow> (pystr \<times> bytes) list" where
  "stack_files st = concat (map (\<lambda>(r, es). tree_files r es) st)"

abbreviation stack_clean :: "walk_stack \<Rightarrow> bool" where
  "stack_clean st \<equiv> list_all (\<lambda>(r, es). entries_clean es) st"

lemma tree_files_simps [simp]:
  "tree_files rel [] = []"
  "tree_files rel ((e, x) # es) = node_files (qualify rel e) x @ tree_files rel es"
  "node_files name (FDir es) = tree_files name es"
  by (simp_all add: tree_files_def)

declare node_files.simps(2) [simp del]

lemma stack_files_simps [simp]:
  "stack_files [] = []" "stack_files ((r, es) # st) = tree_files r es @ stack_files st"
  by (simp_all add: stack_files_def)

definition found_ok :: "int \<Rightarrow> (pystr \<times> nat) list \<Rightarrow> bool" where
  "found_ok m found \<longleftrightarrow> (\<forall>(n, k) \<in> set found. is_valid_output_file_name n) \<and> (found = [] \<or> int (length found) \<le> m)"

lemma walk_entries_sound:
  "walk_entries m rel es st found = Inr (st', found') \<Longrightarrow> found_ok m found \<Longrightarrow>
     found_ok m found' \<and> length found \<le> length found' \<and> (stack_clean st' \<longleftrightarrow> stack_clean st \<and> entries_clean es)
     \<and> mset (found' @ name_sizes (stack_files st')) = mset (found @ name_sizes (tree_files rel es @ stack_files st))"
proof (induction es arbitrary: st found)
  case (Cons e es)
  obtain entry node where e: "e = (entry, node)" by (cases e)
  show ?case
  proof (cases node)
    case (FFile c)
    let ?found = "found @ [(qualify rel entry, length c)]"
    have w: "walk_entries m rel es st ?found = Inr (st', found')"
      and "is_valid_output_file_name (qualify rel entry)" "int (length ?found) \<le> m"
      using Cons.prems(1) by (auto simp: e FFile Let_def split: if_splits)
    with Cons.prems(2) have "found_ok m ?found" by (auto simp: found_ok_def)
    from Cons.IH [OF w this] show ?thesis by (simp add: e FFile)
  next
    case (FDir sub)
    have w: "walk_entries m rel es ((qualify rel entry, sub) # st) found = Inr (st', found')"
      using Cons.prems(1) by (simp add: e FDir Let_def)
    from Cons.IH [OF w Cons.prems(2)] show ?thesis by (auto simp: e FDir)
  qed (use Cons.prems in \<open>auto simp: e Let_def\<close>)
qed simp

lemma walk_loop_sound:
  "walk_loop m st found = Inr f \<Longrightarrow> found_ok m found \<Longrightarrow>
     found_ok m f \<and> stack_clean st \<and> mset f = mset (found @ name_sizes (stack_files st))"
proof (induction m st found rule: walk_loop.induct)
  case (2 m rel es st found)
  from "2.prems"(1) obtain st' found' where w: "walk_entries m rel es st found = Inr (st', found')"
    and l: "walk_loop m st' found' = Inr f"
    by (auto split: sum.splits)
  from walk_entries_sound [OF w "2.prems"(2)] "2.IH" [OF w _ l] show ?case by auto
qed simp

lemma walk_entries_complete:
  assumes "entries_clean es" "\<forall>(n, c) \<in> set (tree_files rel es). is_valid_output_file_name n"
    and "tree_files rel es = [] \<or> int (length found + length (tree_files rel es)) \<le> m"
  shows "\<exists>st' found'. walk_entries m rel es st found = Inr (st', found')"
  using assms
proof (induction es arbitrary: st found)
  case (Cons e es)
  obtain entry node where e: "e = (entry, node)" by (cases e)
  show ?case
    using Cons.prems by (cases node) (auto simp: e Let_def intro!: Cons.IH)
qed simp

lemma walk_loop_complete:
  assumes "stack_clean st" "\<forall>(n, c) \<in> set (stack_files st). is_valid_output_file_name n"
    and "stack_files st = [] \<or> int (length found + length (stack_files st)) \<le> m" "found_ok m found"
  shows "\<exists>f. walk_loop m st found = Inr f"
  using assms
proof (induction m st found rule: walk_loop.induct)
  case (2 m rel es st found)
  have "\<exists>st' found'. walk_entries m rel es st found = Inr (st', found')"
    using "2.prems" by (intro walk_entries_complete) auto
  then obtain st' found' where w: "walk_entries m rel es st found = Inr (st', found')" by blast
  note sound = walk_entries_sound [OF w "2.prems"(4)]
  then have m: "mset (found' @ name_sizes (stack_files st')) = mset (found @ name_sizes (stack_files ((rel, es) # st)))"
    by simp
  have "length found' + length (stack_files st') = length found + length (stack_files ((rel, es) # st))"
    using mset_eq_length [OF m] by simp
  moreover have "\<forall>(n, c) \<in> set (stack_files st'). is_valid_output_file_name n"
  proof (clarify)
    fix n c assume "(n, c) \<in> set (stack_files st')"
    then have "(n, length c) \<in> set (found' @ name_sizes (stack_files st'))" by force
    then have "(n, length c) \<in> set (found @ name_sizes (stack_files ((rel, es) # st)))"
      by (simp only: mset_eq_setD [OF m])
    with "2.prems"(2,4) show "is_valid_output_file_name n" by (auto simp: found_ok_def)
  qed
  moreover have len: "length found \<le> length found'" using sound by simp
  ultimately have "\<exists>f. walk_loop m st' found' = Inr f"
  proof (intro "2.IH" [OF w refl])
    show "stack_clean st'" using sound "2.prems"(1) by simp
    show "found_ok m found'" using sound by simp
    show "stack_files st' = [] \<or> int (length found' + length (stack_files st')) \<le> m"
    proof (cases "stack_files ((rel, es) # st) = []")
      case True
      then have "length found' + length (stack_files st') = length found" using mset_eq_length [OF m] by simp
      with len have "length (stack_files st') = 0" by linarith
      then show ?thesis by simp
    next
      case False
      with "2.prems"(3) show ?thesis using mset_eq_length [OF m] by auto
    qed
  qed
  with w show ?case by simp
qed simp

lemma walk_sound:
  assumes "walk root m = Inr f"
  shows "mset f = mset (name_sizes (tree_files [] root))" "entries_clean root" "found_ok m f"
  using walk_loop_sound [of m "[([], root)]" "[]" f] assms by (auto simp: walk_def found_ok_def)

text \<open>The walk succeeds exactly when the tree holds no symbolic link and no special file, every path
  obeys the name rule, and there are at most \<^verbatim>\<open>max_files\<close> regular files (or none).\<close>

lemma walk_succeeds:
  "(\<exists>found. walk root m = Inr found) \<longleftrightarrow>
     entries_clean root \<and> (\<forall>(n, c) \<in> set (tree_files [] root). is_valid_output_file_name n)
     \<and> (tree_files [] root = [] \<or> int (length (tree_files [] root)) \<le> m)"
  (is "?L \<longleftrightarrow> ?R")
proof
  assume ?L
  then obtain f where f: "walk root m = Inr f" by blast
  note w = walk_sound [OF f]
  have "length f = length (tree_files [] root)" using mset_eq_length [OF w(1)] by simp
  moreover have "set f = set (name_sizes (tree_files [] root))" using mset_eq_setD [OF w(1)] .
  ultimately show ?R using w(2,3) by (fastforce simp: found_ok_def)
next
  assume r: ?R
  have "\<exists>f. walk_loop m [([], root)] [] = Inr f"
    using r by (intro walk_loop_complete) (auto simp: found_ok_def)
  then show ?L by (simp add: walk_def)
qed

section \<open>Opening and reading\<close>

text \<open>Path lookup in a tree without following links.\<close>

fun node_lookup :: "fnode \<Rightarrow> pystr list \<Rightarrow> fnode option" where
  "node_lookup x [] = Some x"
| "node_lookup (FDir es) (s # ss) = (case dget es s of None \<Rightarrow> None | Some y \<Rightarrow> node_lookup y ss)"
| "node_lookup _ (s # ss) = None"

lemma open_segments_iff:
  "segs \<noteq> [] \<Longrightarrow> open_segments es segs = Inr c \<longleftrightarrow> node_lookup (FDir es) segs = Some (FFile c)"
proof (induction es segs rule: open_segments.induct)
  case (2 es seg)
  then show ?case by (auto simp: open_last_def split: option.splits fnode.splits)
next
  case (3 es seg seg' segs)
  then show ?case
    by (auto simp: open_dir_def split: option.splits fnode.splits)
qed simp

text \<open>The open succeeds exactly when every proper prefix of the path is a directory and the path
  itself a regular file.\<close>

lemma open_nofollow_iff:
  "open_nofollow output_dir name = Inr content \<longleftrightarrow>
     (\<exists>root. output_dir = Some root \<and> node_lookup root (split_on 47 name) = Some (FFile content))"
proof -
  obtain s ss where "split_on 47 name = s # ss" by (cases "split_on 47 name") auto
  then show ?thesis
    by (auto simp: open_nofollow_def open_dir_def open_segments_iff split: option.splits fnode.splits)
qed

lemma read_files_sound:
  assumes "read_files fs m entries tot files = Inr out" "0 \<le> tot" "tot \<le> m"
  shows "\<exists>new. out = files @ new \<and> map of_name new = map fst entries
    \<and> tot + int (sum_list (map of_size new)) \<le> m
    \<and> (\<forall>i < length new. new ! i = mk_out_file (fst (entries ! i)) (of_content (new ! i))
         \<and> open_nofollow (fs i) (fst (entries ! i)) = Inr (of_content (new ! i)))"
  using assms
proof (induction entries arbitrary: fs tot files)
  case (Cons e entries)
  obtain name k where e: "e = (name, k)" by (cases e)
  from Cons.prems(1) obtain whole where w: "open_nofollow (fs 0) name = Inr whole"
    by (auto simp: e split: sum.splits open_error.splits)
  let ?content = "take (nat (m - tot + 1)) whole"
  from Cons.prems(1) w have le: "tot + int (length ?content) \<le> m"
    and r: "read_files (\<lambda>i. fs (Suc i)) m entries (tot + int (length ?content)) (files @ [mk_out_file name ?content]) = Inr out"
    by (auto simp: e Let_def split: if_splits)
  from le Cons.prems(3) have whole: "?content = whole" by (auto simp: min_def split: if_splits)
  from Cons.IH [OF r] Cons.prems(2) le obtain new where new:
    "out = (files @ [mk_out_file name whole]) @ new" "map of_name new = map fst entries"
    "tot + int (length whole) + int (sum_list (map of_size new)) \<le> m"
    "\<forall>i < length new. new ! i = mk_out_file (fst (entries ! i)) (of_content (new ! i))
       \<and> open_nofollow (fs (Suc i)) (fst (entries ! i)) = Inr (of_content (new ! i))"
    unfolding whole by auto
  show ?case
    using new w by (intro exI [of _ "mk_out_file name whole # new"])
      (auto simp: e mk_out_file_def nth_Cons split: nat.splits)
qed auto

text \<open>What every successful collection guarantees, however the file system changes meanwhile.\<close>

definition collected_ok :: "int \<Rightarrow> int \<Rightarrow> out_file list \<Rightarrow> bool" where
  "collected_ok max_files max_total files \<longleftrightarrow>
     sorted (map of_name files)
     \<and> list_all (\<lambda>f. is_valid_output_file_name (of_name f) \<and> f = mk_out_file (of_name f) (of_content f)) files
     \<and> (files = [] \<or> int (length files) \<le> max_files \<and> int (sum_list (map of_size files)) \<le> max_total)"

lemma collect_cases:
  assumes "collect_output_files fs max_files max_total = Inr files"
  obtains (none) "fs 0 = None" "files = []"
    | (dir) root entries where "fs 0 = Some (FDir root)" "walk root max_files = Inr entries"
        "int (sum_list (map snd entries)) \<le> max_total"
        "read_files (\<lambda>i. fs (Suc i)) max_total (sort entries) 0 [] = Inr files"
  using assms
  by (auto simp: collect_output_files_def Let_def split: option.splits fnode.splits sum.splits if_splits)

lemma collected_ok_of_collect:
  assumes "collect_output_files fs max_files max_total = Inr files"
  shows "collected_ok max_files max_total files"
  using assms
proof (cases rule: collect_cases)
  case none
  then show ?thesis by (simp add: collected_ok_def)
next
  case (dir root entries)
  note w = walk_sound [OF dir(2)]
  from dir(3) have "0 \<le> max_total" by simp
  from read_files_sound [OF dir(4) _ this] have
    names: "map of_name files = map fst (sort entries)" and
    total: "int (sum_list (map of_size files)) \<le> max_total" and
    each: "\<And>i. i < length files \<Longrightarrow> files ! i = mk_out_file (fst (sort entries ! i)) (of_content (files ! i))"
    by auto
  have mk: "f = mk_out_file (of_name f) (of_content f)" if "f \<in> set files" for f
  proof -
    from that obtain i where "i < length files" "f = files ! i" by (metis in_set_conv_nth)
    with each [of i] show ?thesis by (metis mk_out_file_def out_file.select_convs(1))
  qed
  have "is_valid_output_file_name n" if "n \<in> set (map of_name files)" for n
    using that w(3) unfolding names by (auto simp: found_ok_def)
  moreover have "sorted (map of_name files)" unfolding names by (rule sorted_map_fst_sort)
  moreover have "files = [] \<or> int (length files) \<le> max_files"
    using w(3) arg_cong [OF names, of length] by (auto simp: found_ok_def)
  ultimately show ?thesis
    using mk total by (auto simp: collected_ok_def list_all_iff)
qed

text \<open>C12: Whatever other processes do to the outputs directory between the walk and the reads, a
  successful collection returns at most \<^verbatim>\<open>max_files\<close> files of at most \<^verbatim>\<open>max_total_bytes\<close> in
  all, sorted by name, each with a valid name, and with the size, SHA-256 and content type of the content it carries.\<close>

theorem collect_output_files_safe:
  assumes "collect_output_files fs max_files max_total = Inr files"
  shows "collected_ok max_files max_total files"
  by (rule collected_ok_of_collect [OF assms])

text \<open>C24: Every file a collection returns was, at the moment it was opened, a regular file reached
  through directories only, under the name it is reported with; its bytes are that file's whole content.\<close>

theorem collect_output_files_no_symlink:
  assumes "collect_output_files fs max_files max_total = Inr files" and "f \<in> set files"
  shows "\<exists>t root. fs t = Some root \<and> node_lookup root (split_on 47 (of_name f)) = Some (FFile (of_content f))"
  using assms(1)
proof (cases rule: collect_cases)
  case none
  with assms(2) show ?thesis by simp
next
  case (dir root entries)
  from dir(3) have "0 \<le> max_total" by simp
  from read_files_sound [OF dir(4) _ this] have
    names: "map of_name files = map fst (sort entries)" and
    each: "\<And>i. i < length files \<Longrightarrow> open_nofollow (fs (Suc i)) (fst (sort entries ! i)) = Inr (of_content (files ! i))"
    by auto
  from assms(2) obtain i where i: "i < length files" "f = files ! i" by (metis in_set_conv_nth)
  have "fst (sort entries ! i) = of_name f"
    using i arg_cong [OF names, of "\<lambda>xs. xs ! i"] arg_cong [OF names, of length] by simp
  with each [OF i(1)] i(2) show ?thesis by (auto simp: open_nofollow_iff)
qed

section \<open>Collecting from a tree at rest\<close>

text \<open>Directory entries as a file system has them: distinct names, not empty, without a slash.\<close>

fun node_wf :: "fnode \<Rightarrow> bool" where
  "node_wf (FDir es) = (distinct (map fst es) \<and> list_all (\<lambda>(e, x). e \<noteq> [] \<and> 47 \<notin> set e \<and> node_wf x) es)"
| "node_wf _ = True"

lemma node_files_lookup:
  "node_wf x \<Longrightarrow> name \<noteq> [] \<Longrightarrow> (n, c) \<in> set (node_files name x) \<Longrightarrow>
     \<exists>segs. split_on 47 n = split_on 47 name @ segs \<and> node_lookup x segs = Some (FFile c)"
proof (induction name x rule: node_files.induct)
  case (2 name es)
  from "2.prems"(3) obtain e y where e: "(e, y) \<in> set es" "(n, c) \<in> set (node_files (qualify name e) y)"
    by (auto simp: tree_files_def)
  with "2.prems" have wf: "node_wf y" "47 \<notin> set e" "dget es e = Some y" by (auto simp: list_all_iff)
  have q: "split_on 47 (qualify name e) = split_on 47 name @ [e]" "qualify name e \<noteq> []"
    using "2.prems"(2) wf(2) by (auto simp: qualify_def split_on_append_both split_on_free)
  from "2.IH" [OF e(1) refl wf(1) q(2) e(2)] obtain segs where
    "split_on 47 n = split_on 47 name @ e # segs" "node_lookup y segs = Some (FFile c)"
    using q(1) by auto
  then show ?case by (intro exI [of _ "e # segs"]) (simp add: wf(3))
qed (auto intro: exI [of _ "[]"])

lemma tree_files_lookup:
  assumes "node_wf (FDir root)" "(n, c) \<in> set (tree_files [] root)"
  shows "node_lookup (FDir root) (split_on 47 n) = Some (FFile c)"
proof -
  from assms(2) obtain e y where e: "(e, y) \<in> set root" "(n, c) \<in> set (node_files e y)"
    by (auto simp: tree_files_def qualify_def)
  with assms(1) have wf: "node_wf y" "e \<noteq> []" "47 \<notin> set e" "dget root e = Some y"
    by (auto simp: list_all_iff)
  from node_files_lookup [OF wf(1,2) e(2)] show ?thesis by (auto simp: split_on_free [OF wf(3)] wf(4))
qed

lemma distinct_concat_map:
  assumes "distinct xs" "\<And>x. x \<in> set xs \<Longrightarrow> distinct (f x)"
    and "\<And>x y z. x \<in> set xs \<Longrightarrow> y \<in> set xs \<Longrightarrow> z \<in> set (f x) \<Longrightarrow> z \<in> set (f y) \<Longrightarrow> x = y"
  shows "distinct (concat (map f xs))"
  using assms
proof (induction xs)
  case (Cons x xs)
  have "set (f x) \<inter> set (concat (map f xs)) = {}"
    using Cons.prems(1,3) by fastforce
  moreover have "distinct (concat (map f xs))" using Cons.prems by (intro Cons.IH) auto
  ultimately show ?case using Cons.prems(2) by simp
qed simp

lemma map_fst_node_files:
  "map fst (node_files name (FDir es)) = concat (map (\<lambda>e. map fst (node_files (qualify name (fst e)) (snd e))) es)"
  by (simp add: tree_files_def map_concat comp_def case_prod_beta)

lemma distinct_node_files: "node_wf x \<Longrightarrow> name \<noteq> [] \<Longrightarrow> distinct (map fst (node_files name x))"
proof (induction name x rule: node_files.induct)
  case (2 name es)
  have wf: "node_wf (snd e)" "fst e \<noteq> []" "47 \<notin> set (fst e)" if "e \<in> set es" for e
    using "2.prems"(1) that by (auto simp: list_all_iff case_prod_beta)
  show ?case unfolding map_fst_node_files
  proof (intro distinct_concat_map)
    show "distinct es" using "2.prems"(1) by (simp add: distinct_map)
    show "distinct (map fst (node_files (qualify name (fst e)) (snd e)))" if "e \<in> set es" for e
      using "2.IH" [of e "fst e" "snd e"] that wf(1) [OF that] "2.prems"(2) by (simp add: qualify_def)
  next
    fix e e' n
    assume e: "e \<in> set es" "e' \<in> set es"
      and n: "n \<in> set (map fst (node_files (qualify name (fst e)) (snd e)))"
        "n \<in> set (map fst (node_files (qualify name (fst e')) (snd e')))"
    have "\<exists>segs. split_on 47 n = split_on 47 name @ fst d # segs"
      if "d \<in> set es" "n \<in> set (map fst (node_files (qualify name (fst d)) (snd d)))" for d
    proof -
      from that(2) obtain c where "(n, c) \<in> set (node_files (qualify name (fst d)) (snd d))" by auto
      from node_files_lookup [OF wf(1) [OF that(1)] _ this] "2.prems"(2) show ?thesis
        by (auto simp: qualify_def split_on_append_both split_on_free [OF wf(3) [OF that(1)]])
    qed
    with e n have "fst e = fst e'" by (metis append_same_eq list.inject same_append_eq)
    with e "2.prems"(1) show "e = e'" by (auto simp: distinct_map dest: inj_onD)
  qed
qed auto

lemma distinct_tree_files:
  assumes "node_wf (FDir root)"
  shows "distinct (map fst (tree_files [] root))"
proof -
  have wf: "node_wf (snd e)" "fst e \<noteq> []" "47 \<notin> set (fst e)" if "e \<in> set root" for e
    using assms that by (auto simp: list_all_iff case_prod_beta)
  have "distinct (concat (map (\<lambda>e. map fst (node_files (fst e) (snd e))) root))"
  proof (intro distinct_concat_map)
    show "distinct root" using assms by (simp add: distinct_map)
    show "distinct (map fst (node_files (fst e) (snd e)))" if "e \<in> set root" for e
      using distinct_node_files wf that by blast
  next
    fix e e' n
    assume e: "e \<in> set root" "e' \<in> set root"
      and n: "n \<in> set (map fst (node_files (fst e) (snd e)))" "n \<in> set (map fst (node_files (fst e') (snd e')))"
    have "\<exists>segs. split_on 47 n = fst d # segs"
      if "d \<in> set root" "n \<in> set (map fst (node_files (fst d) (snd d)))" for d
      using that node_files_lookup [OF wf(1,2) [OF that(1)]] by (fastforce simp: split_on_free [OF wf(3) [OF that(1)]])
    with e n have "fst e = fst e'" by (metis list.inject)
    with e assms show "e = e'" by (auto simp: distinct_map dest: inj_onD)
  qed
  then show ?thesis by (simp add: tree_files_def qualify_def map_concat comp_def case_prod_beta)
qed

lemma read_files_rest:
  assumes "\<And>n k. (n, k) \<in> set es \<Longrightarrow> open_nofollow d n = Inr (ct n) \<and> k = length (ct n)"
    and "0 \<le> tot" "tot + int (sum_list (map snd es)) \<le> m"
  shows "read_files (\<lambda>_. d) m es tot files = Inr (files @ map (\<lambda>(n, k). mk_out_file n (ct n)) es)"
  using assms
proof (induction es arbitrary: tot files)
  case (Cons e es)
  obtain n k where e: "e = (n, k)" by (cases e)
  with Cons.prems(1) [of n k] have o: "open_nofollow d n = Inr (ct n)" "k = length (ct n)" by auto
  with Cons.prems(3) have "take (nat (m - tot + 1)) (ct n) = ct n" by (simp add: e)
  moreover have "read_files (\<lambda>_. d) m es (tot + int k) (files @ [mk_out_file n (ct n)])
      = Inr ((files @ [mk_out_file n (ct n)]) @ map (\<lambda>(n, k). mk_out_file n (ct n)) es)"
    using Cons.prems by (intro Cons.IH) (auto simp: e)
  moreover have "tot + int k \<le> m" using Cons.prems(3) by (simp add: e)
  ultimately show ?case by (simp add: e o Let_def)
qed simp

text \<open>The names and contents of a tree, in the order of the names.\<close>

definition sorted_files :: "dir_entries \<Rightarrow> out_file list" where
  "sorted_files root = map (\<lambda>(n, c). mk_out_file n c) (sort_key fst (tree_files [] root))"

lemma sorted_pairs:
  "sorted (map fst (ps :: (pystr \<times> nat) list)) \<Longrightarrow> distinct (map fst ps) \<Longrightarrow> sorted ps"
  by (induction ps) (fastforce simp: less_eq_prod_def order_less_le)+

lemma sort_name_sizes:
  assumes "distinct (map fst fs)" "mset es = mset (name_sizes fs)"
  shows "sort es = name_sizes (sort_key fst fs)"
proof (rule properties_for_sort)
  show "mset (name_sizes (sort_key fst fs)) = mset es" using assms(2) by simp
  have fst: "map fst (name_sizes (sort_key fst fs)) = map fst (sort_key fst fs)"
    by (simp add: case_prod_beta comp_def)
  have "distinct (map fst (sort_key fst fs))"
    using assms(1) by (metis distinct_map distinct_sort set_sort)
  then show "sorted (name_sizes (sort_key fst fs))"
    by (intro sorted_pairs) (simp_all only: fst sorted_sort_key)
qed

text \<open>A tree that obeys every output rule.\<close>

definition outputs_ok :: "int \<Rightarrow> int \<Rightarrow> dir_entries \<Rightarrow> bool" where
  "outputs_ok max_files max_total root \<longleftrightarrow>
     entries_clean root \<and> (\<forall>(n, c) \<in> set (tree_files [] root). is_valid_output_file_name n)
     \<and> (tree_files [] root = [] \<or> int (length (tree_files [] root)) \<le> max_files)
     \<and> int (sum_list (map (length \<circ> snd) (tree_files [] root))) \<le> max_total"

lemma collect_at_rest:
  assumes wf: "node_wf (FDir root)" and w: "walk root m = Inr es"
    and le: "int (sum_list (map snd es)) \<le> t"
  shows "read_files (\<lambda>_. Some (FDir root)) t (sort es) 0 [] = Inr (sorted_files root)"
proof -
  let ?fs = "tree_files [] root"
  let ?ct = "\<lambda>n. the (map_of ?fs n)"
  have d: "distinct (map fst ?fs)" by (rule distinct_tree_files [OF wf])
  have ct: "?ct n = c" "open_nofollow (Some (FDir root)) n = Inr c" if "(n, c) \<in> set ?fs" for n c
    using that d tree_files_lookup [OF wf that] by (auto simp: open_nofollow_iff map_of_eq_Some_iff)
  have s: "sort es = name_sizes (sort_key fst ?fs)" by (rule sort_name_sizes [OF d walk_sound(1) [OF w]])
  have "sum_list (map snd (sort es)) = sum_list (map snd es)"
    by (metis mset_map mset_sort sum_mset_sum_list)
  with le ct have "read_files (\<lambda>_. Some (FDir root)) t (sort es) 0 []
      = Inr ([] @ map (\<lambda>(n, k). mk_out_file n (?ct n)) (sort es))"
    by (intro read_files_rest) (auto simp: s)
  also have "map (\<lambda>(n, k). mk_out_file n (?ct n)) (sort es) = sorted_files root"
    unfolding s sorted_files_def using ct(1) by (auto simp: set_sort)
  finally show ?thesis by simp
qed

text \<open>C23: On an outputs directory that no process changes, the collection succeeds exactly when the tree obeys
  every rule, and then returns exactly the regular files of the tree, each once, with its whole content,
  in the order of their names.\<close>

theorem collect_output_files_complete:
  assumes "node_wf (FDir root)"
  shows "collect_output_files (\<lambda>_. Some (FDir root)) max_files max_total = Inr files \<longleftrightarrow>
     outputs_ok max_files max_total root \<and> files = sorted_files root"
proof (cases "walk root max_files")
  case (Inl e)
  then have "\<not> (\<exists>f. walk root max_files = Inr f)" by simp
  then have "\<not> outputs_ok max_files max_total root" by (auto simp: walk_succeeds outputs_ok_def)
  with Inl show ?thesis by (simp add: collect_output_files_def)
next
  case (Inr es)
  then have ok: "\<exists>f. walk root max_files = Inr f" by blast
  note ok = ok [unfolded walk_succeeds]
  have "sum_list (map snd es) = sum_list (map (length \<circ> snd) (tree_files [] root))"
    using arg_cong [OF walk_sound(1) [OF Inr], of "\<lambda>M. \<Sum>\<^sub># (image_mset snd M)"]
    by (simp add: sum_mset_sum_list [symmetric] case_prod_beta comp_def flip: mset_map)
  with Inr ok show ?thesis
    using collect_at_rest [OF assms Inr, of max_total]
    by (auto simp: collect_output_files_def Let_def outputs_ok_def)
qed

section \<open>The attested manifest\<close>

lemma segment_ok_ascii: "segment_ok s \<Longrightarrow> c \<in> set s \<Longrightarrow> c < 128"
  by (cases s) (auto simp: segment_ok_def list_all_iff is_alnum_def)

lemma valid_name_ascii:
  assumes "is_valid_output_file_name n" "c \<in> set n"
  shows "c < 128"
proof -
  have "list_all segment_ok (split_on 47 n)"
    using assms(1) by (simp add: is_valid_output_file_name_def name_re_iff)
  then have "\<forall>p \<in> set (split_on 47 n). \<forall>x \<in> set p. x < 128"
    using segment_ok_ascii by (auto simp: list_all_iff)
  moreover have "c \<in> set (join_with [47] (split_on 47 n))" using assms(2) by simp
  ultimately show ?thesis using join_with_set [of c "[47]" "split_on 47 n"] by auto
qed

lemma ascii_valid_cp: "(\<And>c. c \<in> set s \<Longrightarrow> c < 128) \<Longrightarrow> list_all valid_cp s"
  by (fastforce simp: list_all_iff valid_cp_def is_surrogate_def)

lemma lit_valid_cp [simp]: "list_all valid_cp (lit s)"
  using lit_less_256 [of _ s] by (fastforce simp: list_all_iff valid_cp_def is_surrogate_def)

definition entry_ascii :: "manifest_entry \<Rightarrow> bool" where
  "entry_ascii m \<longleftrightarrow> list_all valid_cp (m_name m) \<and> list_all valid_cp (m_sha256 m) \<and> list_all valid_cp (m_type m)"

lemma output_file_type_cp: "list_all valid_cp (output_file_type n)"
  by (auto simp: output_file_type_def OUTPUT_TYPES_def DEFAULT_OUTPUT_TYPE_def Let_def split: option.splits if_splits)

lemma manifest_val_ok:
  "list_all entry_ascii ms \<Longrightarrow> json_ok (PList (map manifest_entry_val ms))"
  by (induction ms) (auto simp: manifest_entry_val_def entry_ascii_def)

lemma canonical_manifest_bytes_text:
  assumes "list_all entry_ascii ms"
  shows "canonical_manifest_bytes ms = Inr (map of_nat (json_text True True (PList (map manifest_entry_val ms))))"
  unfolding canonical_manifest_bytes_def json_dumps_def
  by (simp only: json_ok_no_bytes [OF manifest_val_ok [OF assms]] str_encode_json_text [OF manifest_val_ok [OF assms]]
      if_False rbind_simps not_False_eq_True)

lemma manifest_norm_inject:
  "json_norm True (manifest_entry_val a) = json_norm True (manifest_entry_val b) \<Longrightarrow> a = b"
  by (cases a; cases b) (simp add: manifest_entry_val_def dict_items_def lit_def insort_key_def)

lemma canonical_manifest_bytes_inject:
  assumes "list_all entry_ascii ms" "list_all entry_ascii ms'"
    and "canonical_manifest_bytes ms = canonical_manifest_bytes ms'"
  shows "ms = ms'"
proof -
  let ?v = "\<lambda>ms. PList (map manifest_entry_val ms)"
  have "json_text True True (?v ms) = json_text True True (?v ms')"
    using assms json_text_ascii [OF manifest_val_ok]
    by (subst map_of_nat_byte_inject [symmetric]) (fastforce simp: canonical_manifest_bytes_text)+
  then have "json_norm True (?v ms) = json_norm True (?v ms')"
    by (metis json_loads_text manifest_val_ok assms(1,2) option.inject)
  then have "map (json_norm True \<circ> manifest_entry_val) ms = map (json_norm True \<circ> manifest_entry_val) ms'" by simp
  moreover have "inj (json_norm True \<circ> manifest_entry_val)"
    using manifest_norm_inject by (auto simp: inj_def)
  ultimately show ?thesis by (metis map_injective)
qed

lemma sort_key_sorted_id: "sorted (map f xs) \<Longrightarrow> sort_key f xs = xs"
  by (induction xs) (auto simp: insort_is_Cons)

lemma collected_manifest:
  assumes "collected_ok m t files"
  shows "build_files_manifest files = map manifest_of files" "list_all entry_ascii (map manifest_of files)"
proof -
  have "map m_name (map manifest_of files) = map of_name files" by (simp add: manifest_of_def)
  with assms show "build_files_manifest files = map manifest_of files"
    unfolding build_files_manifest_def by (intro sort_key_sorted_id) (simp only: collected_ok_def)
  have "entry_ascii (manifest_of f)" if "f \<in> set files" for f
  proof -
    from assms that have f: "is_valid_output_file_name (of_name f)" "f = mk_out_file (of_name f) (of_content f)"
      by (simp_all add: collected_ok_def list_all_iff)
    have "of_sha256 f = sha256_hex (of_content f)" "of_type f = output_file_type (of_name f)"
      using arg_cong [OF f(2), of of_sha256] arg_cong [OF f(2), of of_type] by (simp_all add: mk_out_file_def)
    moreover have "list_all valid_cp (sha256_hex (of_content f))"
      using bytes_hex_ascii by (intro ascii_valid_cp) fastforce
    ultimately show ?thesis
      by (simp add: entry_ascii_def manifest_of_def output_file_type_cp ascii_valid_cp valid_name_ascii [OF f(1)])
  qed
  then show "list_all entry_ascii (map manifest_of files)" by (simp add: list_all_iff)
qed

text \<open>The byte strings whose SHA-256 enters the attested manifest hash of a collection: the
  contents of its files and the canonical manifest.\<close>

definition hashed_bytes :: "out_file list \<Rightarrow> bytes set" where
  "hashed_bytes files = insert (map of_nat (json_text True True (PList (map (manifest_entry_val \<circ> manifest_of) files))))
     (of_content ` set files)"

definition collides :: "bytes set \<Rightarrow> bytes set \<Rightarrow> bool" where
  "collides A B \<longleftrightarrow> (\<exists>a \<in> A. \<exists>b \<in> B. a \<noteq> b \<and> sha256 a = sha256 b)"

lemma manifests_equal_files:
  assumes "map manifest_of files = map manifest_of files'"
    and "\<And>f. f \<in> set files \<Longrightarrow> f = mk_out_file (of_name f) (of_content f)"
    and "\<And>f. f \<in> set files' \<Longrightarrow> f = mk_out_file (of_name f) (of_content f)"
    and "\<not> collides (of_content ` set files) (of_content ` set files')"
  shows "files = files'"
  using assms
proof (induction files files' rule: list_induct2')
  case (4 f fs g gs)
  from "4.prems"(1) have m: "manifest_of f = manifest_of g" by simp
  have "f = mk_out_file (of_name f) (of_content f)" "g = mk_out_file (of_name g) (of_content g)"
    using "4.prems"(2,3) by auto
  moreover from this m have "of_name f = of_name g" "sha256 (of_content f) = sha256 (of_content g)"
    by (metis (no_types, lifting) manifest_of_def manifest_entry.ext_inject mk_out_file_def out_file.select_convs(1,3) bytes_hex_inject)+
  moreover from this have "of_content f = of_content g" using "4.prems"(4) by (auto simp: collides_def)
  ultimately have "f = g" by metis
  moreover have "fs = gs" using "4.prems" by (intro "4.IH") (auto simp: collides_def)
  ultimately show ?case by simp
qed auto

lemma files_manifest_binds:
  assumes "collected_ok m t files" "collected_ok m' t' files'"
    and "files_manifest_sha256 (build_files_manifest files) = files_manifest_sha256 (build_files_manifest files')"
  shows "files = files' \<or> collides (hashed_bytes files) (hashed_bytes files')"
proof (rule disjCI)
  assume no: "\<not> collides (hashed_bytes files) (hashed_bytes files')"
  let ?ms = "map manifest_of files" and ?ms' = "map manifest_of files'"
  note c = collected_manifest [OF assms(1)] and c' = collected_manifest [OF assms(2)]
  have b: "canonical_manifest_bytes ?ms = canonical_manifest_bytes ?ms'"
    using no assms(3) unfolding c(1) c'(1) files_manifest_sha256_def collides_def hashed_bytes_def
    by (auto simp: canonical_manifest_bytes_text c(2) c'(2) bytes_hex_inject comp_def simp del: json_text.simps)
  have "?ms = ?ms'" by (rule canonical_manifest_bytes_inject [OF c(2) c'(2) b])
  then show "files = files'"
    using no assms(1,2) by (intro manifests_equal_files)
      (auto simp: collides_def hashed_bytes_def collected_ok_def list_all_iff)
qed

text \<open>C13: The manifest hash binds the files. When the attested manifest hashes of two collections
  agree, the collections are equal, name by name and byte by byte, unless two of the byte strings
  that were hashed are a SHA-256 collision.\<close>

theorem files_manifest_sha256_binding:
  assumes "collected_ok m t files" "collected_ok m' t' files'"
    and "files_manifest_sha256 (build_files_manifest files) = files_manifest_sha256 (build_files_manifest files')"
  shows "files = files' \<or> collides (hashed_bytes files) (hashed_bytes files')"
  by (rule files_manifest_binds [OF assms])

text \<open>The manifest, and so its hash, does not depend on the order in which the files are listed.\<close>

theorem build_files_manifest_order:
  assumes "mset files = mset files'" "distinct (map of_name files)"
  shows "build_files_manifest files = build_files_manifest files'"
proof -
  have "inj_on m_name (set (map manifest_of files))"
    using assms(2) by (auto simp: distinct_map inj_on_def manifest_of_def)
  moreover have "mset (map manifest_of files) = mset (sort_key m_name (map manifest_of files'))"
    using assms(1) by simp
  ultimately show ?thesis
    unfolding build_files_manifest_def by (intro sort_key_inj_key_eq) simp_all
qed

section \<open>A concrete outputs directory\<close>

definition demo_root :: dir_entries where
  "demo_root = [(lit ''b.png'', FFile [1, 2, 3]), (lit ''sub'', FDir [(lit ''a.CSV'', FFile [65])])]"

definition demo_files :: "out_file list" where
  "demo_files = [mk_out_file (lit ''b.png'') [1, 2, 3], mk_out_file (lit ''sub/a.CSV'') [65]]"

lemmas demo_eval = demo_root_def demo_files_def collect_output_files_def walk_def qualify_def valid_name_rule
  segment_ok_def is_alnum_def lit_def open_nofollow_def open_dir_def open_last_def

lemma demo_collect: "collect_output_files (\<lambda>_. Some (FDir demo_root)) 20 100 = Inr demo_files"
  by (simp add: demo_eval)

lemma demo_collected_ok: "collected_ok 20 100 demo_files"
  by (simp add: collected_ok_def demo_files_def mk_out_file_def valid_name_rule segment_ok_def is_alnum_def lit_def)

theorem collect_output_files_safe_witness:
  "collect_output_files (\<lambda>_. Some (FDir demo_root)) 20 100 = Inr demo_files \<and> collected_ok 20 100 demo_files"
  using collect_output_files_safe [OF demo_collect] demo_collect by simp

theorem collect_output_files_no_symlink_witness:
  "\<exists>t root. (\<lambda>_. Some (FDir demo_root)) (t :: nat) = Some root
     \<and> node_lookup root (split_on 47 (lit ''sub/a.CSV'')) = Some (FFile [65])"
  using collect_output_files_no_symlink [OF demo_collect, of "mk_out_file (lit ''sub/a.CSV'') [65]"]
  by (simp add: demo_files_def mk_out_file_def)

theorem collect_output_files_complete_witness:
  "collect_output_files (\<lambda>_. Some (FDir demo_root)) 20 100 = Inr (sorted_files demo_root) \<and> length (sorted_files demo_root) = 2"
proof -
  have "node_wf (FDir demo_root)" by (simp add: demo_root_def lit_def)
  from collect_output_files_complete [OF this, of 20 100 demo_files] demo_collect
  have "demo_files = sorted_files demo_root" by simp
  moreover have "length demo_files = 2" by (simp add: demo_files_def)
  ultimately show ?thesis using demo_collect by simp
qed

theorem files_manifest_sha256_binding_witness:
  "\<exists>files. collect_output_files (\<lambda>_. Some (FDir (rev demo_root))) 20 100 = Inr files
     \<and> (files = demo_files \<or> collides (hashed_bytes files) (hashed_bytes demo_files))"
proof (intro exI conjI)
  show "collect_output_files (\<lambda>_. Some (FDir (rev demo_root))) 20 100 = Inr demo_files"
    by (simp add: demo_eval)
  show "demo_files = demo_files \<or> collides (hashed_bytes demo_files) (hashed_bytes demo_files)"
    by (rule files_manifest_sha256_binding [OF demo_collected_ok demo_collected_ok refl])
qed

theorem build_files_manifest_order_witness:
  "build_files_manifest (rev demo_files) = build_files_manifest demo_files"
  using build_files_manifest_order [of "rev demo_files" demo_files]
  by (simp add: demo_files_def mk_out_file_def lit_def)

end
