(* ===== verification/Py_Value.thy ===== *)
theory Py_Value
  imports Py_Json
begin

text \<open>
  Dynamic values: how Python prints them (\<^verbatim>\<open>repr\<close>, and \<^verbatim>\<open>str\<close> as an f-string uses it), compares them
  with an integer, takes their length, and looks them up. The requests are arbitrary JSON values, so
  the handlers meet every one of these cases. The Unicode table behind \<^verbatim>\<open>str.isprintable\<close> is the argument
  \<open>pr\<close>, asked only for characters above U+007F.
\<close>

section \<open>repr\<close>

definition repr_quote :: "pystr \<Rightarrow> nat" where
  "repr_quote s = (if 39 \<in> set s \<and> 34 \<notin> set s then 34 else 39)"

definition hex2 :: "nat \<Rightarrow> pystr" where
  "hex2 c = [hexdigit (c div 16), hexdigit (c mod 16)]"

definition repr_char :: "(nat \<Rightarrow> bool) \<Rightarrow> nat \<Rightarrow> nat \<Rightarrow> pystr" where
  "repr_char pr q c =
     (if c = q \<or> c = 92 then [92, c]
      else if c = 9 then [92, 116] else if c = 10 then [92, 110] else if c = 13 then [92, 114]
      else if c < 32 \<or> c = 127 then [92, 120] @ hex2 c
      else if c < 127 then [c]
      else if pr c then [c]
      else if c < 0x100 then [92, 120] @ hex2 c
      else if c < 0x10000 then [92, 117] @ hex4 c
      else [92, 85] @ hex4 (c div 0x10000) @ hex4 (c mod 0x10000))"

definition repr_str :: "(nat \<Rightarrow> bool) \<Rightarrow> pystr \<Rightarrow> pystr" where
  "repr_str pr s = (let q = repr_quote s in [q] @ concat (map (repr_char pr q) s) @ [q])"

definition repr_bytes :: "bytes \<Rightarrow> pystr" where
  "repr_bytes bs =
     (let s = map unat bs; q = repr_quote s in [98, q] @ concat (map (repr_char (\<lambda>_. False) q) s) @ [q])"

fun py_repr :: "(nat \<Rightarrow> bool) \<Rightarrow> pyval \<Rightarrow> pystr" where
  "py_repr pr PNone = lit ''None''"
| "py_repr pr (PBool b) = (if b then lit ''True'' else lit ''False'')"
| "py_repr pr (PInt i) = show_int i"
| "py_repr pr (PFloat f) = f"
| "py_repr pr (PStr s) = repr_str pr s"
| "py_repr pr (PBytes b) = repr_bytes b"
| "py_repr pr (PList xs) = [91] @ join_with (lit '', '') (map (py_repr pr) xs) @ [93]"
| "py_repr pr (PDict d) =
     [123] @ join_with (lit '', '') (map (\<lambda>(k, v). repr_str pr k @ lit '': '' @ py_repr pr v) d) @ [125]"

text \<open>\<^verbatim>\<open>str(v)\<close>, which is what \<^verbatim>\<open>f"{v}"\<close> inserts.\<close>

definition py_str :: "(nat \<Rightarrow> bool) \<Rightarrow> pyval \<Rightarrow> pystr" where
  "py_str pr v = (case v of PStr s \<Rightarrow> s | _ \<Rightarrow> py_repr pr v)"

lemma py_str_PStr [simp]: "py_str pr (PStr s) = s"
  by (simp add: py_str_def)

section \<open>Comparison, length, attributes\<close>

text \<open>\<^verbatim>\<open>v == n\<close> for an integer below \<open>10\<^sup>1\<^sup>6\<close>, where the float equal to it prints as \<open>n.0\<close>.\<close>

definition py_eq_int :: "pyval \<Rightarrow> int \<Rightarrow> bool" where
  "py_eq_int v n = (case v of
       PInt i \<Rightarrow> i = n
     | PBool b \<Rightarrow> (if b then 1 else 0) = n
     | PFloat f \<Rightarrow> f = show_int n @ lit ''.0''
     | _ \<Rightarrow> False)"

definition quoted :: "pystr \<Rightarrow> pystr" where
  "quoted s = [39] @ s @ [39]"

definition py_len :: "pyval \<Rightarrow> nat res" where
  "py_len v = (case v of
       PStr s \<Rightarrow> Inr (length s) | PBytes b \<Rightarrow> Inr (length b) | PList xs \<Rightarrow> Inr (length xs)
     | PDict d \<Rightarrow> Inr (length d)
     | _ \<Rightarrow> Inl (Exn TypeError (lit ''object of type '' @ quoted (type_name v) @ lit '' has no len()'')))"

definition no_attribute :: "pyval \<Rightarrow> string \<Rightarrow> pyexn" where
  "no_attribute v a = Exn AttributeError (quoted (type_name v) @ lit '' object has no attribute '' @ quoted (lit a))"

text \<open>\<^verbatim>\<open>d[k]\<close>: the text of a \<^verbatim>\<open>KeyError\<close> is the \<^verbatim>\<open>repr\<close> of the key.\<close>

definition dict_item :: "'v dict \<Rightarrow> pystr \<Rightarrow> 'v res" where
  "dict_item d k = (case dget d k of Some v \<Rightarrow> Inr v | None \<Rightarrow> Inl (Exn KeyError (quoted k)))"

definition dget_or :: "'v \<Rightarrow> 'v dict \<Rightarrow> pystr \<Rightarrow> 'v" where
  "dget_or dflt d k = (case dget d k of Some v \<Rightarrow> v | None \<Rightarrow> dflt)"

lemma dict_item_eq_Inr [simp]: "dict_item d k = Inr v \<longleftrightarrow> dget d k = Some v"
  by (simp add: dict_item_def split: option.splits)

text \<open>A value used as a dictionary key whose keys are strings: only a string can be present.
  \<^verbatim>\<open>list\<close> and \<^verbatim>\<open>dict\<close> are unhashable.\<close>

definition unhashable :: "pyval \<Rightarrow> bool" where
  "unhashable v = (case v of PList _ \<Rightarrow> True | PDict _ \<Rightarrow> True | _ \<Rightarrow> False)"

definition unhashable_error :: "pyval \<Rightarrow> pyexn" where
  "unhashable_error v = Exn TypeError (lit ''unhashable type: '' @ quoted (type_name v))"

definition key_in :: "pyval \<Rightarrow> 'v dict \<Rightarrow> bool res" where
  "key_in k d = (if unhashable k then Inl (unhashable_error k)
     else Inr (case k of PStr s \<Rightarrow> dget d s \<noteq> None | _ \<Rightarrow> False))"

text \<open>\<^verbatim>\<open>base64.b64decode\<close> of a dynamic value.\<close>

definition b64decode_val :: "pyval \<Rightarrow> bytes res" where
  "b64decode_val v = (case v of
       PStr s \<Rightarrow> b64decode s
     | PBytes b \<Rightarrow> a2b_base64 0 0 0 0 (map unat b)
     | _ \<Rightarrow> Inl (Exn TypeError (lit ''argument should be a bytes-like object or ASCII string, not ''
              @ quoted (type_name v))))"

section \<open>bytes.decode()\<close>

text \<open>The \<^verbatim>\<open>UnicodeDecodeError\<close> of strict UTF-8: where it happens, how many bytes it names, and why.\<close>

datatype utf8_fault = BadStart | BadCont nat | Truncated nat

definition second_ok :: "nat \<Rightarrow> nat \<Rightarrow> bool" where
  "second_ok a b \<longleftrightarrow> is_cont b \<and> (a = 0xE0 \<longrightarrow> 0xA0 \<le> b) \<and> (a = 0xED \<longrightarrow> b < 0xA0)
     \<and> (a = 0xF0 \<longrightarrow> 0x90 \<le> b) \<and> (a = 0xF4 \<longrightarrow> b < 0x90)"

fun cont_fault :: "nat \<Rightarrow> nat \<Rightarrow> nat list \<Rightarrow> utf8_fault option" where
  "cont_fault k 0 r = None"
| "cont_fault k (Suc n) [] = Some (Truncated k)"
| "cont_fault k (Suc n) (b # r) = (if is_cont b then cont_fault (Suc k) n r else Some (BadCont k))"

definition lead_fault :: "nat \<Rightarrow> nat list \<Rightarrow> utf8_fault option" where
  "lead_fault a r =
     (if a < 0x80 then None
      else if a < 0xC2 \<or> 0xF4 < a then Some BadStart
      else case r of
             [] \<Rightarrow> Some (Truncated 1)
           | b # r' \<Rightarrow> if \<not> second_ok a b then Some (BadCont 1)
                       else cont_fault 2 (if a < 0xE0 then 0 else if a < 0xF0 then 1 else 2) r')"

definition lead_len :: "nat \<Rightarrow> nat" where
  "lead_len a = (if a < 0x80 then 1 else if a < 0xE0 then 2 else if a < 0xF0 then 3 else 4)"

function decode_fault :: "nat \<Rightarrow> nat list \<Rightarrow> (nat \<times> nat \<times> utf8_fault) option" where
  "decode_fault i [] = None"
| "decode_fault i (a # r) =
     (case lead_fault a r of
        Some f \<Rightarrow> Some (i, a, f)
      | None \<Rightarrow> decode_fault (i + lead_len a) (drop (lead_len a) (a # r)))"
  by pat_completeness auto
termination
  by (relation "measure (\<lambda>(i, s). length s)") (auto simp: lead_len_def)

definition decode_error :: "bytes \<Rightarrow> pyexn" where
  "decode_error bs =
     (let pre = quoted (lit ''utf-8'') @ lit '' codec can'' @ [39] @ lit ''t decode '';
          one = (\<lambda>i a why. pre @ lit ''byte 0x'' @ hex2 a @ lit '' in position '' @ show_nat i @ lit '': '' @ lit why);
          more = (\<lambda>i k why. pre @ lit ''bytes in position '' @ show_nat i @ [45] @ show_nat (i + k - 1) @ lit '': '' @ lit why)
      in Exn UnicodeDecodeError (case decode_fault 0 (map unat bs) of
             Some (i, a, BadStart) \<Rightarrow> one i a ''invalid start byte''
           | Some (i, a, BadCont k) \<Rightarrow>
               if k = 1 then one i a ''invalid continuation byte'' else more i k ''invalid continuation byte''
           | Some (i, a, Truncated k) \<Rightarrow>
               if k = 1 then one i a ''unexpected end of data'' else more i k ''unexpected end of data''
           | None \<Rightarrow> []))"

definition py_decode :: "bytes \<Rightarrow> pystr res" where
  "py_decode bs = (case bytes_decode bs of Some s \<Rightarrow> Inr s | None \<Rightarrow> Inl (decode_error bs))"

lemma py_decode_encode: "list_all valid_cp s \<Longrightarrow> str_encode s = Inr bs \<Longrightarrow> py_decode bs = Inr s"
  using bytes_decode_str_encode [of s] by (auto simp: py_decode_def)

text \<open>Whatever is encoded without an exception decodes to the same text (code points are below U+110000).\<close>

lemma py_decode_encode': "list_all (\<lambda>c. c < 0x110000) s \<Longrightarrow> str_encode s = Inr bs \<Longrightarrow> py_decode bs = Inr s"
  by (rule py_decode_encode)
    (auto simp: str_encode_def valid_cp_def list_all_iff list_ex_iff split: if_splits)

end
