(* ===== verification/Py_Path.thy ===== *)
theory Py_Path
  imports Py_Value
begin

text \<open>
  \<^verbatim>\<open>os.path\<close> on POSIX text paths, as the services use it, and \<^verbatim>\<open>realpath\<close> of a file system whose
  symbolic links are given.
\<close>

section \<open>join, dirname, basename\<close>

definition path_join :: "pystr \<Rightarrow> pystr \<Rightarrow> pystr" where
  "path_join a b =
     (if starts_with b [47] then b
      else if a = [] \<or> last a = 47 then a @ b
      else a @ [47] @ b)"

definition path_basename :: "pystr \<Rightarrow> pystr" where
  "path_basename p = last (split_on 47 p)"

definition path_dirname :: "pystr \<Rightarrow> pystr" where
  "path_dirname p =
     (let head = take (length p - length (path_basename p)) p;
          stripped = rev (dropWhile (\<lambda>c. c = 47) (rev head))
      in if stripped = [] then head else stripped)"

lemma length_path_basename: "length (path_basename p) \<le> length p"
proof -
  have "length (join_with [47 :: nat] ps) \<ge> length (last ps)" if "ps \<noteq> []" for ps
    using that by (induction ps rule: induct_list012) auto
  from this [of "split_on 47 p"] show ?thesis by (simp add: path_basename_def)
qed

lemma path_join_dir: "dir \<noteq> [] \<Longrightarrow> last dir \<noteq> 47 \<Longrightarrow> \<not> starts_with b [47] \<Longrightarrow> path_join dir b = dir @ [47] @ b"
  by (simp add: path_join_def)

section \<open>realpath\<close>

text \<open>
  Absolute paths are lists of segments. \<open>links\<close> gives the target text of the symbolic links of the
  file system. The table \<open>seen\<close> holds the links met so far, \<open>None\<close> while one is being
  resolved; a link met again while it is being resolved is a loop, and the rest of the path is
  appended unresolved. The fuel counts nested link resolutions: each level has a link of its own
  being resolved, so \<open>length links\<close> levels and one more are enough.
\<close>

type_synonym segs = "pystr list"
type_synonym links = "(segs \<times> pystr) list"
type_synonym seen = "(segs \<times> segs option) list"

definition text_segs :: "pystr \<Rightarrow> segs" where
  "text_segs s = filter (\<lambda>x. x \<noteq> [] \<and> x \<noteq> [46]) (split_on 47 s)"

fun realpath_loop :: "links \<Rightarrow> nat \<Rightarrow> segs \<Rightarrow> segs \<Rightarrow> seen \<Rightarrow> (segs \<times> bool) \<times> seen" where
  "realpath_loop links n path [] seen = ((path, True), seen)"
| "realpath_loop links n path (name # rest) seen =
     (if name = [46, 46] then realpath_loop links n (butlast path) rest seen
      else let newpath = path @ [name] in
      case map_of links newpath of
        None \<Rightarrow> realpath_loop links n newpath rest seen
      | Some target \<Rightarrow>
          (case map_of seen newpath of
             Some (Some p) \<Rightarrow> realpath_loop links n p rest seen
           | Some None \<Rightarrow> ((newpath @ rest, False), seen)
           | None \<Rightarrow>
               (case n of
                  0 \<Rightarrow> ((newpath @ rest, False), seen)
                | Suc n' \<Rightarrow>
                    (let start = (if starts_with target [47] then [] else path);
                         ((p, ok), seen') = realpath_loop links n' start (text_segs target) ((newpath, None) # seen)
                     in if \<not> ok then ((p @ rest, False), seen')
                        else realpath_loop links n p rest ((newpath, Some p) # seen')))))"

text \<open>\<^verbatim>\<open>abspath\<close> of an absolute path: \<^verbatim>\<open>normpath\<close> takes \<^verbatim>\<open>..\<close> out lexically.\<close>

definition norm_segs :: "segs \<Rightarrow> segs" where
  "norm_segs ss = foldl (\<lambda>acc x. if x = [46, 46] then butlast acc else acc @ [x]) [] ss"

definition segs_text :: "segs \<Rightarrow> pystr" where
  "segs_text ss = [47] @ join_with [47] ss"

definition realpath_segs :: "links \<Rightarrow> pystr \<Rightarrow> segs" where
  "realpath_segs links p = norm_segs (fst (fst (realpath_loop links (Suc (length links)) [] (text_segs p) [])))"

definition realpath :: "links \<Rightarrow> pystr \<Rightarrow> pystr" where
  "realpath links p = segs_text (realpath_segs links p)"

section \<open>The fuel of realpath is enough\<close>

abbreviation keys :: "('k \<times> 'v) list \<Rightarrow> 'k set" where
  "keys xs \<equiv> fst ` set xs"

lemma realpath_seen_mono: "realpath_loop links n path rest seen = (r, seen') \<Longrightarrow> keys seen \<subseteq> keys seen'"
proof (induction links n path rest seen arbitrary: r seen' rule: realpath_loop.induct)
  case (2 links n path name rest seen)
  show ?case
  proof (cases "name = [46, 46] \<or> map_of links (path @ [name]) = None \<or> map_of seen (path @ [name]) \<noteq> None \<or> n = 0")
    case True
    with 2 show ?thesis
      by (auto simp: Let_def split: if_splits option.splits nat.splits)
  next
    case False
    then obtain target n' where c: "name \<noteq> [46, 46]" "map_of links (path @ [name]) = Some target"
      "map_of seen (path @ [name]) = None" "n = Suc n'" by (cases n) auto
    let ?start = "if starts_with target [47] then [] else path"
    obtain p ok s1 where r1: "realpath_loop links n' ?start (text_segs target) ((path @ [name], None) # seen) = ((p, ok), s1)"
      by (metis prod.exhaust)
    have k1: "keys seen \<subseteq> keys s1"
      using "2.IH"(3) [OF c(1) refl c(2,3,4) refl r1] by simp
    show ?thesis
    proof (cases ok)
      case False
      with "2.prems" c r1 k1 show ?thesis by simp
    next
      case True
      with "2.prems" c r1 have "realpath_loop links n p rest ((path @ [name], Some p) # s1) = (r, seen')" by simp
      then have "keys ((path @ [name], Some p) # s1) \<subseteq> keys seen'"
        using True by (intro "2.IH"(4) [OF c(1) refl c(2,3,4) refl r1 [symmetric] refl]) auto
      with k1 show ?thesis by auto
    qed
  qed
qed simp

abbreviation unseen :: "links \<Rightarrow> seen \<Rightarrow> nat" where
  "unseen links seen \<equiv> card (keys links - keys seen)"

lemma unseen_mono: "keys seen \<subseteq> keys seen' \<Longrightarrow> unseen links seen' \<le> unseen links seen"
  by (intro card_mono) auto

lemma unseen_insert:
  assumes "map_of links x = Some t" "map_of seen x = None"
  shows "unseen links seen = Suc (unseen links ((x, v) # seen))"
proof -
  have "x \<in> keys links" using map_of_SomeD [OF assms(1)] by force
  moreover have "x \<notin> keys seen" using assms(2) by (simp add: map_of_eq_None_iff)
  ultimately have "keys links - keys seen = insert x (keys links - keys ((x, v) # seen))" by auto
  moreover have "x \<notin> keys links - keys ((x, v) # seen)" "finite (keys links - keys ((x, v) # seen))" by simp_all
  ultimately show ?thesis by (metis card_insert_disjoint)
qed

lemma realpath_fuel_link:
  assumes inner: "\<And>n' m'. n = Suc n' \<Longrightarrow> unseen links ((path @ [name], None) # seen) \<le> n' \<Longrightarrow>
        unseen links ((path @ [name], None) # seen) \<le> m' \<Longrightarrow>
        realpath_loop links n' start (text_segs target) ((path @ [name], None) # seen)
          = realpath_loop links m' start (text_segs target) ((path @ [name], None) # seen)"
    and outer: "\<And>n' p s1. n = Suc n' \<Longrightarrow>
        realpath_loop links n' start (text_segs target) ((path @ [name], None) # seen) = ((p, True), s1) \<Longrightarrow>
        unseen links ((path @ [name], Some p) # s1) \<le> n \<Longrightarrow>
        unseen links ((path @ [name], Some p) # s1) \<le> m \<Longrightarrow>
        realpath_loop links n p rest ((path @ [name], Some p) # s1) = realpath_loop links m p rest ((path @ [name], Some p) # s1)"
    and le: "unseen links seen \<le> n" "unseen links seen \<le> m"
    and c: "name \<noteq> [46, 46]" "map_of links (path @ [name]) = Some target" "map_of seen (path @ [name]) = None"
    and start: "start = (if starts_with target [47] then [] else path)"
  shows "realpath_loop links n path (name # rest) seen = realpath_loop links m path (name # rest) seen"
proof -
  let ?new = "path @ [name]"
  note u = unseen_insert [OF c(2,3)]
  have "0 < n" "0 < m" using le u [of None] by linarith+
  then obtain n' m' where nm: "n = Suc n'" "m = Suc m'" using gr0_implies_Suc by blast
  obtain p ok s1 where r1: "realpath_loop links n' start (text_segs target) ((?new, None) # seen) = ((p, ok), s1)"
    by (metis prod.exhaust)
  have "realpath_loop links n' start (text_segs target) ((?new, None) # seen)
      = realpath_loop links m' start (text_segs target) ((?new, None) # seen)"
    by (rule inner [OF nm(1)]) (use le nm u [of None] in linarith)+
  with r1 have r2: "realpath_loop links m' start (text_segs target) ((?new, None) # seen) = ((p, ok), s1)" by metis
  have "keys seen \<subseteq> keys ((?new, Some p) # s1)" using realpath_seen_mono [OF r1] by auto
  from unseen_mono [OF this, of links] le
  have "realpath_loop links n p rest ((?new, Some p) # s1) = realpath_loop links m p rest ((?new, Some p) # s1)" if ok
    using that r1 by (intro outer [OF nm(1)]) simp_all
  with c nm r1 r2 start show ?thesis by (simp add: Let_def)
qed

lemma realpath_fuel:
  "unseen links seen \<le> n \<Longrightarrow> unseen links seen \<le> m \<Longrightarrow>
     realpath_loop links n path rest seen = realpath_loop links m path rest seen"
proof (induction links n path rest seen arbitrary: m rule: realpath_loop.induct)
  case (2 links n path name rest seen)
  let ?new = "path @ [name]"
  show ?case
  proof (cases "name = [46, 46]")
    case True
    with "2.IH"(1) [OF True "2.prems"] show ?thesis by simp
  next
    case dots: False
    show ?thesis
    proof (cases "map_of links ?new")
      case None
      with dots "2.IH"(2) [OF dots refl None "2.prems"] show ?thesis by simp
    next
      case (Some target)
      show ?thesis
      proof (cases "map_of seen ?new")
        case None
        show ?thesis
        proof (rule realpath_fuel_link [OF _ _ "2.prems" dots Some None refl])
          fix n' p s1
          let ?start = "if starts_with target [47] then [] else path"
          assume n: "n = Suc n'" and r: "realpath_loop links n' ?start (text_segs target) ((?new, None) # seen) = ((p, True), s1)"
            and le: "unseen links ((?new, Some p) # s1) \<le> n" "unseen links ((?new, Some p) # s1) \<le> m"
          show "realpath_loop links n p rest ((?new, Some p) # s1) = realpath_loop links m p rest ((?new, Some p) # s1)"
            by (rule "2.IH"(4) [OF dots refl Some None n refl refl r [symmetric] refl _ le]) simp
        next
          fix n' m'
          let ?start = "if starts_with target [47] then [] else path"
          assume n: "n = Suc n'" and le: "unseen links ((?new, None) # seen) \<le> n'" "unseen links ((?new, None) # seen) \<le> m'"
          show "realpath_loop links n' ?start (text_segs target) ((?new, None) # seen)
              = realpath_loop links m' ?start (text_segs target) ((?new, None) # seen)"
            by (rule "2.IH"(3) [OF dots refl Some None n refl le])
        qed
      next
        case known: (Some r)
        show ?thesis
        proof (cases r)
          case None
          with dots Some known show ?thesis by simp
        next
          case (Some q)
          with dots \<open>map_of links ?new = Some target\<close> known "2.IH"(5) [OF dots refl \<open>map_of links ?new = Some target\<close> known Some "2.prems"]
          show ?thesis by simp
        qed
      qed
    qed
  qed
qed simp
text \<open>More fuel than one unit per symbolic link never changes the result.\<close>

lemma realpath_fuel_enough:
  assumes "length links \<le> n"
  shows "realpath_loop links n [] ss [] = realpath_loop links (Suc (length links)) [] ss []"
proof -
  have "unseen links [] \<le> length links"
    by (metis card_image_le card_length Diff_empty List.finite_set image_empty list.set(1) order_trans)
  with assms show ?thesis by (intro realpath_fuel) auto
qed

section \<open>realpath below a directory without links\<close>

text \<open>Where no link is met, \<^verbatim>\<open>realpath\<close> is the lexical normal form.\<close>

lemma norm_segs_plain: "[46, 46] \<notin> set ss \<Longrightarrow> norm_segs ss = ss"
proof -
  have "foldl (\<lambda>acc x. if x = [46, 46] then butlast acc else acc @ [x]) path ss = path @ ss"
    if "[46, 46] \<notin> set ss" for path
    using that by (induction ss arbitrary: path) auto
  then show "[46, 46] \<notin> set ss \<Longrightarrow> norm_segs ss = ss" by (simp add: norm_segs_def)
qed

lemma realpath_loop_plain:
  assumes "[46, 46] \<notin> set ss" "\<And>k. k \<le> length ss \<Longrightarrow> 0 < k \<Longrightarrow> map_of links (path @ take k ss) = None"
  shows "realpath_loop links n path ss seen = ((path @ ss, True), seen)"
  using assms
proof (induction ss arbitrary: path)
  case (Cons s ss)
  have "map_of links (path @ [s]) = None" using Cons.prems(2) [of 1] by simp
  moreover have "realpath_loop links n (path @ [s]) ss seen = (((path @ [s]) @ ss, True), seen)"
  proof (rule Cons.IH)
    show "map_of links ((path @ [s]) @ take k ss) = None" if "k \<le> length ss" "0 < k" for k
      using Cons.prems(2) [of "Suc k"] that by simp
  qed (use Cons.prems(1) in simp)
  ultimately show ?case using Cons.prems(1) by auto
qed simp

end
