(* ===== verification/Config.thy ===== *)
theory Config
  imports Py_Value
begin

text \<open>
  \<^verbatim>\<open>config.py\<close>: the constants of the enclave, read once from the environment when the module is
  imported. \<open>load_config\<close> evaluates the assignments in the order of the file and raises at the
  first variable that \<^verbatim>\<open>int\<close> refuses. \<^verbatim>\<open>int\<close> is modelled on ASCII text.
\<close>

section \<open>int(text)\<close>

text \<open>Digits, with single underscores allowed between digits.\<close>

fun int_digits :: "pystr \<Rightarrow> pystr option" where
  "int_digits [] = None"
| "int_digits [c] = (if is_digit c then Some [c] else None)"
| "int_digits (c # d # s) =
     (if \<not> is_digit c then None
      else if d = 95 then map_option (\<lambda>ds. c # ds) (int_digits s)
      else map_option (\<lambda>ds. c # ds) (int_digits (d # s)))"

definition py_int :: "(nat \<Rightarrow> bool) \<Rightarrow> pystr \<Rightarrow> int res" where
  "py_int pr s =
     (let t = py_strip s;
          (neg, ds) = (case t of c # r \<Rightarrow> if c = 45 then (True, r) else if c = 43 then (False, r) else (False, t)
                               | [] \<Rightarrow> (False, t))
      in case int_digits ds of
           Some d \<Rightarrow> Inr (if neg then - int (nat_of_digits d) else int (nat_of_digits d))
         | None \<Rightarrow> Inl (Exn ValueError (lit ''invalid literal for int() with base 10: '' @ repr_str pr s)))"

lemma int_digits_digits: "ds \<noteq> [] \<Longrightarrow> list_all is_digit ds \<Longrightarrow> int_digits ds = Some ds"
  by (induction ds rule: int_digits.induct) auto

lemma int_digits_show_nat: "int_digits (show_nat n) = Some (show_nat n)"
  using show_nat_digits by (intro int_digits_digits) (auto simp: list_all_iff)

lemma py_strip_show_int: "py_strip (show_int i) = show_int i"
  using show_nat_digits by (intro py_strip_id) (fastforce simp: show_int_def is_py_space_def split: if_splits)

text \<open>Round trip: reading back a printed integer.\<close>

lemma py_int_show_int [codec_simps]: "py_int pr (show_int i) = Inr i"
proof (cases "i < 0")
  case True
  then have "py_strip (show_int i) = 45 # show_nat (nat (- i))"
    unfolding py_strip_show_int by (simp add: show_int_def)
  with True show ?thesis by (simp add: py_int_def int_digits_show_nat codec_simps)
next
  case False
  obtain c t where c: "show_nat (nat i) = c # t" by (cases "show_nat (nat i)") auto
  then have "is_digit c" using show_nat_digits [of c "nat i"] by simp
  moreover have "py_strip (show_int i) = c # t"
    unfolding py_strip_show_int using False c by (simp add: show_int_def)
  moreover have "int_digits (c # t) = Some (c # t)" "nat_of_digits (c # t) = nat i"
    using int_digits_show_nat [of "nat i"] nat_of_digits_show_nat [of "nat i"] by (simp_all add: c)
  ultimately show ?thesis using False by (simp add: py_int_def)
qed

section \<open>The configuration\<close>

record config =
  VSOCK_PORT :: int
  MAX_REQUEST_SIZE :: int
  LOG_LEVEL :: pystr
  LOG_FORMAT :: pystr
  KMS_REGION :: pystr
  KMS_PROXY_PORT :: int
  KMSTOOL_PATH :: pystr
  EXECUTION_TIMEOUT :: int
  MAX_MEMORY_MB :: int
  MAX_OUTPUT_SIZE_MB :: int
  MAX_OUTPUT_FILES :: int
  MAX_OUTPUT_FILES_MB :: int
  SCRIPT_UID :: int
  SCRIPT_GID :: int
  SESSION_TTL :: int
  CLEANUP_INTERVAL :: int
  CLIENT_RECV_TIMEOUT :: int
  CLIENT_SEND_TIMEOUT :: int
  MAX_ZIP_ENTRIES :: int
  MAX_ZIP_TOTAL_SIZE :: int
  DEFAULT_KEY_SIZE :: int
  ALLOWED_KEY_SIZES :: "int list"
  ALLOW_LOCAL_ATTESTATION :: bool
  ENABLE_KMS_ATTESTATION :: bool
  ENABLE_SCRIPT_VALIDATION :: bool
  ENABLE_RESOURCE_MONITORING :: bool

definition getenv :: "pystr dict \<Rightarrow> string \<Rightarrow> pystr \<Rightarrow> pystr" where
  "getenv env k dflt = dget_or dflt env (lit k)"

definition env_int :: "(nat \<Rightarrow> bool) \<Rightarrow> pystr dict \<Rightarrow> string \<Rightarrow> int \<Rightarrow> int res" where
  "env_int pr env k dflt = py_int pr (getenv env k (show_int dflt))"

definition env_flag :: "pystr dict \<Rightarrow> string \<Rightarrow> string \<Rightarrow> bool" where
  "env_flag env k dflt \<longleftrightarrow> lower_ascii (getenv env k (lit dflt)) = lit ''true''"

definition load_config :: "(nat \<Rightarrow> bool) \<Rightarrow> pystr dict \<Rightarrow> config res" where
  "load_config pr env =
     rbind (env_int pr env ''VSOCK_PORT'' 5005) (\<lambda>vsock_port.
     rbind (env_int pr env ''MAX_REQUEST_SIZE'' (200 * 1024 * 1024)) (\<lambda>max_request_size.
     rbind (env_int pr env ''KMS_PROXY_PORT'' 8000) (\<lambda>kms_proxy_port.
     rbind (env_int pr env ''EXECUTION_TIMEOUT'' 300) (\<lambda>execution_timeout.
     rbind (env_int pr env ''MAX_MEMORY_MB'' 512) (\<lambda>max_memory_mb.
     rbind (env_int pr env ''MAX_OUTPUT_SIZE_MB'' 50) (\<lambda>max_output_size_mb.
     rbind (env_int pr env ''MAX_OUTPUT_FILES'' 20) (\<lambda>max_output_files.
     rbind (env_int pr env ''MAX_OUTPUT_FILES_MB'' 10) (\<lambda>max_output_files_mb.
     rbind (env_int pr env ''SCRIPT_UID'' 65534) (\<lambda>script_uid.
     rbind (env_int pr env ''SCRIPT_GID'' 65534) (\<lambda>script_gid.
     rbind (env_int pr env ''SESSION_TTL'' 3600) (\<lambda>session_ttl.
     rbind (env_int pr env ''CLEANUP_INTERVAL'' 300) (\<lambda>cleanup_interval.
     rbind (env_int pr env ''CLIENT_RECV_TIMEOUT'' 300) (\<lambda>client_recv_timeout.
     rbind (env_int pr env ''CLIENT_SEND_TIMEOUT'' 60) (\<lambda>client_send_timeout.
     rbind (env_int pr env ''MAX_ZIP_ENTRIES'' 500) (\<lambda>max_zip_entries.
     rbind (env_int pr env ''MAX_ZIP_TOTAL_SIZE'' (200 * 1024 * 1024)) (\<lambda>max_zip_total_size.
     rbind (env_int pr env ''DEFAULT_KEY_SIZE'' 2048) (\<lambda>default_key_size.
     Inr \<lparr>VSOCK_PORT = vsock_port, MAX_REQUEST_SIZE = max_request_size,
       LOG_LEVEL = getenv env ''LOG_LEVEL'' (lit ''INFO''),
       LOG_FORMAT = getenv env ''LOG_FORMAT'' (lit ''%(asctime)s - %(name)s - %(levelname)s - %(message)s''),
       KMS_REGION = getenv env ''KMS_REGION'' (lit ''ap-southeast-2''),
       KMS_PROXY_PORT = kms_proxy_port,
       KMSTOOL_PATH = getenv env ''KMSTOOL_PATH'' (lit ''/app/kmstool_enclave_cli''),
       EXECUTION_TIMEOUT = execution_timeout, MAX_MEMORY_MB = max_memory_mb,
       MAX_OUTPUT_SIZE_MB = max_output_size_mb, MAX_OUTPUT_FILES = max_output_files,
       MAX_OUTPUT_FILES_MB = max_output_files_mb, SCRIPT_UID = script_uid, SCRIPT_GID = script_gid,
       SESSION_TTL = session_ttl, CLEANUP_INTERVAL = cleanup_interval,
       CLIENT_RECV_TIMEOUT = client_recv_timeout, CLIENT_SEND_TIMEOUT = client_send_timeout,
       MAX_ZIP_ENTRIES = max_zip_entries, MAX_ZIP_TOTAL_SIZE = max_zip_total_size,
       DEFAULT_KEY_SIZE = default_key_size, ALLOWED_KEY_SIZES = [2048, 3072, 4096],
       ALLOW_LOCAL_ATTESTATION = env_flag env ''ALLOW_LOCAL_ATTESTATION'' ''false'',
       ENABLE_KMS_ATTESTATION = env_flag env ''ENABLE_KMS_ATTESTATION'' ''true'',
       ENABLE_SCRIPT_VALIDATION = env_flag env ''ENABLE_SCRIPT_VALIDATION'' ''true'',
       ENABLE_RESOURCE_MONITORING = env_flag env ''ENABLE_RESOURCE_MONITORING'' ''false''\<rparr>)))))))))))))))))"

text \<open>The defaults of the file: what an empty environment gives.\<close>

definition default_config :: config where
  "default_config = \<lparr>VSOCK_PORT = 5005, MAX_REQUEST_SIZE = 209715200,
       LOG_LEVEL = lit ''INFO'', LOG_FORMAT = lit ''%(asctime)s - %(name)s - %(levelname)s - %(message)s'',
       KMS_REGION = lit ''ap-southeast-2'', KMS_PROXY_PORT = 8000, KMSTOOL_PATH = lit ''/app/kmstool_enclave_cli'',
       EXECUTION_TIMEOUT = 300, MAX_MEMORY_MB = 512, MAX_OUTPUT_SIZE_MB = 50, MAX_OUTPUT_FILES = 20,
       MAX_OUTPUT_FILES_MB = 10, SCRIPT_UID = 65534, SCRIPT_GID = 65534, SESSION_TTL = 3600, CLEANUP_INTERVAL = 300,
       CLIENT_RECV_TIMEOUT = 300, CLIENT_SEND_TIMEOUT = 60, MAX_ZIP_ENTRIES = 500, MAX_ZIP_TOTAL_SIZE = 209715200,
       DEFAULT_KEY_SIZE = 2048, ALLOWED_KEY_SIZES = [2048, 3072, 4096], ALLOW_LOCAL_ATTESTATION = False,
       ENABLE_KMS_ATTESTATION = True, ENABLE_SCRIPT_VALIDATION = True, ENABLE_RESOURCE_MONITORING = False\<rparr>"

lemma env_int_unset: "dget env (lit k) = None \<Longrightarrow> env_int pr env k d = Inr d"
  by (simp add: env_int_def getenv_def dget_or_def codec_simps)

lemma env_int_set: "dget env (lit k) = Some (show_int i) \<Longrightarrow> env_int pr env k d = Inr i"
  by (simp add: env_int_def getenv_def dget_or_def codec_simps)

lemma load_config_default: "load_config pr [] = Inr default_config"
  by (simp add: load_config_def env_int_unset default_config_def env_flag_def getenv_def dget_or_def
      lower_ascii_def lit_def)

text \<open>The key sizes never depend on the environment, and local attestation needs an explicit opt-in.\<close>

lemma load_config_fixed:
  assumes "load_config pr env = Inr cfg"
  shows "ALLOWED_KEY_SIZES cfg = [2048, 3072, 4096]"
    and "dget env (lit ''ALLOW_LOCAL_ATTESTATION'') = None \<Longrightarrow> \<not> ALLOW_LOCAL_ATTESTATION cfg"
  using assms by (auto simp: load_config_def rbind_eq_Inr_iff env_flag_def getenv_def dget_or_def lower_ascii_def lit_def)

end
