(* ===== verification/Bundle_Zip.thy ===== *)
theory Bundle_Zip
  imports Output_Files Py_Path Config "HOL-Library.Sublist"
begin

text \<open>
  Extraction of the script bundle (\<^verbatim>\<open>_safe_extract_zip\<close> of \<^verbatim>\<open>implementations/execute_service_impl.py\<close>) and the
  part of \<^verbatim>\<open>zipfile.ZipFile.extractall\<close> that decides where every entry lands. The byte format of an
  archive (central directory, inflate, CRC) is a parameter: \<open>zip_open\<close> gives the entries of an archive,
  each with the size its header declares, what opening it raises, and the bytes its stream decompresses
  to or the exception raised on the way. Reading an entry stops at the declared size, as \<^verbatim>\<open>ZipExtFile\<close> does. A file system fault
  such as a full disk is not modelled.
\<close>

record zip_entry =
  ze_name :: pystr
  ze_size :: nat
  ze_open :: "unit res"
  ze_stream :: "bytes res"

section \<open>Directory trees\<close>

text \<open>\<^verbatim>\<open>str(e)\<close> of an \<^verbatim>\<open>OSError\<close> with a path.\<close>

definition os_error :: "(nat \<Rightarrow> bool) \<Rightarrow> nat \<Rightarrow> string \<Rightarrow> pystr \<Rightarrow> pyexn" where
  "os_error pr errno msg path =
     Exn OSError (lit ''[Errno '' @ show_nat errno @ lit ''] '' @ lit msg @ lit '': '' @ repr_str pr path)"

text \<open>The directories below \<open>base\<close> on the way to \<open>segs\<close> are created where they are missing. Below
  a regular file the path one step further is the one the error names.\<close>

fun make_dirs :: "(nat \<Rightarrow> bool) \<Rightarrow> pystr \<Rightarrow> segs \<Rightarrow> dir_entries \<Rightarrow> dir_entries res" where
  "make_dirs pr base [] es = Inr es"
| "make_dirs pr base (s # ss) es =
     (case dget es s of
        None \<Rightarrow> rbind (make_dirs pr (base @ [47] @ s) ss []) (\<lambda>sub. Inr (dset s (FDir sub) es))
      | Some (FDir sub0) \<Rightarrow> rbind (make_dirs pr (base @ [47] @ s) ss sub0) (\<lambda>sub. Inr (dset s (FDir sub) es))
      | Some _ \<Rightarrow>
          (case ss of
             [] \<Rightarrow> Inl (os_error pr 17 ''File exists'' (base @ [47] @ s))
           | s' # _ \<Rightarrow> Inl (os_error pr 20 ''Not a directory'' (base @ [47] @ s @ [47] @ s'))))"

text \<open>\<^verbatim>\<open>open(path, 'wb')\<close> and the write, the directories of the path being created first.\<close>

fun write_file :: "(nat \<Rightarrow> bool) \<Rightarrow> pystr \<Rightarrow> segs \<Rightarrow> bytes \<Rightarrow> dir_entries \<Rightarrow> dir_entries res" where
  "write_file pr base [] content es = Inl (os_error pr 21 ''Is a directory'' base)"
| "write_file pr base [s] content es =
     (case dget es s of
        Some (FDir _) \<Rightarrow> Inl (os_error pr 21 ''Is a directory'' (base @ [47] @ s))
      | _ \<Rightarrow> Inr (dset s (FFile content) es))"
| "write_file pr base (s # s' # ss) content es =
     (case dget es s of
        None \<Rightarrow> rbind (write_file pr (base @ [47] @ s) (s' # ss) content []) (\<lambda>sub. Inr (dset s (FDir sub) es))
      | Some (FDir sub0) \<Rightarrow>
          rbind (write_file pr (base @ [47] @ s) (s' # ss) content sub0) (\<lambda>sub. Inr (dset s (FDir sub) es))
      | Some _ \<Rightarrow> Inl (os_error pr 20 ''Not a directory'' (base @ [47] @ s @ [47] @ s')))"

section \<open>extractall\<close>

text \<open>The path components that \<^verbatim>\<open>ZipFile._extract_member\<close> keeps.\<close>

definition member_segs :: "pystr \<Rightarrow> segs" where
  "member_segs filename = filter (\<lambda>x. x \<noteq> [] \<and> x \<noteq> [46] \<and> x \<noteq> [46, 46]) (split_on 47 filename)"

definition entry_bytes :: "zip_entry \<Rightarrow> bytes res" where
  "entry_bytes e = rbind (ze_stream e) (\<lambda>bs. Inr (take (ze_size e) bs))"

text \<open>The parent directories come first, unless they exist; then an entry whose name ends in a slash
  is a directory, and any other is opened, its target created, and its bytes copied.\<close>

definition extract_member :: "(nat \<Rightarrow> bool) \<Rightarrow> pystr \<Rightarrow> zip_entry \<Rightarrow> dir_entries \<Rightarrow> dir_entries res" where
  "extract_member pr dest e es =
     (let segs = member_segs (ze_name e); upper = butlast segs in
      rbind (if node_lookup (FDir es) upper = None then make_dirs pr dest upper es else Inr es) (\<lambda>es1.
      if ze_name e = [] then Inl (Exn OtherError (lit ''string index out of range''))
      else if last (ze_name e) = 47 then make_dirs pr dest segs es1
      else rbind (ze_open e) (\<lambda>_.
           rbind (write_file pr dest segs [] es1) (\<lambda>_.
           rbind (entry_bytes e) (\<lambda>bs. write_file pr dest segs bs es1)))))"

text \<open>The names are extracted in order; a name that occurs twice stands for its last entry.\<close>

definition last_entry :: "zip_entry list \<Rightarrow> pystr \<Rightarrow> zip_entry option" where
  "last_entry entries name = find (\<lambda>e. ze_name e = name) (rev entries)"

definition extractall :: "(nat \<Rightarrow> bool) \<Rightarrow> pystr \<Rightarrow> zip_entry list \<Rightarrow> dir_entries \<Rightarrow> dir_entries res" where
  "extractall pr dest entries es =
     rfold (\<lambda>name es. case last_entry entries name of Some e \<Rightarrow> extract_member pr dest e es | None \<Rightarrow> Inr es)
       (map ze_name entries) es"

section \<open>_safe_extract_zip\<close>

definition inside :: "links \<Rightarrow> pystr \<Rightarrow> pystr \<Rightarrow> bool" where
  "inside links dest_dir filename \<longleftrightarrow>
     (let target = realpath links (path_join dest_dir filename)
      in starts_with target (realpath links dest_dir @ [47]) \<or> target = realpath links dest_dir)"

text \<open>\<open>Inr (Some msg)\<close> is the error message the function returns, \<open>Inr None\<close> its success; the
  tree of the destination is returned with it.\<close>

definition safe_extract_zip ::
    "config \<Rightarrow> (nat \<Rightarrow> bool) \<Rightarrow> links \<Rightarrow> (bytes \<Rightarrow> zip_entry list res) \<Rightarrow> bytes \<Rightarrow> pystr \<Rightarrow> (pystr + dir_entries) res" where
  "safe_extract_zip cfg pr links zip_open bundle_data dest_dir =
     (let r = rbind (zip_open bundle_data) (\<lambda>entries.
        let total_size = sum_list (map ze_size entries) in
        if int (length entries) > MAX_ZIP_ENTRIES cfg
        then Inr (Inl (lit ''ZIP contains too many entries ('' @ show_nat (length entries) @ lit '' > ''
               @ show_int (MAX_ZIP_ENTRIES cfg) @ lit '')''))
        else if int total_size > MAX_ZIP_TOTAL_SIZE cfg
        then Inr (Inl (lit ''ZIP uncompressed size too large ('' @ show_nat total_size @ lit '' > ''
               @ show_int (MAX_ZIP_TOTAL_SIZE cfg) @ lit '')''))
        else case find (\<lambda>e. \<not> inside links dest_dir (ze_name e)) entries of
               Some e \<Rightarrow> Inr (Inl (lit ''ZIP path traversal detected: '' @ ze_name e))
             | None \<Rightarrow> rbind (extractall pr dest_dir entries []) (\<lambda>es. Inr (Inr es)))
      in case r of
           Inl (Exn BadZipFile msg) \<Rightarrow> Inr (Inl (lit ''Invalid ZIP file: '' @ msg))
         | _ \<Rightarrow> r)"

section \<open>What an accepted bundle extracts to\<close>

text \<open>The trees extraction can build: directories and regular files, with proper names only.\<close>

definition seg_ok :: "pystr \<Rightarrow> bool" where
  "seg_ok s \<longleftrightarrow> s \<noteq> [] \<and> s \<noteq> [46] \<and> s \<noteq> [46, 46] \<and> 47 \<notin> set s"

fun bundle_node :: "fnode \<Rightarrow> bool" where
  "bundle_node (FDir es) = (distinct (map fst es) \<and> list_all (\<lambda>(e, x). seg_ok e \<and> bundle_node x) es)"
| "bundle_node (FFile c) = True"
| "bundle_node _ = False"

lemma bundle_node_wf: "bundle_node x \<Longrightarrow> node_wf x"
  by (induction x rule: bundle_node.induct) (auto simp: list_all_iff seg_ok_def)

lemma bundle_node_clean: "bundle_node x \<Longrightarrow> node_clean x"
  by (induction x rule: bundle_node.induct) (auto simp: list_all_iff)

lemma bundle_dset:
  assumes "bundle_node (FDir es)" "seg_ok s" "bundle_node x"
  shows "bundle_node (FDir (dset s x es))"
proof -
  have "set (dset s x es) \<subseteq> insert (s, x) (set es)" by (induction es) auto
  with assms show ?thesis by (auto simp: list_all_iff)
qed

lemma bundle_dget: "bundle_node (FDir es) \<Longrightarrow> dget es s = Some x \<Longrightarrow> bundle_node x"
  by (auto simp: list_all_iff dest!: map_of_SomeD)

lemma make_dirs_bundle:
  "make_dirs pr base ss es = Inr es' \<Longrightarrow> list_all seg_ok ss \<Longrightarrow> bundle_node (FDir es) \<Longrightarrow> bundle_node (FDir es')"
proof (induction pr base ss es arbitrary: es' rule: make_dirs.induct)
  case (2 pr base s ss es)
  have "bundle_node (FDir [])" by simp
  with 2 show ?case
    by (auto simp del: bundle_node.simps simp: rbind_eq_Inr_iff intro!: bundle_dset dest: bundle_dget
        split: option.splits fnode.splits list.splits)
qed simp

lemma write_file_bundle:
  "write_file pr base ss c es = Inr es' \<Longrightarrow> list_all seg_ok ss \<Longrightarrow> bundle_node (FDir es) \<Longrightarrow> bundle_node (FDir es')"
proof (induction pr base ss c es arbitrary: es' rule: write_file.induct)
  case (2 pr base s c es)
  have "bundle_node (FFile c)" by simp
  with 2 show ?case
    by (auto simp del: bundle_node.simps intro!: bundle_dset split: option.splits fnode.splits)
next
  case (3 pr base s s' ss c es)
  have "bundle_node (FDir [])" by simp
  with 3 show ?case
    by (auto simp del: bundle_node.simps simp: rbind_eq_Inr_iff intro!: bundle_dset dest: bundle_dget
        split: option.splits fnode.splits)
qed simp

lemma member_segs_ok: "list_all seg_ok (member_segs name)"
  using split_on_pieces [of _ 47 name] by (auto simp: member_segs_def list_all_iff seg_ok_def)

lemma extract_member_bundle:
  assumes "extract_member pr dest e es = Inr es'" "bundle_node (FDir es)"
  shows "bundle_node (FDir es')"
proof -
  have up: "list_all seg_ok (butlast (member_segs (ze_name e)))"
    using member_segs_ok by (metis in_set_butlastD list_all_iff)
  from assms(1) obtain es1 where e1: "(if node_lookup (FDir es) (butlast (member_segs (ze_name e))) = None
      then make_dirs pr dest (butlast (member_segs (ze_name e))) es else Inr es) = Inr es1"
    and e2: "make_dirs pr dest (member_segs (ze_name e)) es1 = Inr es'
      \<or> (\<exists>bs. write_file pr dest (member_segs (ze_name e)) bs es1 = Inr es')"
    by (fastforce simp: extract_member_def Let_def rbind_eq_Inr_iff split: if_splits)
  from e1 assms(2) up have "bundle_node (FDir es1)"
    using make_dirs_bundle by (auto simp del: bundle_node.simps split: if_splits)
  with e2 member_segs_ok show ?thesis using make_dirs_bundle write_file_bundle by blast
qed

lemma extractall_bundle:
  assumes "extractall pr dest entries [] = Inr es"
  shows "bundle_node (FDir es)"
  using assms unfolding extractall_def
proof (rule rfold_invariant [where P = "\<lambda>es. bundle_node (FDir es)"])
  show "bundle_node (FDir [])" by simp
qed (auto simp del: bundle_node.simps intro: extract_member_bundle split: option.splits)

section \<open>Sizes\<close>

lemma make_dirs_lookup:
  "make_dirs pr base ss es = Inr es' \<Longrightarrow> node_lookup (FDir es') p = Some (FFile c) \<Longrightarrow>
     node_lookup (FDir es) p = Some (FFile c)"
proof (induction pr base ss es arbitrary: es' p rule: make_dirs.induct)
  case (2 pr base s ss es)
  show ?case
  proof (cases p)
    case Nil
    with "2.prems" show ?thesis by simp
  next
    case (Cons q qs)
    have none: "node_lookup (FDir []) xs \<noteq> Some (FFile c)" for xs by (cases xs) auto
    show ?thesis
      using "2.prems" "2.IH" none unfolding Cons
      by (fastforce simp: rbind_eq_Inr_iff split: option.splits fnode.splits list.splits if_splits)
  qed
qed simp

lemma write_file_lookup:
  "write_file pr base ss content es = Inr es' \<Longrightarrow> node_lookup (FDir es') p = Some (FFile c) \<Longrightarrow>
     node_lookup (FDir es) p = Some (FFile c) \<or> p = ss \<and> c = content"
proof (induction pr base ss content es arbitrary: es' p rule: write_file.induct)
  case (2 pr base s content es)
  show ?case
  proof (cases p)
    case (Cons q qs)
    with "2.prems" show ?thesis by (cases qs) (auto split: option.splits fnode.splits if_splits)
  qed (use "2.prems" in auto)
next
  case (3 pr base s s' ss content es)
  show ?case
  proof (cases p)
    case Nil
    with "3.prems" show ?thesis by simp
  next
    case (Cons q qs)
    have none: "node_lookup (FDir []) xs \<noteq> Some (FFile c)" for xs by (cases xs) auto
    show ?thesis
      using "3.prems" "3.IH" none unfolding Cons
      by (fastforce simp: rbind_eq_Inr_iff split: option.splits fnode.splits if_splits)
  qed
qed simp

text \<open>Every file of the extracted tree is at the path of some entry, and no longer than this entry
  declares.\<close>

definition from_entries :: "zip_entry list \<Rightarrow> dir_entries \<Rightarrow> bool" where
  "from_entries entries es \<longleftrightarrow> (\<forall>p c. node_lookup (FDir es) p = Some (FFile c) \<longrightarrow>
     (\<exists>e. last_entry entries (ze_name e) = Some e \<and> member_segs (ze_name e) = p \<and> length c \<le> ze_size e))"

lemma extract_member_from:
  assumes "extract_member pr dest e es = Inr es'" "from_entries entries es" "last_entry entries (ze_name e) = Some e"
  shows "from_entries entries es'"
proof -
  let ?ss = "member_segs (ze_name e)"
  from assms(1) obtain es1 where e1: "es1 = es \<or> make_dirs pr dest (butlast ?ss) es = Inr es1"
    and e2: "make_dirs pr dest ?ss es1 = Inr es' \<or> (\<exists>bs. length bs \<le> ze_size e \<and> write_file pr dest ?ss bs es1 = Inr es')"
    by (fastforce simp: extract_member_def Let_def rbind_eq_Inr_iff entry_bytes_def split: if_splits)
  show ?thesis unfolding from_entries_def
  proof (intro allI impI)
    fix p c assume "node_lookup (FDir es') p = Some (FFile c)"
    with e2 have "node_lookup (FDir es1) p = Some (FFile c) \<or> p = ?ss \<and> length c \<le> ze_size e"
      using make_dirs_lookup write_file_lookup by metis
    with e1 have "node_lookup (FDir es) p = Some (FFile c) \<or> p = ?ss \<and> length c \<le> ze_size e"
      using make_dirs_lookup by metis
    with assms(2,3) show "\<exists>e. last_entry entries (ze_name e) = Some e \<and> member_segs (ze_name e) = p \<and> length c \<le> ze_size e"
      unfolding from_entries_def by blast
  qed
qed

lemma last_entry_name: "last_entry entries n = Some e \<Longrightarrow> ze_name e = n \<and> e \<in> set entries"
  by (auto simp: last_entry_def find_Some_iff) (metis length_rev nth_mem set_rev)

lemma extractall_from:
  assumes "extractall pr dest entries [] = Inr es"
  shows "from_entries entries es"
  using assms unfolding extractall_def
proof (rule rfold_invariant)
  have "node_lookup (FDir []) p \<noteq> Some (FFile c)" for p c by (cases p) auto
  then show "from_entries entries []" by (simp add: from_entries_def)
  show "from_entries entries es''" if "from_entries entries es'"
    "(case last_entry entries n of None \<Rightarrow> Inr es' | Some e \<Rightarrow> extract_member pr dest e es') = Inr es''" for n es' es''
    using that last_entry_name by (fastforce intro: extract_member_from split: option.splits)
qed

text \<open>The declared sizes, each name counted once, are at most the total that is checked.\<close>

lemma sum_last_entries:
  "(\<Sum>e \<in> {e. last_entry entries (ze_name e) = Some e}. ze_size e) \<le> sum_list (map ze_size entries)"
proof -
  let ?L = "{e. last_entry entries (ze_name e) = Some e}"
  have "?L \<subseteq> set entries" using last_entry_name by blast
  then have "sum ze_size ?L \<le> sum ze_size (set entries)" by (intro sum_mono2) auto
  also have "\<dots> \<le> sum_list (map ze_size entries)"
    by (induction entries) (auto simp: sum.insert_if)
  finally show ?thesis .
qed

lemma extracted_bytes:
  assumes "from_entries entries es" "bundle_node (FDir es)"
  shows "sum_list (map (length \<circ> snd) (tree_files [] es)) \<le> sum_list (map ze_size entries)"
proof -
  let ?fs = "tree_files [] es" and ?L = "{e. last_entry entries (ze_name e) = Some e}"
  note wf = bundle_node_wf [OF assms(2)]
  have "\<forall>x \<in> set ?fs. \<exists>e \<in> ?L. member_segs (ze_name e) = split_on 47 (fst x) \<and> length (snd x) \<le> ze_size e"
    using assms(1) tree_files_lookup [OF wf] unfolding from_entries_def by fastforce
  then obtain f where f: "\<And>x. x \<in> set ?fs \<Longrightarrow>
      f x \<in> ?L \<and> member_segs (ze_name (f x)) = split_on 47 (fst x) \<and> length (snd x) \<le> ze_size (f x)" by metis
  have d: "distinct (map fst ?fs)" by (rule distinct_tree_files [OF wf])
  have inj: "inj_on f (set ?fs)"
  proof (rule inj_onI)
    fix x y assume xy: "x \<in> set ?fs" "y \<in> set ?fs" "f x = f y"
    then have "split_on 47 (fst x) = split_on 47 (fst y)" using f by metis
    then have "fst x = fst y" by (metis join_split_on)
    with d xy show "x = y" by (auto simp: distinct_map dest: inj_onD)
  qed
  have fin: "finite ?L" using last_entry_name by (intro finite_subset [of ?L "set entries"]) auto
  have "sum_list (map (length \<circ> snd) ?fs) = (\<Sum>x \<in> set ?fs. (length \<circ> snd) x)"
    using d by (intro sum_list_distinct_conv_sum_set) (simp add: distinct_map)
  also have "\<dots> \<le> (\<Sum>x \<in> set ?fs. ze_size (f x))" using f by (intro sum_mono) simp
  also have "\<dots> = sum ze_size (f ` set ?fs)" using inj by (simp add: sum.reindex)
  also have "\<dots> \<le> sum ze_size ?L" using f fin by (intro sum_mono2) auto
  also have "\<dots> \<le> sum_list (map ze_size entries)" by (rule sum_last_entries)
  finally show ?thesis .
qed

lemma safe_extract_success:
  assumes "safe_extract_zip cfg pr links zip_open data dest = Inr (Inr es)"
  obtains entries where "zip_open data = Inr entries" "int (length entries) \<le> MAX_ZIP_ENTRIES cfg"
    "int (sum_list (map ze_size entries)) \<le> MAX_ZIP_TOTAL_SIZE cfg"
    "list_all (inside links dest \<circ> ze_name) entries" "extractall pr dest entries [] = Inr es"
proof (cases "zip_open data")
  case (Inl e)
  with assms show thesis by (cases e) (auto simp: safe_extract_zip_def Let_def split: exn_kind.splits)
next
  case (Inr entries)
  have none: "list_all (inside links dest \<circ> ze_name) entries"
    if "find (\<lambda>e. \<not> inside links dest (ze_name e)) entries = None"
    using that by (auto simp: find_None_iff list_all_iff)
  from assms Inr show thesis
    by (intro that [of entries])
      (auto simp: safe_extract_zip_def Let_def rbind_eq_Inr_iff none
        split: if_splits option.splits sum.splits pyexn.splits exn_kind.splits)
qed

text \<open>C22: Zip-bomb and path safety of the bundle. When extraction succeeds, the archive has at most
  \<^verbatim>\<open>MAX_ZIP_ENTRIES\<close> entries, every entry resolves inside the destination, the destination holds only directories
  and regular files, no name is empty, \<^verbatim>\<open>.\<close>, \<^verbatim>\<open>..\<close> or holds a slash, and the files together have at most
  \<^verbatim>\<open>MAX_ZIP_TOTAL_SIZE\<close> bytes, whatever the streams decompress to.\<close>

theorem safe_extract_zip_bounds:
  assumes "safe_extract_zip cfg pr links zip_open data dest = Inr (Inr es)"
  shows "bundle_node (FDir es) \<and> int (sum_list (map (length \<circ> snd) (tree_files [] es))) \<le> MAX_ZIP_TOTAL_SIZE cfg
     \<and> (\<exists>entries. zip_open data = Inr entries \<and> int (length entries) \<le> MAX_ZIP_ENTRIES cfg
          \<and> list_all (inside links dest \<circ> ze_name) entries)"
proof -
  from safe_extract_success [OF assms] obtain entries where e: "zip_open data = Inr entries"
    "int (length entries) \<le> MAX_ZIP_ENTRIES cfg" "int (sum_list (map ze_size entries)) \<le> MAX_ZIP_TOTAL_SIZE cfg"
    "list_all (inside links dest \<circ> ze_name) entries" "extractall pr dest entries [] = Inr es" .
  note b = extractall_bundle [OF e(5)]
  have "sum_list (map (length \<circ> snd) (tree_files [] es)) \<le> sum_list (map ze_size entries)"
    by (rule extracted_bytes [OF extractall_from [OF e(5)] b])
  with e b show ?thesis by (auto simp del: bundle_node.simps)
qed

section \<open>The traversal check\<close>

text \<open>In a file system without symbolic links the check is lexical: a path is accepted exactly when it has
  the destination as a prefix once \<^verbatim>\<open>.\<close> and \<^verbatim>\<open>..\<close> are taken out.\<close>

abbreviation norm_step :: "segs \<Rightarrow> pystr \<Rightarrow> segs" where
  "norm_step acc x \<equiv> (if x = [46, 46] then butlast acc else acc @ [x])"

lemma realpath_loop_no_links: "realpath_loop [] n path ss seen = ((foldl norm_step path ss, True), seen)"
  by (induction ss arbitrary: path) auto

lemma norm_fold_dots: "[46, 46] \<notin> set path \<Longrightarrow> [46, 46] \<notin> set (foldl norm_step path ss)"
  by (induction ss arbitrary: path) (auto dest: in_set_butlastD)

lemma norm_segs_idem: "norm_segs (norm_segs ss) = norm_segs ss"
  by (rule norm_segs_plain) (simp add: norm_segs_def norm_fold_dots)

lemma realpath_segs_no_links: "realpath_segs [] p = norm_segs (text_segs p)"
  by (simp add: realpath_segs_def realpath_loop_no_links norm_segs_def [symmetric] norm_segs_idem)

lemma set_norm_fold: "set (foldl norm_step path ss) \<subseteq> set path \<union> set ss"
proof (induction ss arbitrary: path)
  case (Cons a ss)
  have "set (norm_step path a) \<subseteq> set path \<union> {a}" by (auto dest: in_set_butlastD)
  with Cons [of "norm_step path a"] show ?case by auto
qed simp

lemma norm_segs_no_slash: "x \<in> set (norm_segs (text_segs p)) \<Longrightarrow> x \<noteq> [] \<and> 47 \<notin> set x"
  using set_norm_fold [of "[]" "text_segs p"] split_on_pieces [of x 47 p]
  by (auto simp: norm_segs_def text_segs_def)

lemma segs_text_inside:
  assumes "ds \<noteq> []" "\<And>x. x \<in> set ds \<union> set ts \<Longrightarrow> x \<noteq> [] \<and> 47 \<notin> set x"
  shows "starts_with (segs_text ts) (segs_text ds @ [47]) \<or> segs_text ts = segs_text ds \<longleftrightarrow> prefix ds ts"
    (is "?L \<longleftrightarrow> _")
proof
  have sp: "split_on 47 (join_with [47] ds) = ds" using assms by (intro split_join_with) auto
  have st: "split_on 47 (join_with [47] ts) = ts" if "ts \<noteq> []" using assms that by (intro split_join_with) auto
  assume ?L
  then consider r where "join_with [47] ts = join_with [47] ds @ [47] @ r" | "join_with [47] ts = join_with [47] ds"
    by (auto simp: starts_with_iff segs_text_def)
  then show "prefix ds ts"
  proof cases
    case (1 r)
    then have "split_on 47 (join_with [47] ts) = ds @ split_on 47 r" by (simp add: split_on_append_both sp)
    moreover from 1 have "ts \<noteq> []" by auto
    ultimately show ?thesis using st by simp
  next
    case 2
    show ?thesis
    proof (cases "ts = []")
      case True
      with 2 have "join_with [47] ds = []" by simp
      with sp have "ds = [[]]" by simp
      with assms(2) [of "[]"] show ?thesis by simp
    next
      case False
      with 2 sp st show ?thesis by simp
    qed
  qed
next
  assume "prefix ds ts"
  then obtain r where r: "ts = ds @ r" by (auto simp: prefix_def)
  have "join_with [47] (ds @ q # qs) = join_with [47] ds @ [47] @ join_with [47] (q # qs)" for q :: pystr and qs
    using assms(1) by (induction ds rule: induct_list012) auto
  with r show ?L by (cases r) (auto simp: segs_text_def starts_with_iff)
qed

text \<open>C37: In a file system without symbolic links the path-traversal check accepts an entry name exactly when
  joining it to the destination and resolving \<^verbatim>\<open>.\<close> and \<^verbatim>\<open>..\<close> gives the destination or a path below it; absolute
  names and names that climb out are refused, names that only climb inside are not.\<close>

theorem inside_iff:
  assumes "norm_segs (text_segs dest) \<noteq> []"
  shows "inside [] dest filename \<longleftrightarrow> prefix (norm_segs (text_segs dest)) (norm_segs (text_segs (path_join dest filename)))"
proof -
  have "inside [] dest filename \<longleftrightarrow>
      starts_with (segs_text (norm_segs (text_segs (path_join dest filename)))) (segs_text (norm_segs (text_segs dest)) @ [47])
      \<or> segs_text (norm_segs (text_segs (path_join dest filename))) = segs_text (norm_segs (text_segs dest))"
    by (simp add: inside_def Let_def realpath_def realpath_segs_no_links)
  also have "\<dots> \<longleftrightarrow> prefix (norm_segs (text_segs dest)) (norm_segs (text_segs (path_join dest filename)))"
    using assms norm_segs_no_slash by (intro segs_text_inside) blast+
  finally show ?thesis .
qed

theorem inside_iff_witness:
  "inside [] (lit ''/tmp/d'') (lit ''a/../b.py'') \<and> \<not> inside [] (lit ''/tmp/d'') (lit ''../e'')
   \<and> \<not> inside [] (lit ''/tmp/d'') (lit ''/etc/passwd'')"
  using inside_iff [of "lit ''/tmp/d''" "lit ''a/../b.py''"] inside_iff [of "lit ''/tmp/d''" "lit ''../e''"]
    inside_iff [of "lit ''/tmp/d''" "lit ''/etc/passwd''"]
  by (simp add: norm_segs_def text_segs_def path_join_def starts_with_def lit_def)

section \<open>A concrete bundle\<close>

definition demo_zip :: "zip_entry list" where
  "demo_zip =
     [\<lparr>ze_name = lit ''lib/'', ze_size = 0, ze_open = Inr (), ze_stream = Inr []\<rparr>,
      \<lparr>ze_name = lit ''main.py'', ze_size = 4, ze_open = Inr (), ze_stream = Inr [112, 97, 115, 115]\<rparr>,
      \<lparr>ze_name = lit ''lib/a.txt'', ze_size = 2, ze_open = Inr (), ze_stream = Inr [65, 65, 65, 65, 65]\<rparr>]"

definition demo_tree :: dir_entries where
  "demo_tree = [(lit ''lib'', FDir [(lit ''a.txt'', FFile [65, 65])]), (lit ''main.py'', FFile [112, 97, 115, 115])]"

lemmas zip_eval = safe_extract_zip_def demo_zip_def demo_tree_def default_config_def inside_def realpath_def realpath_segs_no_links
  norm_segs_def text_segs_def path_join_def segs_text_def starts_with_def extractall_def last_entry_def extract_member_def
  member_segs_def entry_bytes_def lit_def

lemma demo_extract:
  "safe_extract_zip default_config pr [] (\<lambda>_. Inr demo_zip) data (lit ''/tmp/d'') = Inr (Inr demo_tree)"
  by (simp add: zip_eval)

theorem safe_extract_zip_bounds_witness:
  "bundle_node (FDir demo_tree) \<and> int (sum_list (map (length \<circ> snd) (tree_files [] demo_tree))) \<le> 209715200"
  using safe_extract_zip_bounds [OF demo_extract] by (simp add: default_config_def)

end
