(* ===== verification/Script_User.thy ===== *)
theory Script_User
  imports Bundle_Zip
begin

text \<open>
  The unprivileged user that scripts run as: \<^verbatim>\<open>_drop_privileges\<close> and \<^verbatim>\<open>_as_script_user\<close> of
  \<^verbatim>\<open>implementations/execute_service_impl.py\<close>, and the protection of \<^verbatim>\<open>/dev/nsm\<close> in \<^verbatim>\<open>main.py\<close>, over the POSIX
  rules for changing and using process credentials.
\<close>

section \<open>Credentials\<close>

record creds =
  cr_uid :: int
  cr_gid :: int
  cr_groups :: "int list"

definition eperm :: pyexn where
  "eperm = Exn OSError (lit ''[Errno 1] Operation not permitted'')"

definition sys_setgroups :: "int list \<Rightarrow> creds \<Rightarrow> creds res" where
  "sys_setgroups gs cr = (if cr_uid cr = 0 then Inr (cr\<lparr>cr_groups := gs\<rparr>) else Inl eperm)"

definition sys_setgid :: "int \<Rightarrow> creds \<Rightarrow> creds res" where
  "sys_setgid g cr = (if cr_uid cr = 0 \<or> cr_gid cr = g then Inr (cr\<lparr>cr_gid := g\<rparr>) else Inl eperm)"

definition sys_setuid :: "int \<Rightarrow> creds \<Rightarrow> creds res" where
  "sys_setuid u cr = (if cr_uid cr = 0 \<or> cr_uid cr = u then Inr (cr\<lparr>cr_uid := u\<rparr>) else Inl eperm)"

definition drop_privileges :: "config \<Rightarrow> creds \<Rightarrow> creds res" where
  "drop_privileges cfg cr =
     rbind (sys_setgroups [] cr) (\<lambda>cr.
     rbind (sys_setgid (SCRIPT_GID cfg) cr) (\<lambda>cr.
     sys_setuid (SCRIPT_UID cfg) cr))"

text \<open>Owner, group and permission bits of a file, and whether a process may open it for reading and
  writing. The three bits of a class are its octal digit; root passes.\<close>

record perms =
  pm_owner :: int
  pm_group :: int
  pm_mode :: nat

definition class_bits :: "creds \<Rightarrow> perms \<Rightarrow> nat" where
  "class_bits cr p =
     (if cr_uid cr = pm_owner p then pm_mode p div 64 mod 8
      else if cr_gid cr = pm_group p \<or> pm_group p \<in> set (cr_groups cr) then pm_mode p div 8 mod 8
      else pm_mode p mod 8)"

definition may_open_rdwr :: "creds \<Rightarrow> perms \<Rightarrow> bool" where
  "may_open_rdwr cr p \<longleftrightarrow> cr_uid cr = 0 \<or> class_bits cr p \<in> {6, 7}"

text \<open>\<^verbatim>\<open>main\<close>: \<^verbatim>\<open>chown\<close> to root and \<^verbatim>\<open>chmod 0o600\<close>, when the device exists.\<close>

definition protect_nsm :: "perms option \<Rightarrow> perms option" where
  "protect_nsm dev = map_option (\<lambda>p. p\<lparr>pm_owner := 0, pm_group := 0, pm_mode := 384\<rparr>) dev"

section \<open>Handing the bundle over\<close>

text \<open>The paths below \<open>path\<close> that \<^verbatim>\<open>os.walk\<close> yields: for every directory its subdirectories and then
  its other entries, top down.\<close>

fun is_dir_node :: "fnode \<Rightarrow> bool" where
  "is_dir_node (FDir es) = True"
| "is_dir_node _ = False"

fun walk_paths :: "pystr \<Rightarrow> fnode \<Rightarrow> pystr list" where
  "walk_paths path (FDir es) =
     map (\<lambda>(n, x). path_join path n) (filter (\<lambda>(n, x). is_dir_node x) es)
     @ map (\<lambda>(n, x). path_join path n) (filter (\<lambda>(n, x). \<not> is_dir_node x) es)
     @ concat (map (\<lambda>(n, x). walk_paths (path_join path n) x) es)"
| "walk_paths path _ = []"

text \<open>\<open>Inr (ps, dropping)\<close>: the paths handed to the script user, and whether the child runs
  \<^verbatim>\<open>_drop_privileges\<close> before it executes the script.\<close>

definition as_script_user ::
    "config \<Rightarrow> int \<Rightarrow> (pystr \<Rightarrow> unit res) \<Rightarrow> (pystr \<times> fnode) list \<Rightarrow> (pystr list \<times> bool) res" where
  "as_script_user cfg euid chown paths =
     (if euid \<noteq> 0 then Inr ([], False)
      else rbind (rfold (\<lambda>p acc. rbind (chown p) (\<lambda>_. Inr (acc @ [p])))
             (concat (map (\<lambda>(path, node). path # walk_paths path node) paths)) [])
           (\<lambda>ps. Inr (ps, True)))"

definition child_creds :: "config \<Rightarrow> bool \<Rightarrow> creds \<Rightarrow> creds res" where
  "child_creds cfg dropping cr = (if dropping then drop_privileges cfg cr else Inr cr)"

section \<open>Isolation\<close>

lemma drop_privileges_root:
  "cr_uid cr = 0 \<Longrightarrow>
     drop_privileges cfg cr = Inr (cr\<lparr>cr_groups := [], cr_gid := SCRIPT_GID cfg, cr_uid := SCRIPT_UID cfg\<rparr>)"
  by (simp add: drop_privileges_def sys_setgroups_def sys_setgid_def sys_setuid_def)

lemma chown_all:
  "rfold (\<lambda>p acc. rbind (chown p) (\<lambda>_. Inr (acc @ [p]))) qs acc = Inr r \<Longrightarrow> r = acc @ qs"
proof (induction qs arbitrary: acc)
  case (Cons q qs)
  from Cons.prems have "rfold (\<lambda>p acc. rbind (chown p) (\<lambda>_. Inr (acc @ [p]))) qs (acc @ [q]) = Inr r"
    by (simp add: rbind_eq_Inr_iff)
  from Cons.IH [OF this] show ?case by simp
qed simp

lemma as_script_user_paths:
  assumes "as_script_user cfg 0 chown paths = Inr (ps, dropping)"
  shows "dropping \<and> ps = concat (map (\<lambda>(path, node). path # walk_paths path node) paths)"
proof -
  from assms obtain r where "rfold (\<lambda>p acc. rbind (chown p) (\<lambda>_. Inr (acc @ [p])))
      (concat (map (\<lambda>(path, node). path # walk_paths path node) paths)) [] = Inr r" "ps = r" "dropping"
    by (auto simp: as_script_user_def rbind_eq_Inr_iff)
  with chown_all [of chown _ "[]"] show ?thesis by fastforce
qed

text \<open>The child cannot reach the device. When the enclave runs as root with a script user other than root, the handover makes the child drop
  its privileges, the drop succeeds, the child ends up with exactly the configured user and group and no supplementary group, cannot
  become root again, and may not open the device that \<^verbatim>\<open>main\<close> protected, whatever its permissions were before.\<close>

lemma script_confined:
  assumes "cr_uid cr = 0" "SCRIPT_UID cfg \<noteq> 0"
    and "as_script_user cfg (cr_uid cr) chown paths = Inr (ps, dropping)"
  shows "\<exists>cr'. child_creds cfg dropping cr = Inr cr' \<and> cr_uid cr' = SCRIPT_UID cfg \<and> cr_gid cr' = SCRIPT_GID cfg
     \<and> cr_groups cr' = [] \<and> sys_setuid 0 cr' = Inl eperm \<and> \<not> may_open_rdwr cr' (the (protect_nsm (Some dev)))"
proof -
  have drop: dropping using as_script_user_paths assms(1,3) by (metis (no_types, lifting))
  with drop_privileges_root [OF assms(1)] assms(2) show ?thesis
    by (auto simp: child_creds_def sys_setuid_def may_open_rdwr_def protect_nsm_def class_bits_def)
qed

lemma walk_paths_lookup:
  "node_wf x \<Longrightarrow> node_lookup x segs = Some y \<Longrightarrow> segs \<noteq> [] \<Longrightarrow>
     foldl path_join path segs \<in> set (walk_paths path x)"
proof (induction path x arbitrary: segs rule: walk_paths.induct)
  case (1 path es)
  then obtain s ss z where s: "segs = s # ss" "dget es s = Some z" "node_lookup z ss = Some y"
    by (cases segs) (auto split: option.splits)
  then have mem: "(s, z) \<in> set es" by (simp add: map_of_SomeD)
  show ?case
  proof (cases ss)
    case Nil
    with s mem show ?thesis by (cases "is_dir_node z") force+
  next
    case (Cons s' ss')
    have "node_wf z" using "1.prems"(1) mem by (auto simp: list_all_iff)
    from "1.IH" [OF mem refl this s(3)] Cons have "foldl path_join (path_join path s) ss \<in> set (walk_paths (path_join path s) z)"
      by simp
    with s mem show ?thesis by force
  qed
qed (auto elim: node_lookup.elims)


section \<open>Concrete instances\<close>

definition root_creds :: creds where
  "root_creds = \<lparr>cr_uid = 0, cr_gid = 0, cr_groups = [0, 10]\<rparr>"

lemma demo_handover:
  "as_script_user default_config 0 (\<lambda>_. Inr ()) [(lit ''/tmp/d'', FDir demo_tree)]
     = Inr (map lit [''/tmp/d'', ''/tmp/d/lib'', ''/tmp/d/main.py'', ''/tmp/d/lib/a.txt''], True)"
  by (simp add: as_script_user_def demo_tree_def path_join_def starts_with_def lit_def)


end
