(* ===== verification/Script_Check.thy ===== *)
theory Script_Check
  imports Py_Value
begin

text \<open>
  \<^verbatim>\<open>validate_script\<close> of \<^verbatim>\<open>implementations/execute_service_impl.py\<close>. The syntax tree keeps what the check looks
  at: a call has its function first among its children, a name its identifier; every other node is
  \<open>ANode\<close> with its children in the order of \<^verbatim>\<open>ast.iter_child_nodes\<close>. The parser is a parameter.
\<close>

datatype ast = ACall ast "ast list" | AName pystr | ANode "ast list"

definition forbidden_operations :: "pystr list" where
  "forbidden_operations = map lit [''exec'', ''eval'', ''compile'', ''__import__'', ''file'', ''input'', ''raw_input'', ''reload'']"

fun ast_children :: "ast \<Rightarrow> ast list" where
  "ast_children (ACall f args) = f # args"
| "ast_children (AName n) = []"
| "ast_children (ANode cs) = cs"

fun ast_size :: "ast \<Rightarrow> nat" where
  "ast_size (ACall f args) = Suc (ast_size f + sum_list (map ast_size args))"
| "ast_size (AName n) = 1"
| "ast_size (ANode cs) = Suc (sum_list (map ast_size cs))"

lemma ast_size_children: "ast_size t = Suc (sum_list (map ast_size (ast_children t)))"
  by (cases t) simp_all

text \<open>\<^verbatim>\<open>ast.walk\<close>: the queue \<open>todo\<close> is taken from the left, children are appended on the right.\<close>

function ast_walk :: "ast list \<Rightarrow> ast list" where
  "ast_walk [] = []"
| "ast_walk (node # todo) = node # ast_walk (todo @ ast_children node)"
  by pat_completeness auto
termination
  by (relation "measure (\<lambda>todo. sum_list (map ast_size todo))") (simp_all add: ast_size_children [of "_ :: ast"])

fun forbidden_name :: "ast \<Rightarrow> pystr option" where
  "forbidden_name (ACall (AName n) args) = (if n \<in> set forbidden_operations then Some n else None)"
| "forbidden_name _ = None"

text \<open>The \<^verbatim>\<open>for\<close> loop with its early return.\<close>

fun first_forbidden :: "ast list \<Rightarrow> pystr option" where
  "first_forbidden [] = None"
| "first_forbidden (t # ts) = (case forbidden_name t of Some n \<Rightarrow> Some n | None \<Rightarrow> first_forbidden ts)"

definition validate_script :: "(pystr \<Rightarrow> ast res) \<Rightarrow> pystr \<Rightarrow> bool \<times> pystr" where
  "validate_script parse script_content =
     (case parse script_content of
        Inl (Exn SyntaxError msg) \<Rightarrow> (False, lit ''Syntax error: '' @ msg)
      | Inl e \<Rightarrow> (False, lit ''Script validation error: '' @ exn_str e)
      | Inr tree \<Rightarrow>
          (case first_forbidden (ast_walk [tree]) of
             Some n \<Rightarrow> (False, lit ''Forbidden operation: '' @ n @ lit ''()'')
           | None \<Rightarrow> (True, lit ''Script validation successful'')))"

section \<open>What passes\<close>

text \<open>The nodes of a tree, by plain recursion.\<close>

inductive subtree :: "ast \<Rightarrow> ast \<Rightarrow> bool" where
  subtree_refl: "subtree t t"
| subtree_child: "subtree t u \<Longrightarrow> c \<in> set (ast_children u) \<Longrightarrow> subtree t c"

inductive_simps subtree_name: "subtree (AName n) t"

lemma subtree_step: "c \<in> set (ast_children t) \<Longrightarrow> subtree c u \<Longrightarrow> subtree t u"
  by (rotate_tac, induction rule: subtree.induct) (auto intro: subtree.intros)

lemma subtree_iff: "subtree t u \<longleftrightarrow> u = t \<or> (\<exists>c \<in> set (ast_children t). subtree c u)"
proof
  show "subtree t u \<Longrightarrow> u = t \<or> (\<exists>c \<in> set (ast_children t). subtree c u)"
    by (induction rule: subtree.induct) (auto intro: subtree.intros)
qed (auto intro: subtree.intros subtree_step)

text \<open>The breadth-first walk visits every node.\<close>

lemma set_ast_walk: "set (ast_walk todo) = {u. \<exists>t \<in> set todo. subtree t u}"
proof (induction todo rule: ast_walk.induct)
  case (2 node todo)
  have "{u. \<exists>t \<in> set (node # todo). subtree t u}
      = insert node {u. \<exists>t \<in> set (todo @ ast_children node). subtree t u}"
    using subtree_iff [of node] by auto
  with 2 show ?case by simp
qed simp

lemma first_forbidden_None: "first_forbidden ts = None \<longleftrightarrow> (\<forall>t \<in> set ts. forbidden_name t = None)"
  by (induction ts) (auto split: option.splits)

lemma forbidden_name_iff:
  "forbidden_name t = Some n \<longleftrightarrow> (\<exists>args. t = ACall (AName n) args) \<and> n \<in> set forbidden_operations"
  by (cases t rule: forbidden_name.cases) auto

text \<open>C36: A script passes the check exactly when it parses and no call anywhere in its syntax tree has one of the
  forbidden builtins as its function name.\<close>

theorem validate_script_iff:
  "fst (validate_script parse script) \<longleftrightarrow>
     (\<exists>tree. parse script = Inr tree \<and>
        \<not> (\<exists>n args. n \<in> set forbidden_operations \<and> subtree tree (ACall (AName n) args)))"
proof (cases "parse script")
  case (Inl e)
  then show ?thesis by (cases e) (auto simp: validate_script_def split: exn_kind.splits)
next
  case (Inr tree)
  have "first_forbidden (ast_walk [tree]) = None \<longleftrightarrow>
      \<not> (\<exists>n args. n \<in> set forbidden_operations \<and> subtree tree (ACall (AName n) args))"
    unfolding first_forbidden_None set_ast_walk
    by (auto simp: forbidden_name_iff) (metis forbidden_name_iff not_Some_eq)
  with Inr show ?thesis by (auto simp: validate_script_def split: option.splits)
qed

end
