(* ===== verification/Crypto_Api.thy ===== *)
theory Crypto_Api
  imports Complex_Main Py_Value
begin

text \<open>
  The \<^verbatim>\<open>cryptography\<close> package, as the sources call it: one field of the record \<open>crypto\<close> per call. A key
  object is a value of the type parameter. A call that can raise returns \<open>res\<close>; key generation
  takes the randomness it draws as its first argument. What the enclave relies on are the named
  predicates below; \<open>toy_crypto\<close> is an executable instance that satisfies them, for concrete runs.
\<close>

type_synonym time = rat

record 'key crypto =
  rsa_generate :: "nat \<Rightarrow> int \<Rightarrow> pyval \<Rightarrow> 'key res"
    \<comment> \<open>\<^verbatim>\<open>rsa.generate_private_key(public_exponent, key_size)\<close>\<close>
  private_pem :: "'key \<Rightarrow> bytes res"
    \<comment> \<open>\<^verbatim>\<open>private_bytes\<close> in PEM, PKCS8, unencrypted\<close>
  public_pem :: "'key \<Rightarrow> pystr res"
    \<comment> \<open>\<^verbatim>\<open>public_key().public_bytes\<close> in PEM, decoded to text\<close>
  load_private :: "bytes \<Rightarrow> 'key res"
    \<comment> \<open>\<^verbatim>\<open>serialization.load_pem_private_key\<close>\<close>
  public_der :: "bytes \<Rightarrow> bytes res"
    \<comment> \<open>\<^verbatim>\<open>load_pem_public_key\<close>, then \<^verbatim>\<open>public_bytes\<close> in DER\<close>
  key_bits :: "'key \<Rightarrow> int"
    \<comment> \<open>\<^verbatim>\<open>private_key.key_size\<close>\<close>
  oaep_decrypt :: "'key \<Rightarrow> bytes \<Rightarrow> bytes res"
    \<comment> \<open>RSA-OAEP with MGF1 and SHA-256\<close>
  gcm_decrypt :: "bytes \<Rightarrow> bytes \<Rightarrow> bytes \<Rightarrow> bytes res"
    \<comment> \<open>\<^verbatim>\<open>AESGCM(key).decrypt(nonce, ciphertext, None)\<close>\<close>
  cbc_decrypt :: "bytes \<Rightarrow> bytes \<Rightarrow> bytes \<Rightarrow> bytes res"
    \<comment> \<open>AES-CBC with key and IV, \<^verbatim>\<open>update\<close> and \<^verbatim>\<open>finalize\<close>\<close>
  pkcs7_unpad :: "nat \<Rightarrow> bytes \<Rightarrow> bytes res"
    \<comment> \<open>\<^verbatim>\<open>PKCS7(bits).unpadder()\<close>\<close>
  fernet_decrypt :: "pystr \<Rightarrow> bytes \<Rightarrow> bytes res"
    \<comment> \<open>\<^verbatim>\<open>Fernet(key).decrypt\<close>\<close>

text \<open>Documented behaviour: a private key that was written as PEM is read back; the PEM of a key is
  not empty.\<close>

definition pem_roundtrip :: "'key crypto \<Rightarrow> bool" where
  "pem_roundtrip c \<longleftrightarrow> (\<forall>k pem. private_pem c k = Inr pem \<longrightarrow> pem \<noteq> [] \<and> load_private c pem = Inr k)"

text \<open>The encrypting side, which runs outside the enclave: RSA-OAEP under a public key and AES-GCM. Their
  documented laws: with SHA-256, OAEP takes plaintexts up to 66 bytes shorter than the modulus, its
  ciphertexts have the length of the modulus and decrypt to the plaintext; AES-GCM decryption inverts
  encryption.\<close>

definition oaep_inverse :: "'key crypto \<Rightarrow> ('key \<Rightarrow> bytes \<Rightarrow> bytes) \<Rightarrow> bool" where
  "oaep_inverse c enc \<longleftrightarrow>
     (\<forall>k m. int (length m) + 66 \<le> key_bits c k div 8 \<longrightarrow>
        int (length (enc k m)) = key_bits c k div 8 \<and> oaep_decrypt c k (enc k m) = Inr m)"

definition gcm_inverse :: "'key crypto \<Rightarrow> (bytes \<Rightarrow> bytes \<Rightarrow> bytes \<Rightarrow> bytes) \<Rightarrow> bool" where
  "gcm_inverse c enc \<longleftrightarrow>
     (\<forall>key n m. length key = 32 \<longrightarrow> length n = 12 \<longrightarrow> gcm_decrypt c key n (enc key n m) = Inr m)"

section \<open>A concrete instance\<close>

text \<open>Keys are numbers of bits and a seed; the ciphers append a tag of fixed length. No security is
  meant: the instance shows that the laws above can hold and lets the handlers run.\<close>

type_synonym toy_key = "nat \<times> nat"

definition toy_rsa_generate :: "nat \<Rightarrow> int \<Rightarrow> pyval \<Rightarrow> toy_key res" where
  "toy_rsa_generate seed e sz = (case sz of PInt i \<Rightarrow> Inr (nat i, seed) | _ \<Rightarrow> Inl (Exn TypeError (lit ''an integer is required'')))"

definition toy_pem :: "toy_key \<Rightarrow> bytes" where
  "toy_pem k = 80 # concat (map (\<lambda>n. replicate n 49 @ [44]) [fst k, snd k])"

definition toy_load :: "bytes \<Rightarrow> toy_key res" where
  "toy_load bs = (case split_on 44 (drop 1 bs) of
       [a, b, []] \<Rightarrow> Inr (length a, length b)
     | _ \<Rightarrow> Inl (Exn ValueError (lit ''Could not deserialize key data'')))"

definition toy_oaep_encrypt :: "toy_key \<Rightarrow> bytes \<Rightarrow> bytes" where
  "toy_oaep_encrypt k m = m @ 1 # replicate (fst k div 8 - length m - 1) 0"

definition toy_oaep_decrypt :: "toy_key \<Rightarrow> bytes \<Rightarrow> bytes res" where
  "toy_oaep_decrypt k ct =
     (if length ct \<noteq> fst k div 8 then Inl (Exn ValueError (lit ''Ciphertext length must be equal to key size.''))
      else case dropWhile (\<lambda>b. b = 0) (rev ct) of
             t # r \<Rightarrow> if t = 1 then Inr (rev r) else Inl (Exn ValueError (lit ''Decryption failed''))
           | [] \<Rightarrow> Inl (Exn ValueError (lit ''Decryption failed'')))"

definition toy_gcm_tag :: "bytes \<Rightarrow> bytes \<Rightarrow> bytes \<Rightarrow> bytes" where
  "toy_gcm_tag key n m = replicate 15 7 @ [sum_list key + sum_list n + sum_list m]"

definition toy_gcm_encrypt :: "bytes \<Rightarrow> bytes \<Rightarrow> bytes \<Rightarrow> bytes" where
  "toy_gcm_encrypt key n m = m @ toy_gcm_tag key n m"

definition toy_gcm_decrypt :: "bytes \<Rightarrow> bytes \<Rightarrow> bytes \<Rightarrow> bytes res" where
  "toy_gcm_decrypt key n ct =
     (let m = take (length ct - 16) ct; t = drop (length ct - 16) ct
      in if length key \<noteq> 32 then Inl (Exn ValueError (lit ''AESGCM key must be 128, 192, or 256 bits.''))
         else if t = toy_gcm_tag key n m then Inr m else Inl (Exn InvalidTag []))"

definition toy_crypto :: "toy_key crypto" where
  "toy_crypto = \<lparr>rsa_generate = toy_rsa_generate, private_pem = \<lambda>k. Inr (toy_pem k),
     public_pem = \<lambda>k. Inr (lit ''PUB '' @ show_nat (fst k) @ [32] @ show_nat (snd k)),
     load_private = toy_load, public_der = \<lambda>b. Inr b, key_bits = \<lambda>k. int (fst k),
     oaep_decrypt = toy_oaep_decrypt, gcm_decrypt = toy_gcm_decrypt,
     cbc_decrypt = \<lambda>key iv ct. Inr ct, pkcs7_unpad = \<lambda>n bs. Inr bs, fernet_decrypt = \<lambda>k bs. Inr bs\<rparr>"

lemma toy_load_pem: "toy_load (toy_pem k) = Inr k"
proof -
  have "(44 :: byte) \<notin> set (replicate n 49)" for n by simp
  then have "split_on (44 :: byte) (replicate (fst k) 49 @ 44 # replicate (snd k) 49 @ [44])
      = [replicate (fst k) 49, replicate (snd k) 49, []]"
    by (simp add: split_on_append_sep)
  then show ?thesis by (simp add: toy_load_def toy_pem_def)
qed

lemma toy_pem_roundtrip: "pem_roundtrip toy_crypto"
  by (simp add: pem_roundtrip_def toy_crypto_def toy_load_pem) (simp add: toy_pem_def)

lemma toy_gcm_inverse: "gcm_inverse toy_crypto toy_gcm_encrypt"
  by (simp add: gcm_inverse_def toy_crypto_def toy_gcm_decrypt_def toy_gcm_encrypt_def toy_gcm_tag_def)

lemma toy_oaep_decrypt_encrypt:
  assumes "length m < fst k div 8"
  shows "toy_oaep_decrypt k (toy_oaep_encrypt k m) = Inr m"
proof -
  have "dropWhile (\<lambda>b. b = 0) (replicate n (0 :: byte) @ 1 # xs) = 1 # xs" for n xs
    by (induction n) auto
  with assms show ?thesis by (simp add: toy_oaep_decrypt_def toy_oaep_encrypt_def)
qed

lemma toy_oaep_inverse: "oaep_inverse toy_crypto toy_oaep_encrypt"
  unfolding oaep_inverse_def
proof (intro allI impI)
  fix k and m :: bytes
  assume "int (length m) + 66 \<le> key_bits toy_crypto k div 8"
  then have l: "length m < fst k div 8" by (simp add: toy_crypto_def)
  then have "length (toy_oaep_encrypt k m) = fst k div 8" by (simp add: toy_oaep_encrypt_def)
  with toy_oaep_decrypt_encrypt [OF l]
  show "int (length (toy_oaep_encrypt k m)) = key_bits toy_crypto k div 8
      \<and> oaep_decrypt toy_crypto k (toy_oaep_encrypt k m) = Inr m"
    by (simp add: toy_crypto_def zdiv_int)
qed

end
