(* ===== verification/Execute_Service.thy ===== *)
theory Execute_Service
  imports Script_User Script_Check Crypto_Api
begin

text \<open>
  \<^verbatim>\<open>implementations/execute_service_impl.py\<close>. The record \<open>exec_env\<close> holds what the service asks of the outside:
  the ZIP reader, the text codec of files opened in text mode, the Python parser, the order of a
  directory listing, the links and files of the host, the environment, the user, and \<^verbatim>\<open>subprocess.run\<close>,
  which answers with the exit code, the two output texts and the outputs directory as it is seen
  from then on, or with the exception raised. The state of the service is the table of executions.
\<close>

section \<open>State\<close>

record exec_info =
  ei_session_id :: pyval
  ei_start_time :: time
  ei_status :: pystr
  ei_end_time :: "time option"
  ei_termination_reason :: "pystr option"

record executor =
  active_executions :: "exec_info dict"

definition init_executor :: executor where
  "init_executor = \<lparr>active_executions = []\<rparr>"

record spawn_req =
  sp_cmd :: "pystr list"
  sp_cwd :: pystr
  sp_env :: "pystr dict option"
  sp_timeout :: int
  sp_drop :: bool

datatype run_outcome =
    RunRaises pyexn
  | RunDone (rc: int) (out: pystr) (err: pystr) (outputs: "nat \<Rightarrow> fnode option")

record exec_env =
  xe_zip :: "bytes \<Rightarrow> zip_entry list res"
  xe_read_text :: "bytes \<Rightarrow> pystr res"
  xe_write_text :: "pystr \<Rightarrow> bytes res"
  xe_parse :: "pystr \<Rightarrow> ast res"
  xe_ls :: "pystr list \<Rightarrow> pystr list"
  xe_links :: links
  xe_host :: "pystr \<Rightarrow> fnode option"
  xe_environ :: "pystr dict"
  xe_python :: pystr
  xe_euid :: int
  xe_chown :: "pystr \<Rightarrow> unit res"
  xe_run :: "spawn_req \<Rightarrow> fnode \<Rightarrow> run_outcome"

section \<open>The table of executions\<close>

definition start_execution_monitoring :: "time \<Rightarrow> pystr \<Rightarrow> pyval \<Rightarrow> executor \<Rightarrow> executor" where
  "start_execution_monitoring now execution_id session_id x =
     x\<lparr>active_executions := dset execution_id
         \<lparr>ei_session_id = session_id, ei_start_time = now, ei_status = lit ''running'', ei_end_time = None,
          ei_termination_reason = None\<rparr> (active_executions x)\<rparr>"

definition stop_execution_monitoring :: "time \<Rightarrow> pystr \<Rightarrow> executor \<Rightarrow> executor" where
  "stop_execution_monitoring now execution_id x =
     (case dget (active_executions x) execution_id of
        None \<Rightarrow> x
      | Some i \<Rightarrow> x\<lparr>active_executions := dset execution_id
                     (i\<lparr>ei_status := lit ''completed'', ei_end_time := Some now\<rparr>) (active_executions x)\<rparr>)"

definition cleanup_execution_environment :: "pystr \<Rightarrow> executor \<Rightarrow> bool \<times> executor" where
  "cleanup_execution_environment session_id x =
     (let executions_to_remove =
            map fst (filter (\<lambda>(eid, i). ei_session_id i = PStr session_id) (active_executions x))
      in (True, x\<lparr>active_executions := fold ddel executions_to_remove (active_executions x)\<rparr>))"

definition monitor_execution :: "(time \<Rightarrow> pystr) \<Rightarrow> time \<Rightarrow> pystr \<Rightarrow> executor \<Rightarrow> pyval" where
  "monitor_execution float_repr now execution_id x =
     (case dget (active_executions x) execution_id of
        None \<Rightarrow> PDict [(lit ''error'', PStr (lit ''Execution '' @ execution_id @ lit '' not found''))]
      | Some i \<Rightarrow> PDict [(lit ''execution_id'', PStr execution_id), (lit ''session_id'', ei_session_id i),
          (lit ''status'', PStr (ei_status i)), (lit ''start_time'', PFloat (float_repr (ei_start_time i))),
          (lit ''runtime_seconds'', PFloat (float_repr (now - ei_start_time i)))])"

definition terminate_execution :: "pystr \<Rightarrow> pystr \<Rightarrow> executor \<Rightarrow> bool \<times> executor" where
  "terminate_execution execution_id reason x =
     (case dget (active_executions x) execution_id of
        None \<Rightarrow> (False, x)
      | Some i \<Rightarrow> (True, x\<lparr>active_executions := dset execution_id
                     (i\<lparr>ei_status := lit ''terminated'', ei_termination_reason := Some reason\<rparr>) (active_executions x)\<rparr>))"

definition get_execution_logs :: "(time \<Rightarrow> pystr) \<Rightarrow> pystr \<Rightarrow> executor \<Rightarrow> pyval list" where
  "get_execution_logs float_repr execution_id x =
     (case dget (active_executions x) execution_id of
        None \<Rightarrow> []
      | Some i \<Rightarrow> [PDict [(lit ''timestamp'', PFloat (float_repr (ei_start_time i))), (lit ''level'', pstr ''INFO''),
          (lit ''message'', PStr (lit ''Execution '' @ execution_id @ lit '' started'')), (lit ''session_id'', ei_session_id i)]])"

definition get_execution_limits :: "config \<Rightarrow> pyval" where
  "get_execution_limits cfg =
     PDict [(lit ''max_memory_mb'', PInt (MAX_MEMORY_MB cfg)),
       (lit ''max_execution_time_seconds'', PInt (EXECUTION_TIMEOUT cfg)),
       (lit ''max_output_size_mb'', PInt (MAX_OUTPUT_SIZE_MB cfg)),
       (lit ''forbidden_operations'', PList (map PStr forbidden_operations))]"

definition supported_formats :: "pystr list" where
  "supported_formats = map lit [''json'', ''text'', ''csv'', ''python_object'']"

definition get_supported_formats :: "pystr list" where
  "get_supported_formats = supported_formats"

definition setup_execution_environment :: "bool \<times> pystr" where
  "setup_execution_environment = (True, lit ''Environment setup successful'')"

section \<open>Finding and reading the script\<close>

text \<open>What stands at a path: below the bundle directory the bundle's own tree decides, elsewhere the
  host.\<close>

definition node_at :: "exec_env \<Rightarrow> pystr \<Rightarrow> dir_entries \<Rightarrow> pystr \<Rightarrow> fnode option" where
  "node_at env temp_dir es path =
     (if starts_with path (temp_dir @ [47]) \<and> [46, 46] \<notin> set (text_segs (drop (length temp_dir) path))
      then node_lookup (FDir es) (text_segs (drop (length temp_dir) path))
      else xe_host env path)"

definition find_script :: "exec_env \<Rightarrow> pystr \<Rightarrow> dir_entries \<Rightarrow> pystr option \<Rightarrow> pystr option" where
  "find_script env temp_dir es script_path =
     (case script_path of
        Some (c # cs) \<Rightarrow>
          (let target = path_join temp_dir (c # cs) in if node_at env temp_dir es target \<noteq> None then Some target else None)
      | _ \<Rightarrow>
          (case filter (\<lambda>name. node_at env temp_dir es (path_join temp_dir name) \<noteq> None) (map lit [''main.py'', ''script.py'', ''run.py'']) of
             name # _ \<Rightarrow> Some (path_join temp_dir name)
           | [] \<Rightarrow>
               (case filter (\<lambda>f. ends_with f (lit ''.py'')) (xe_ls env (map fst es)) of
                  f # _ \<Rightarrow> Some (path_join temp_dir f)
                | [] \<Rightarrow> None)))"

definition read_script :: "exec_env \<Rightarrow> (nat \<Rightarrow> bool) \<Rightarrow> pystr \<Rightarrow> dir_entries \<Rightarrow> pystr \<Rightarrow> pystr res" where
  "read_script env pr temp_dir es path =
     (case node_at env temp_dir es path of
        Some (FFile content) \<Rightarrow> xe_read_text env content
      | Some (FDir _) \<Rightarrow> Inl (os_error pr 21 ''Is a directory'' path)
      | _ \<Rightarrow> Inl (os_error pr 2 ''No such file or directory'' path))"

definition process_bundle_csv_files :: "exec_env \<Rightarrow> dir_entries \<Rightarrow> bool \<times> pystr" where
  "process_bundle_csv_files env es =
     (let csv_files = filter (\<lambda>f. ends_with f (lit ''.csv'')) (xe_ls env (map fst es))
      in if csv_files = [] then (True, lit ''No CSV files found'')
         else (True, lit ''Processed '' @ show_nat (length csv_files) @ lit '' CSV files''))"

section \<open>execute_bundle\<close>

record bundle_inputs =
  bi_id_time :: time
  bi_start :: time
  bi_stop :: time
  bi_temp_dir :: "pystr res"
  bi_cleanup :: "unit res"

type_synonym bundle_result = "bool \<times> pystr \<times> out_file list"

definition REJECTED_PREFIX :: pystr where
  "REJECTED_PREFIX = lit ''Output files rejected: ''"

definition bundle_id :: "(nat \<Rightarrow> bool) \<Rightarrow> bundle_inputs \<Rightarrow> pyval \<Rightarrow> pystr" where
  "bundle_id pr i session_id = lit ''bundle_'' @ py_str pr session_id @ lit ''_'' @ show_int \<lfloor>bi_id_time i\<rfloor>"

text \<open>\<^verbatim>\<open>if csv_data:\<close> the data replaces \<^verbatim>\<open>generated/data.csv\<close>.\<close>

definition inject_csv :: "(nat \<Rightarrow> bool) \<Rightarrow> pystr \<Rightarrow> bytes option \<Rightarrow> dir_entries \<Rightarrow> dir_entries res" where
  "inject_csv pr temp_dir csv_data es =
     (case csv_data of
        Some (b # bs) \<Rightarrow>
          rbind (make_dirs pr temp_dir [lit ''generated''] es) (\<lambda>es.
          write_file pr temp_dir [lit ''generated'', lit ''data.csv''] (b # bs) es)
      | _ \<Rightarrow> Inr es)"

definition script_env :: "exec_env \<Rightarrow> pystr \<Rightarrow> pystr dict" where
  "script_env env temp_dir =
     dset (lit ''HOME'') temp_dir
       (dset (lit ''MPLCONFIGDIR'') (path_join temp_dir (lit ''.mplconfig''))
         (dset (lit ''MPLBACKEND'') (lit ''Agg'')
           (dset (lit ''EPSILON_OUTPUT_DIR'') (path_join temp_dir (lit ''outputs'')) (xe_environ env))))"

definition bundle_output :: "pystr \<Rightarrow> pystr \<Rightarrow> pystr" where
  "bundle_output stdout stderr = (if stderr = [] then stdout else stdout @ [10] @ lit ''--- STDERR ---'' @ [10] @ stderr)"

definition run_bundle_script ::
    "exec_env \<Rightarrow> config \<Rightarrow> (nat \<Rightarrow> bool) \<Rightarrow> pystr \<Rightarrow> dir_entries \<Rightarrow> pystr \<Rightarrow> bundle_result res" where
  "run_bundle_script env cfg pr temp_dir es target_script =
     rbind (as_script_user cfg (xe_euid env) (xe_chown env) [(temp_dir, FDir es)]) (\<lambda>(ps, dropping).
     case xe_run env \<lparr>sp_cmd = [xe_python env, target_script], sp_cwd = temp_dir, sp_env = Some (script_env env temp_dir),
            sp_timeout = EXECUTION_TIMEOUT cfg, sp_drop = dropping\<rparr> (FDir es) of
       RunRaises e \<Rightarrow> Inl e
     | RunDone code stdout stderr fs \<Rightarrow>
         (if code = 0
          then case collect_output_files fs (MAX_OUTPUT_FILES cfg) (MAX_OUTPUT_FILES_MB cfg * 1024 * 1024) of
                 Inl e \<Rightarrow> Inr (False, REJECTED_PREFIX @ of_message (repr_str pr) e, [])
               | Inr files \<Rightarrow> Inr (True, bundle_output stdout stderr, files)
          else Inr (False, lit ''Bundle execution failed:'' @ [10] @ lit ''STDOUT: '' @ stdout @ [10] @ lit ''STDERR: '' @ stderr, [])))"

text \<open>The body of the \<^verbatim>\<open>with\<close> block up to the run: \<open>Inl\<close> is an early return, \<open>Inr\<close> the tree and the script.\<close>

definition prepare_bundle ::
    "exec_env \<Rightarrow> config \<Rightarrow> (nat \<Rightarrow> bool) \<Rightarrow> bytes \<Rightarrow> pystr option \<Rightarrow> bytes option \<Rightarrow> pystr
       \<Rightarrow> (pystr + dir_entries \<times> pystr) res" where
  "prepare_bundle env cfg pr bundle_data script_path csv_data temp_dir =
     rbind (safe_extract_zip cfg pr (xe_links env) (xe_zip env) bundle_data temp_dir) (\<lambda>r.
     case r of
       Inl extraction_error \<Rightarrow> Inr (Inl extraction_error)
     | Inr es0 \<Rightarrow>
         rbind (inject_csv pr temp_dir csv_data es0) (\<lambda>es1.
         case find_script env temp_dir es1 script_path of
           None \<Rightarrow> Inr (Inl (lit ''Script not found: '' @
                    (case script_path of Some (c # cs) \<Rightarrow> c # cs | _ \<Rightarrow> lit ''no .py file in bundle'')))
         | Some target_script \<Rightarrow>
             rbind (read_script env pr temp_dir es1 target_script) (\<lambda>script_content.
             case validate_script (xe_parse env) script_content of
               (False, validation_msg) \<Rightarrow> Inr (Inl (lit ''Script validation failed: '' @ validation_msg))
             | (True, _) \<Rightarrow>
                 rbind (make_dirs pr temp_dir [lit ''outputs''] es1) (\<lambda>es2.
                 rbind (make_dirs pr temp_dir [lit ''.mplconfig''] es2) (\<lambda>es3.
                 Inr (Inr (es3, target_script)))))))"

definition bundle_failure :: "config \<Rightarrow> pyexn \<Rightarrow> bundle_result" where
  "bundle_failure cfg e =
     (case e of
        Exn TimeoutExpired _ \<Rightarrow>
          (False, lit ''Bundle execution timed out after '' @ show_int (EXECUTION_TIMEOUT cfg) @ lit '' seconds'', [])
      | _ \<Rightarrow> (False, lit ''Bundle execution error: '' @ exn_str e, []))"

text \<open>Leaving the \<^verbatim>\<open>with\<close> block removes the directory; an exception from that replaces the result.\<close>

definition leave_with :: "unit res \<Rightarrow> 'a res \<Rightarrow> 'a res" where
  "leave_with cleanup r = rbind cleanup (\<lambda>_. r)"

definition execute_bundle ::
    "exec_env \<Rightarrow> config \<Rightarrow> (nat \<Rightarrow> bool) \<Rightarrow> bundle_inputs \<Rightarrow> bytes \<Rightarrow> pyval \<Rightarrow> pystr option \<Rightarrow> bytes option
       \<Rightarrow> executor \<Rightarrow> bundle_result \<times> executor" where
  "execute_bundle env cfg pr i bundle_data session_id script_path csv_data x =
     (let eid = bundle_id pr i session_id;
          (r, x') =
            (case bi_temp_dir i of
               Inl e \<Rightarrow> (Inl e, x)
             | Inr temp_dir \<Rightarrow>
                 (case prepare_bundle env cfg pr bundle_data script_path csv_data temp_dir of
                    Inl e \<Rightarrow> (leave_with (bi_cleanup i) (Inl e), x)
                  | Inr (Inl msg) \<Rightarrow> (leave_with (bi_cleanup i) (Inr (False, msg, [])), x)
                  | Inr (Inr (es, target_script)) \<Rightarrow>
                      (leave_with (bi_cleanup i) (run_bundle_script env cfg pr temp_dir es target_script),
                       stop_execution_monitoring (bi_stop i) eid (start_execution_monitoring (bi_start i) eid session_id x))))
      in (case r of Inl e \<Rightarrow> bundle_failure cfg e | Inr v \<Rightarrow> v, x'))"

section \<open>execute_script and execute_with_data\<close>

record script_inputs =
  si_id_time :: time
  si_start :: time
  si_stop :: time
  si_file :: "pystr res"
  si_tmp :: pystr

definition script_id :: "script_inputs \<Rightarrow> pystr \<Rightarrow> pystr" where
  "script_id i session_id = lit ''exec_'' @ session_id @ lit ''_'' @ show_int \<lfloor>si_id_time i\<rfloor>"

definition script_outcome :: "config \<Rightarrow> run_outcome \<Rightarrow> (bool \<times> pystr) res" where
  "script_outcome cfg r =
     (case r of
        RunRaises e \<Rightarrow> Inl e
      | RunDone code stdout stderr fs \<Rightarrow>
          (let output_size = int (length stdout + length stderr); max_size = MAX_OUTPUT_SIZE_MB cfg * 1024 * 1024
           in if output_size > max_size
              then Inr (False, lit ''Output size ('' @ show_int output_size @ lit '' bytes) exceeds limit ('' @ show_int max_size @ lit '' bytes)'')
              else if code = 0 then Inr (True, stdout)
              else Inr (False, lit ''Script execution failed: '' @ stderr)))"

definition script_failure :: "config \<Rightarrow> pyexn \<Rightarrow> bool \<times> pystr" where
  "script_failure cfg e =
     (case e of
        Exn TimeoutExpired _ \<Rightarrow>
          (False, lit ''Script execution timed out after '' @ show_int (EXECUTION_TIMEOUT cfg) @ lit '' seconds'')
      | _ \<Rightarrow> (False, lit ''Script execution error: '' @ exn_str e))"

text \<open>\<open>si_file\<close> is the path of the temporary script once it is written, or what creating it or writing
  to it raised, \<open>si_tmp\<close> the directory for temporary files. Failing to remove the file is only logged.\<close>

definition execute_script ::
    "exec_env \<Rightarrow> config \<Rightarrow> script_inputs \<Rightarrow> pystr \<Rightarrow> pystr \<Rightarrow> executor \<Rightarrow> (bool \<times> pystr) \<times> executor" where
  "execute_script env cfg i script_content session_id x =
     (let eid = script_id i session_id;
          (r, x') =
            (case validate_script (xe_parse env) script_content of
               (False, msg) \<Rightarrow> (Inr (False, lit ''Script validation failed: '' @ msg), x)
             | (True, _) \<Rightarrow>
                 (let x1 = start_execution_monitoring (si_start i) eid (PStr session_id) x in
                  case rbind (si_file i) (\<lambda>path. rbind (xe_write_text env script_content) (\<lambda>content. Inr (path, content))) of
                    Inl e \<Rightarrow> (Inl e, x1)
                  | Inr (path, content) \<Rightarrow>
                      (rbind (as_script_user cfg (xe_euid env) (xe_chown env) [(path, FFile content)]) (\<lambda>(ps, dropping).
                         script_outcome cfg (xe_run env \<lparr>sp_cmd = [xe_python env, path], sp_cwd = si_tmp i, sp_env = None,
                           sp_timeout = EXECUTION_TIMEOUT cfg, sp_drop = dropping\<rparr> (FFile content))),
                       stop_execution_monitoring (si_stop i) eid x1)))
      in (case r of Inl e \<Rightarrow> script_failure cfg e | Inr v \<Rightarrow> v,
          snd (cleanup_execution_environment session_id x')))"

definition format_output :: "(pystr \<Rightarrow> pystr) \<Rightarrow> pystr \<Rightarrow> pystr \<Rightarrow> pystr" where
  "format_output fr output format_type =
     (if format_type = lit ''json''
      then case json_loads fr output of
             Some _ \<Rightarrow> output
           | None \<Rightarrow> json_text False False (PDict [(lit ''output'', PStr output)])
      else output)"

text \<open>\<^verbatim>\<open>shutil.copy2(data_file, temp_dir)\<close> for every file that exists.\<close>

definition copy_data_file ::
    "exec_env \<Rightarrow> (nat \<Rightarrow> bool) \<Rightarrow> pystr \<Rightarrow> pystr \<Rightarrow> dir_entries \<Rightarrow> dir_entries res" where
  "copy_data_file env pr temp_dir f es =
     (case xe_host env f of
        None \<Rightarrow> Inr es
      | Some (FFile content) \<Rightarrow> write_file pr temp_dir (text_segs (path_basename f)) content es
      | Some _ \<Rightarrow> Inl (os_error pr 21 ''Is a directory'' f))"

definition execute_with_data ::
    "exec_env \<Rightarrow> config \<Rightarrow> (nat \<Rightarrow> bool) \<Rightarrow> (pystr \<Rightarrow> pystr) \<Rightarrow> pystr res \<Rightarrow> unit res \<Rightarrow> pystr \<Rightarrow> pystr list \<Rightarrow> pystr
       \<Rightarrow> bool \<times> pystr" where
  "execute_with_data env cfg pr fr temp cleanup script_content data_files output_format =
     (if output_format \<notin> set supported_formats
      then (False, lit ''Unsupported output format: '' @ output_format)
      else case rbind temp (\<lambda>temp_dir. leave_with cleanup (
             rbind (rfold (copy_data_file env pr temp_dir) data_files []) (\<lambda>es.
             rbind (xe_write_text env script_content) (\<lambda>content.
             rbind (write_file pr temp_dir [lit ''script.py''] content es) (\<lambda>es.
             rbind (as_script_user cfg (xe_euid env) (xe_chown env) [(temp_dir, FDir es)]) (\<lambda>(ps, dropping).
             case xe_run env \<lparr>sp_cmd = [xe_python env, path_join temp_dir (lit ''script.py'')], sp_cwd = temp_dir,
                    sp_env = None, sp_timeout = EXECUTION_TIMEOUT cfg, sp_drop = dropping\<rparr> (FDir es) of
               RunRaises e \<Rightarrow> Inl e
             | RunDone code stdout stderr fs \<Rightarrow>
                 (if code = 0 then Inr (True, format_output fr stdout output_format)
                  else Inr (False, lit ''Script execution failed: '' @ stderr)))))))) of
             Inr v \<Rightarrow> v
           | Inl e \<Rightarrow> (False, lit ''Script execution error: '' @ exn_str e))"

section \<open>What a successful bundle run guarantees\<close>

lemma run_bundle_cases:
  obtains (handover) e where "as_script_user cfg (xe_euid env) (xe_chown env) [(temp_dir, FDir es)] = Inl e"
      "run_bundle_script env cfg pr temp_dir es target = Inl e"
    | (ran) dropping ps r where
      "as_script_user cfg (xe_euid env) (xe_chown env) [(temp_dir, FDir es)] = Inr (ps, dropping)"
      "xe_run env \<lparr>sp_cmd = [xe_python env, target], sp_cwd = temp_dir, sp_env = Some (script_env env temp_dir),
         sp_timeout = EXECUTION_TIMEOUT cfg, sp_drop = dropping\<rparr> (FDir es) = r"
      "run_bundle_script env cfg pr temp_dir es target =
        (case r of
           RunRaises e \<Rightarrow> Inl e
         | RunDone code stdout stderr fs \<Rightarrow>
             (if code = 0
              then case collect_output_files fs (MAX_OUTPUT_FILES cfg) (MAX_OUTPUT_FILES_MB cfg * 1024 * 1024) of
                     Inl e \<Rightarrow> Inr (False, REJECTED_PREFIX @ of_message (repr_str pr) e, [])
                   | Inr files \<Rightarrow> Inr (True, bundle_output stdout stderr, files)
              else Inr (False, lit ''Bundle execution failed:'' @ [10] @ lit ''STDOUT: '' @ stdout @ [10] @ lit ''STDERR: '' @ stderr, [])))"
proof (cases "as_script_user cfg (xe_euid env) (xe_chown env) [(temp_dir, FDir es)]")
  case (Inl e)
  with handover show thesis by (simp add: run_bundle_script_def)
next
  case (Inr r)
  with ran show thesis by (cases r) (simp add: run_bundle_script_def)
qed

lemma run_bundle_success:
  assumes "run_bundle_script env cfg pr temp_dir es target = Inr (True, output, files)"
  obtains dropping stdout stderr fs ps where
    "as_script_user cfg (xe_euid env) (xe_chown env) [(temp_dir, FDir es)] = Inr (ps, dropping)"
    "xe_run env \<lparr>sp_cmd = [xe_python env, target], sp_cwd = temp_dir, sp_env = Some (script_env env temp_dir),
       sp_timeout = EXECUTION_TIMEOUT cfg, sp_drop = dropping\<rparr> (FDir es) = RunDone 0 stdout stderr fs"
    "output = bundle_output stdout stderr"
    "collect_output_files fs (MAX_OUTPUT_FILES cfg) (MAX_OUTPUT_FILES_MB cfg * 1024 * 1024) = Inr files"
proof (cases rule: run_bundle_cases [of cfg env temp_dir es pr target])
  case (handover e)
  with assms show thesis by simp
next
  case (ran dropping ps r)
  show thesis
  proof (cases r)
    case (RunRaises e)
    with assms ran(3) show thesis by simp
  next
    case (RunDone code stdout stderr fs)
    with assms ran(3) have "code = 0" "output = bundle_output stdout stderr"
      "collect_output_files fs (MAX_OUTPUT_FILES cfg) (MAX_OUTPUT_FILES_MB cfg * 1024 * 1024) = Inr files"
      by (auto split: if_splits sum.splits)
    with ran RunDone that show thesis by blast
  qed
qed

lemma run_bundle_failure_no_files:
  assumes "run_bundle_script env cfg pr temp_dir es target = Inr (False, msg, files)"
  shows "files = []"
  by (cases rule: run_bundle_cases [of cfg env temp_dir es pr target])
    (use assms in \<open>auto split: run_outcome.splits if_splits sum.splits\<close>)

lemma prepare_bundle_success:
  assumes p: "prepare_bundle env cfg pr data sp csv temp_dir = Inr (Inr (es, target))"
  obtains es0 es1 script where "safe_extract_zip cfg pr (xe_links env) (xe_zip env) data temp_dir = Inr (Inr es0)"
    "inject_csv pr temp_dir csv es0 = Inr es1" "find_script env temp_dir es1 sp = Some target"
    "read_script env pr temp_dir es1 target = Inr script" "fst (validate_script (xe_parse env) script)"
proof (cases "safe_extract_zip cfg pr (xe_links env) (xe_zip env) data temp_dir")
  case (Inl e)
  with p show thesis by (simp add: prepare_bundle_def)
next
  case z: (Inr r)
  show thesis
  proof (cases r)
    case (Inl e)
    with p z show thesis by (simp add: prepare_bundle_def)
  next
    case e0: (Inr es0)
    show thesis
    proof (cases "inject_csv pr temp_dir csv es0")
      case (Inl e)
      with p z e0 show thesis by (simp add: prepare_bundle_def)
    next
      case e1: (Inr es1)
      show thesis
      proof (cases "find_script env temp_dir es1 sp")
        case None
        with p z e0 e1 show thesis by (simp add: prepare_bundle_def)
      next
        case t: (Some t)
        show thesis
        proof (cases "read_script env pr temp_dir es1 t")
          case (Inl e)
          with p z e0 e1 t show thesis by (simp add: prepare_bundle_def)
        next
          case sc: (Inr script)
          obtain ok msg where v: "validate_script (xe_parse env) script = (ok, msg)" by fastforce
          with p z e0 e1 t sc have "ok" "t = target"
            by (auto simp: prepare_bundle_def rbind_eq_Inr_iff split: bool.splits)
          with that z e0 e1 t sc v show thesis by simp
        qed
      qed
    qed
  qed
qed

lemma bundle_failure_result [simp]:
  "bundle_failure cfg e \<noteq> (True, output, files)" "bundle_failure cfg e = (False, msg, files) \<Longrightarrow> files = []"
  by (auto simp: bundle_failure_def split: pyexn.splits exn_kind.splits)

lemma leave_with_Inr: "leave_with c r = Inr v \<longleftrightarrow> c = Inr () \<and> r = Inr v"
  by (auto simp: leave_with_def rbind_eq_Inr_iff)

lemma execute_bundle_True:
  assumes "execute_bundle env cfg pr i data sid sp csv x = ((True, output, files), x')"
  obtains temp_dir es target where "bi_temp_dir i = Inr temp_dir"
    "prepare_bundle env cfg pr data sp csv temp_dir = Inr (Inr (es, target))"
    "run_bundle_script env cfg pr temp_dir es target = Inr (True, output, files)"
proof -
  have "\<exists>temp_dir es target. bi_temp_dir i = Inr temp_dir
      \<and> prepare_bundle env cfg pr data sp csv temp_dir = Inr (Inr (es, target))
      \<and> run_bundle_script env cfg pr temp_dir es target = Inr (True, output, files)"
    using assms by (auto simp: execute_bundle_def Let_def leave_with_Inr split: sum.splits prod.splits)
  with that show thesis by blast
qed


text \<open>A failed bundle run never carries output files.\<close>

theorem execute_bundle_failure_no_files:
  assumes "execute_bundle env cfg pr i data sid sp csv x = ((False, msg, files), x')"
  shows "files = []"
proof -
  have "files = []" if "leave_with c (run_bundle_script env cfg pr temp_dir es target) = Inr (False, msg, files)"
    for c temp_dir es target
    using that by (auto simp: leave_with_Inr dest: run_bundle_failure_no_files)
  with assms show ?thesis
    by (auto simp: execute_bundle_def Let_def leave_with_Inr split: sum.splits prod.splits dest: bundle_failure_result(2))
qed

section \<open>What happens to the table of executions\<close>

definition completed_entry :: "bundle_inputs \<Rightarrow> pyval \<Rightarrow> exec_info" where
  "completed_entry i session_id = \<lparr>ei_session_id = session_id, ei_start_time = bi_start i, ei_status = lit ''completed'',
     ei_end_time = Some (bi_stop i), ei_termination_reason = None\<rparr>"

lemma start_stop:
  "active_executions (stop_execution_monitoring t2 eid (start_execution_monitoring t1 eid sid x)) =
     dset eid \<lparr>ei_session_id = sid, ei_start_time = t1, ei_status = lit ''completed'', ei_end_time = Some t2,
       ei_termination_reason = None\<rparr> (active_executions x)"
proof -
  have "dset k v (dset k w d) = dset k v d" for k :: pystr and v w :: exec_info and d by (induction d) auto
  then show ?thesis by (simp add: stop_execution_monitoring_def start_execution_monitoring_def)
qed

text \<open>C40: The exact effect of a bundle run on the table of executions: nothing when it fails before the script starts,
  otherwise one entry marked completed. No entry is ever removed by it, so every executed bundle leaves an entry behind.\<close>

theorem execute_bundle_table:
  shows "active_executions (snd (execute_bundle env cfg pr i data sid sp csv x)) =
     (if \<exists>temp_dir es target. bi_temp_dir i = Inr temp_dir
          \<and> prepare_bundle env cfg pr data sp csv temp_dir = Inr (Inr (es, target))
      then dset (bundle_id pr i sid) (completed_entry i sid) (active_executions x)
      else active_executions x)"
  by (auto simp: execute_bundle_def Let_def start_stop completed_entry_def split: sum.splits prod.splits)

lemma cleanup_filter:
  "distinct (dkeys (active_executions x)) \<Longrightarrow>
     active_executions (snd (cleanup_execution_environment sid x)) =
       filter (\<lambda>(eid, i). ei_session_id i \<noteq> PStr sid) (active_executions x)"
  unfolding cleanup_execution_environment_def Let_def by (simp add: fold_ddel_filtered)

lemma distinct_start_stop:
  "distinct (dkeys (active_executions x)) \<Longrightarrow> distinct (dkeys (active_executions (start_execution_monitoring t eid sid x)))"
  "distinct (dkeys (active_executions x)) \<Longrightarrow> distinct (dkeys (active_executions (stop_execution_monitoring t eid x)))"
  by (simp_all add: start_execution_monitoring_def stop_execution_monitoring_def split: option.splits)

lemma start_stop_other:
  assumes "eid' \<noteq> eid"
  shows "dget (active_executions (start_execution_monitoring t eid sid x)) eid' = dget (active_executions x) eid'"
    "dget (active_executions (stop_execution_monitoring t eid x)) eid' = dget (active_executions x) eid'"
  using assms by (simp_all add: start_execution_monitoring_def stop_execution_monitoring_def split: option.splits)

lemma stop_session:
  "dget (active_executions x) eid = Some i \<Longrightarrow>
     \<exists>i'. dget (active_executions (stop_execution_monitoring t eid x)) eid = Some i' \<and> ei_session_id i' = ei_session_id i"
  by (simp add: stop_execution_monitoring_def)

text \<open>Whatever happens to a script, the session it ran for leaves no entry in the table of
  executions, and entries of other sessions are kept, except one that has the same execution identifier.\<close>

theorem execute_script_cleans_up:
  assumes "distinct (dkeys (active_executions x))" and "eid \<noteq> script_id i sid"
  shows "dget (active_executions (snd (execute_script env cfg i script sid x))) eid =
     (case dget (active_executions x) eid of Some e \<Rightarrow> if ei_session_id e = PStr sid then None else Some e | None \<Rightarrow> None)
   \<and> (case dget (active_executions (snd (execute_script env cfg i script sid x))) (script_id i sid) of
        Some e \<Rightarrow> ei_session_id e \<noteq> PStr sid | None \<Rightarrow> True)"
proof -
  let ?own = "\<lambda>e. ei_session_id e = PStr sid"
  obtain x' where x': "snd (execute_script env cfg i script sid x) = snd (cleanup_execution_environment sid x')"
    and d: "distinct (dkeys (active_executions x'))" and same: "dget (active_executions x') eid = dget (active_executions x) eid"
  proof -
    let ?x1 = "start_execution_monitoring (si_start i) (script_id i sid) (PStr sid) x"
    let ?x2 = "stop_execution_monitoring (si_stop i) (script_id i sid) ?x1"
    have "\<exists>x' \<in> {x, ?x1, ?x2}. snd (execute_script env cfg i script sid x) = snd (cleanup_execution_environment sid x')"
      by (auto simp: execute_script_def Let_def split: prod.splits bool.splits sum.splits)
    with that assms distinct_start_stop start_stop_other [OF assms(2)] show thesis by auto
  qed
  have f: "active_executions (snd (execute_script env cfg i script sid x)) =
      filter (\<lambda>(eid, e). \<not> ?own e) (active_executions x')"
    unfolding x' by (rule cleanup_filter [OF d])
  show ?thesis unfolding f dget_filter [OF d] same by (auto split: option.splits)
qed

section \<open>A concrete run\<close>

text \<open>A host where every script parses to a call of \<^verbatim>\<open>print\<close>, and where running it prints a line and leaves the outputs
  directory of the earlier example.\<close>

definition demo_env :: exec_env where
  "demo_env = \<lparr>xe_zip = \<lambda>_. Inr demo_zip, xe_read_text = \<lambda>bs. Inr (map unat bs), xe_write_text = str_encode,
     xe_parse = \<lambda>_. Inr (ANode [ACall (AName (lit ''print'')) []]), xe_ls = \<lambda>ns. ns, xe_links = [], xe_host = \<lambda>_. None,
     xe_environ = [(lit ''PATH'', lit ''/bin'')], xe_python = lit ''/usr/bin/python3'', xe_euid = 0, xe_chown = \<lambda>_. Inr (),
     xe_run = \<lambda>_ _. RunDone 0 (lit ''ok'') [] (\<lambda>_. Some (FDir demo_root))\<rparr>"

definition demo_inputs :: bundle_inputs where
  "demo_inputs = \<lparr>bi_id_time = 3000, bi_start = 3001, bi_stop = 3002, bi_temp_dir = Inr (lit ''/tmp/d''), bi_cleanup = Inr ()\<rparr>"

lemma demo_script:
  "find_script demo_env (lit ''/tmp/d'') demo_tree None = Some (lit ''/tmp/d/main.py'')"
  "read_script demo_env pr (lit ''/tmp/d'') demo_tree (lit ''/tmp/d/main.py'') = Inr (lit ''pass'')"
  "validate_script (xe_parse demo_env) script = (True, lit ''Script validation successful'')"
proof -
  have n: "node_at demo_env (lit ''/tmp/d'') demo_tree (lit ''/tmp/d/main.py'') = Some (FFile [112, 97, 115, 115])"
    by (simp add: node_at_def demo_tree_def starts_with_def text_segs_def lit_def)
  have j: "path_join (lit ''/tmp/d'') (lit ''main.py'') = lit ''/tmp/d/main.py''"
    by (simp add: path_join_def starts_with_def lit_def)
  show "find_script demo_env (lit ''/tmp/d'') demo_tree None = Some (lit ''/tmp/d/main.py'')"
    by (simp add: find_script_def n j)
  show "read_script demo_env pr (lit ''/tmp/d'') demo_tree (lit ''/tmp/d/main.py'') = Inr (lit ''pass'')"
    by (simp add: read_script_def n) (simp add: demo_env_def lit_def)
  show "validate_script (xe_parse demo_env) script = (True, lit ''Script validation successful'')"
    by (simp add: validate_script_def demo_env_def forbidden_operations_def)
qed

lemma demo_prepare:
  "prepare_bundle demo_env default_config pr data None None (lit ''/tmp/d'')
     = Inr (Inr (demo_tree @ [(lit ''outputs'', FDir []), (lit ''.mplconfig'', FDir [])], lit ''/tmp/d/main.py''))"
proof -
  have "safe_extract_zip default_config pr (xe_links demo_env) (xe_zip demo_env) data (lit ''/tmp/d'') = Inr (Inr demo_tree)"
    using demo_extract by (simp add: demo_env_def)
  moreover have "make_dirs pr b [lit ''outputs''] demo_tree = Inr (demo_tree @ [(lit ''outputs'', FDir [])])" for b
    by (simp add: demo_tree_def)
  moreover have "make_dirs pr b [lit ''.mplconfig''] (demo_tree @ [(lit ''outputs'', FDir [])])
      = Inr (demo_tree @ [(lit ''outputs'', FDir []), (lit ''.mplconfig'', FDir [])])" for b
    by (simp add: demo_tree_def)
  ultimately show ?thesis
    by (simp add: prepare_bundle_def inject_csv_def demo_script del: make_dirs.simps)
qed

lemma demo_execute:
  "execute_bundle demo_env default_config pr demo_inputs data sid None None x = ((True, lit ''ok'', demo_files),
     x\<lparr>active_executions := dset (bundle_id pr demo_inputs sid) (completed_entry demo_inputs sid) (active_executions x)\<rparr>)"
proof -
  have u: "\<exists>ps. as_script_user default_config (xe_euid demo_env) (xe_chown demo_env) paths = Inr (ps, True)" for paths
  proof -
    have "\<exists>r. rfold (\<lambda>p acc. rbind (xe_chown demo_env p) (\<lambda>_. Inr (acc @ [p]))) qs acc = Inr r" for qs acc
      by (induction qs arbitrary: acc) (auto simp: demo_env_def)
    from this [of "concat (map (\<lambda>(path, node). path # walk_paths path node) paths)" "[]"]
    show ?thesis by (auto simp: as_script_user_def demo_env_def)
  qed
  have c: "collect_output_files (\<lambda>_. Some (FDir demo_root)) 20 (10 * 1024 * 1024) = Inr demo_files"
    by (simp add: demo_eval)
  have r: "run_bundle_script demo_env default_config pr t es s = Inr (True, lit ''ok'', demo_files)" for t es s
  proof -
    obtain ps where "as_script_user default_config (xe_euid demo_env) (xe_chown demo_env) [(t, FDir es)] = Inr (ps, True)"
      using u by blast
    then show ?thesis using c
      by (simp add: run_bundle_script_def) (simp add: demo_env_def default_config_def bundle_output_def)
  qed
  have "bi_temp_dir demo_inputs = Inr (lit ''/tmp/d'')" "bi_cleanup demo_inputs = Inr ()" by (simp_all add: demo_inputs_def)
  then show ?thesis
    by (simp add: execute_bundle_def demo_prepare r leave_with_def Let_def)
      (simp add: completed_entry_def start_stop executor.equality)
qed


text \<open>The same host without room for a temporary directory: the run fails.\<close>

definition full_disk :: bundle_inputs where
  "full_disk = demo_inputs\<lparr>bi_temp_dir := Inl (Exn OSError (lit ''No space left on device''))\<rparr>"

theorem execute_bundle_failure_witness:
  "snd (snd (fst (execute_bundle demo_env default_config (\<lambda>_. True) full_disk [1] (PStr (lit ''s'')) None None init_executor))) = []"
proof -
  have "execute_bundle demo_env default_config (\<lambda>_. True) full_disk [1] (PStr (lit ''s'')) None None init_executor =
      ((False, lit ''Bundle execution error: '' @ lit ''No space left on device'', []), init_executor)"
    by (simp add: execute_bundle_def full_disk_def Let_def bundle_failure_def)
  from execute_bundle_failure_no_files [OF this] this show ?thesis by simp
qed

text \<open>A table with an entry of the session that is about to run and one of another session.\<close>

definition demo_executor :: executor where
  "demo_executor = start_execution_monitoring 1 (lit ''exec_s_0'') (PStr (lit ''s''))
     (start_execution_monitoring 1 (lit ''exec_t_0'') (PStr (lit ''t'')) init_executor)"

definition demo_script_inputs :: script_inputs where
  "demo_script_inputs = \<lparr>si_id_time = 7, si_start = 7, si_stop = 8, si_file = Inr (lit ''/tmp/x.py''), si_tmp = lit ''/tmp''\<rparr>"

theorem execute_script_cleans_up_witness:
  "dget (active_executions (snd (execute_script demo_env default_config demo_script_inputs (lit ''pass'') (lit ''s'') demo_executor)))
     (lit ''exec_s_0'') = None
   \<and> dget (active_executions (snd (execute_script demo_env default_config demo_script_inputs (lit ''pass'') (lit ''s'') demo_executor)))
     (lit ''exec_t_0'') \<noteq> None"
proof -
  have d: "distinct (dkeys (active_executions demo_executor))"
    by (simp add: demo_executor_def start_execution_monitoring_def init_executor_def lit_def)
  have n: "lit ''exec_s_0'' \<noteq> script_id demo_script_inputs (lit ''s'')" "lit ''exec_t_0'' \<noteq> script_id demo_script_inputs (lit ''s'')"
    by (simp_all add: script_id_def demo_script_inputs_def lit_def show_int_def show_nat.simps [of 7])
  show ?thesis
    using execute_script_cleans_up [OF d n(1), of demo_env default_config "lit ''pass''"]
      execute_script_cleans_up [OF d n(2), of demo_env default_config "lit ''pass''"]
    by (simp add: demo_executor_def start_execution_monitoring_def init_executor_def lit_def)
qed

end
