(* ===== verification/Attestation_Api.thy ===== *)
theory Attestation_Api
  imports Output_Files Crypto_Api
begin

text \<open>
  What the attestation back ends share: the values that \<^verbatim>\<open>cbor2\<close> encodes and decodes, the library
  itself as a record of calls, optional byte strings, the lemma that a canonical JSON text fixes every field of the dictionary
  it was printed from, and two contracts as locales. \<open>attestation_service\<close> is the contract of \<^verbatim>\<open>generate_attestation\<close>:
  a document is what the hardware answered to a commitment, and the commitment fixes what was attested.
  \<open>execution_proof\<close> is the contract of \<^verbatim>\<open>create_execution_attestation\<close>: the attested bytes are the canonical JSON of
  a dictionary with the fields that identify the run.
\<close>

section \<open>CBOR values and the library\<close>

datatype cbor =
    CNone | CBool bool | CInt int | CFloat pystr | CText pystr | CBytes bytes
  | CArray "cbor list" | CMap "(cbor \<times> cbor) list" | CTag int cbor | COther pystr

record cbor_lib =
  cb_dumps :: "cbor \<Rightarrow> bytes res"
    \<comment> \<open>\<^verbatim>\<open>cbor2.dumps\<close>\<close>
  cb_loads :: "bytes \<Rightarrow> cbor res"
    \<comment> \<open>\<^verbatim>\<open>cbor2.loads\<close>\<close>
  cb_str :: "cbor \<Rightarrow> pystr"
    \<comment> \<open>\<^verbatim>\<open>str\<close> of a decoded value\<close>

fun cbor_of :: "pyval \<Rightarrow> cbor" where
  "cbor_of PNone = CNone"
| "cbor_of (PBool b) = CBool b"
| "cbor_of (PInt i) = CInt i"
| "cbor_of (PFloat f) = CFloat f"
| "cbor_of (PStr s) = CText s"
| "cbor_of (PBytes b) = CBytes b"
| "cbor_of (PList xs) = CArray (map cbor_of xs)"
| "cbor_of (PDict d) = CMap (map (\<lambda>(k, v). (CText k, cbor_of v)) d)"

fun cbor_py :: "cbor \<Rightarrow> pyval" where
  "cbor_py CNone = PNone"
| "cbor_py (CBool b) = PBool b"
| "cbor_py (CInt i) = PInt i"
| "cbor_py (CFloat f) = PFloat f"
| "cbor_py (CText s) = PStr s"
| "cbor_py (CBytes b) = PBytes b"
| "cbor_py (CArray xs) = PList (map cbor_py xs)"
| "cbor_py (CMap m) = PDict (map (\<lambda>(k, v). (case k of CText s \<Rightarrow> s | _ \<Rightarrow> [], cbor_py v)) m)"
| "cbor_py _ = PNone"

lemma cbor_py_inverse: "cbor_py (cbor_of v) = v"
proof (induction v)
  case (PList xs)
  then show ?case by (simp add: map_idI)
next
  case (PDict d)
  then show ?case by (fastforce intro!: map_idI)
qed simp_all

text \<open>The class name of a decoded value; \<open>COther\<close> carries its own.\<close>

fun cbor_type :: "cbor \<Rightarrow> pystr" where
  "cbor_type CNone = lit ''NoneType''"
| "cbor_type (CBool b) = lit ''bool''"
| "cbor_type (CInt i) = lit ''int''"
| "cbor_type (CFloat f) = lit ''float''"
| "cbor_type (CText s) = lit ''str''"
| "cbor_type (CBytes b) = lit ''bytes''"
| "cbor_type (CArray xs) = lit ''list''"
| "cbor_type (CMap m) = lit ''dict''"
| "cbor_type (CTag t v) = lit ''CBORTag''"
| "cbor_type (COther c) = c"

section \<open>Optional byte strings\<close>

definition opt_bytes :: "bytes option \<Rightarrow> pyval" where
  "opt_bytes b = (case b of Some bs \<Rightarrow> PBytes bs | None \<Rightarrow> PNone)"

text \<open>\<^verbatim>\<open>hashlib.sha256(b).hexdigest() if b else dflt\<close>: absent and empty are not told apart.\<close>

definition hash_or :: "'a \<Rightarrow> (pystr \<Rightarrow> 'a) \<Rightarrow> bytes option \<Rightarrow> 'a" where
  "hash_or dflt f b = (case b of Some (x # xs) \<Rightarrow> f (sha256_hex (x # xs)) | _ \<Rightarrow> dflt)"

abbreviation bytes_or_empty :: "bytes option \<Rightarrow> bytes" where
  "bytes_or_empty b \<equiv> case b of Some bs \<Rightarrow> bs | None \<Rightarrow> []"

lemma hash_or_binds:
  assumes "hash_or (PStr []) PStr a = hash_or (PStr []) PStr b"
  shows "bytes_or_empty a = bytes_or_empty b \<or> collides {bytes_or_empty a} {bytes_or_empty b}"
proof -
  have l: "sha256_hex bs \<noteq> []" for bs using length_sha256_hex [of bs] by force
  show ?thesis
    using assms by (auto simp: hash_or_def collides_def l l [symmetric] split: option.splits list.splits)
qed

lemma json_ok_hash_or [simp]: "json_ok (hash_or (PStr []) PStr b)"
proof -
  have "list_all valid_cp (bytes_hex bs)" for bs
    using bytes_hex_ascii [of _ bs] by (intro ascii_valid_cp) fastforce
  then show ?thesis by (simp add: hash_or_def split: option.splits list.splits)
qed

section \<open>A JSON text fixes its dictionary\<close>

lemma dget_map_snd: "dget (map (\<lambda>(k, v). (k, f v)) d) k = map_option f (dget d k)"
  by (induction d) auto

lemma dget_dict_items: "distinct (dkeys d) \<Longrightarrow> dget (dict_items so d) k = dget d k"
  using dkeys_dict_items [of d so] by (intro fun_cong [OF map_of_eqI]) (auto simp: dict_items_def map_of_inject_set image_def)

lemma json_bytes_fix_fields:
  assumes ok: "json_ok (PDict d)" "json_ok (PDict d')"
    and b: "rbind (json_dumps so cp (PDict d)) str_encode = Inr bs" "rbind (json_dumps so' cp' (PDict d')) str_encode = Inr bs"
  shows "map_option (json_norm so) (dget d k) = map_option (json_norm so') (dget d' k)"
proof -
  have bs: "bs = map of_nat (json_text so cp (PDict d))" "bs = map of_nat (json_text so' cp' (PDict d'))"
    using b ok by (simp_all only: json_dumps_def json_ok_no_bytes str_encode_json_text rbind_simps if_False sum.inject)
  have lt: "\<forall>c \<in> set (json_text so cp (PDict x)). c < 256" if "json_ok (PDict x)" for x so cp
    using json_text_ascii [OF that, of so cp] by fastforce
  have "json_text so cp (PDict d) = json_text so' cp' (PDict d')"
    using bs map_of_nat_byte_inject [OF lt [OF ok(1)] lt [OF ok(2)]] by blast
  then have "json_norm so (PDict d) = json_norm so' (PDict d')"
    by (metis json_loads_text ok option.inject)
  then have "map_of (map (\<lambda>(k, v). (k, json_norm so v)) (dict_items so d)) k
      = map_of (map (\<lambda>(k, v). (k, json_norm so' v)) (dict_items so' d')) k" by simp
  with ok show ?thesis by (simp add: dget_map_snd dget_dict_items)
qed

section \<open>The contract of generate_attestation\<close>

locale attestation_service =
  fixes commitment :: "bytes \<Rightarrow> pyval \<Rightarrow> 'c res"
    and hardware :: "'c \<Rightarrow> bytes res"
    and generate :: "bytes \<Rightarrow> pyval \<Rightarrow> bool \<times> pyval dict"
    and excuse :: "bytes \<times> pyval \<Rightarrow> bytes \<times> pyval \<Rightarrow> bool"
  assumes generate_True: "generate u n = (True, d) \<Longrightarrow>
      \<exists>c q. commitment u n = Inr c \<and> hardware c = Inr q \<and> dget d (lit ''attestation_document'') = Some (PStr (b64encode q))"
    and generate_False: "generate u n = (False, d) \<Longrightarrow> dget d (lit ''error'') \<noteq> None"
    and commitment_binds: "commitment u n = Inr c \<Longrightarrow> commitment u' n' = Inr c \<Longrightarrow> (u, n) = (u', n') \<or> excuse (u, n) (u', n')"
begin

text \<open>When the hardware never signs the same document for two commitments, a document determines the attested
  data and nonce.\<close>

lemma document_binds:
  assumes "\<And>c c' q. hardware c = Inr q \<Longrightarrow> hardware c' = Inr q \<Longrightarrow> c = c'"
    and "generate u n = (True, d)" "generate u' n' = (True, d')"
    and "dget d (lit ''attestation_document'') = dget d' (lit ''attestation_document'')"
  shows "(u, n) = (u', n') \<or> excuse (u, n) (u', n')"
proof -
  obtain c q where c: "commitment u n = Inr c" "hardware c = Inr q"
      "dget d (lit ''attestation_document'') = Some (PStr (b64encode q))"
    using generate_True [OF assms(2)] by blast
  obtain c' q' where c': "commitment u' n' = Inr c'" "hardware c' = Inr q'"
      "dget d' (lit ''attestation_document'') = Some (PStr (b64encode q'))"
    using generate_True [OF assms(3)] by blast
  have "q = q'" using assms(4) c(3) c'(3) by simp
  with assms(1) c(2) c'(2) have "c = c'" by blast
  with c(1) c'(1) show ?thesis using commitment_binds by blast
qed

end

section \<open>The contract of create_execution_attestation\<close>

locale execution_proof =
  fixes proof_data :: "'i \<Rightarrow> pyval dict res"
    and proof_bytes :: "'i \<Rightarrow> bytes res"
    and compact :: bool
    and wf :: "'i \<Rightarrow> bool"
    and job_id :: "'i \<Rightarrow> pyval" and out_text :: "'i \<Rightarrow> pystr" and script :: "'i \<Rightarrow> bytes option"
    and dataset :: "'i \<Rightarrow> bytes option" and manifest :: "'i \<Rightarrow> pystr option"
  assumes proof_bytes: "proof_bytes i = rbind (proof_data i) (\<lambda>d. rbind (json_dumps True compact (PDict d)) str_encode)"
    and proof_ok: "wf i \<Longrightarrow> proof_data i = Inr d \<Longrightarrow> json_ok (PDict d)"
    and proof_fields: "proof_data i = Inr d \<Longrightarrow>
      dget d (lit ''job_id'') = Some (job_id i)
      \<and> (\<exists>ob. str_encode (out_text i) = Inr ob \<and> dget d (lit ''output_hash'') = Some (PStr (sha256_hex ob)))
      \<and> dget d (lit ''script_hash'') = Some (hash_or (PStr []) PStr (script i))
      \<and> dget d (lit ''dataset_hash'') = Some (hash_or (PStr []) PStr (dataset i))
      \<and> dget d (lit ''files_manifest_sha256'') = map_option PStr (manifest i)"
    and wf_text: "wf i \<Longrightarrow> list_all valid_cp (out_text i)"
begin

text \<open>Equal attested bytes mean the same job, output, script, data set and manifest hash, up to SHA-256 collisions.\<close>

lemma proof_bytes_data:
  assumes "proof_bytes i = Inr b"
  obtains d where "proof_data i = Inr d" "rbind (json_dumps True compact (PDict d)) str_encode = Inr b"
  using assms by (auto simp: proof_bytes rbind_eq_Inr_iff)

lemma proof_bytes_fix_fields:
  assumes "wf i" "wf j" "proof_bytes i = Inr b" "proof_bytes j = Inr b"
  obtains d d' where "proof_data i = Inr d" "proof_data j = Inr d'"
    "\<And>k. map_option (json_norm True) (dget d k) = map_option (json_norm True) (dget d' k)"
  using assms by (elim proof_bytes_data) (blast intro: json_bytes_fix_fields proof_ok)

lemma proof_binds:
  assumes "wf i" "wf j" "proof_bytes i = Inr b" "proof_bytes j = Inr b"
  shows "json_norm True (job_id i) = json_norm True (job_id j)
    \<and> manifest i = manifest j
    \<and> (out_text i = out_text j \<or> (\<exists>a c. str_encode (out_text i) = Inr a \<and> str_encode (out_text j) = Inr c \<and> collides {a} {c}))
    \<and> (bytes_or_empty (script i) = bytes_or_empty (script j)
        \<or> collides {bytes_or_empty (script i)} {bytes_or_empty (script j)})
    \<and> (bytes_or_empty (dataset i) = bytes_or_empty (dataset j)
        \<or> collides {bytes_or_empty (dataset i)} {bytes_or_empty (dataset j)})"
proof -
  obtain d d' where d: "proof_data i = Inr d" "proof_data j = Inr d'"
    and eq: "\<And>k. map_option (json_norm True) (dget d k) = map_option (json_norm True) (dget d' k)"
    by (rule proof_bytes_fix_fields [OF assms]) blast
  note f = proof_fields [OF d(1)] and g = proof_fields [OF d(2)]
  have n: "json_norm True (hash_or (PStr []) PStr x) = hash_or (PStr []) PStr x" for x
    by (simp add: hash_or_def split: option.splits list.splits)
  obtain a where a: "str_encode (out_text i) = Inr a" "dget d (lit ''output_hash'') = Some (PStr (sha256_hex a))" using f by blast
  obtain c where c: "str_encode (out_text j) = Inr c" "dget d' (lit ''output_hash'') = Some (PStr (sha256_hex c))" using g by blast
  have job: "json_norm True (job_id i) = json_norm True (job_id j)" using eq [of "lit ''job_id''"] f g by simp
  have man: "manifest i = manifest j"
    using eq [of "lit ''files_manifest_sha256''"] f g by (cases "manifest i"; cases "manifest j") simp_all
  have out: "out_text i = out_text j \<or> collides {a} {c}"
    using eq [of "lit ''output_hash''"] a c str_encode_inject [OF wf_text [OF assms(1)] wf_text [OF assms(2)]]
    by (auto simp: collides_def)
  have scr: "hash_or (PStr []) PStr (script i) = hash_or (PStr []) PStr (script j)"
    using eq [of "lit ''script_hash''"] f g by (simp add: n)
  have dat: "hash_or (PStr []) PStr (dataset i) = hash_or (PStr []) PStr (dataset j)"
    using eq [of "lit ''dataset_hash''"] f g by (simp add: n)
  show ?thesis using job man out a(1) c(1) hash_or_binds [OF scr] hash_or_binds [OF dat] by blast
qed

end

end
