(* ===== verification/Cbor_Instance.thy ===== *)
theory Cbor_Instance
  imports Attestation_Api
begin

text \<open>
  The law the development relies on for \<^verbatim>\<open>cbor2\<close>, that decoding inverts encoding, and a concrete library that
  satisfies it: values are carried in JSON, where strings, integers, booleans and null stand for themselves and every other
  kind is an object with one key that names it. It is not CBOR; it shows that the law can hold, and lets the attestation
  services run on concrete inputs.
\<close>

definition cbor_inverse :: "cbor_lib \<Rightarrow> bool" where
  "cbor_inverse lib \<longleftrightarrow> (\<forall>v b. cb_dumps lib v = Inr b \<longrightarrow> cb_loads lib b = Inr v)"

fun cbor_json :: "cbor \<Rightarrow> pyval" where
  "cbor_json CNone = PNone"
| "cbor_json (CBool b) = PBool b"
| "cbor_json (CInt i) = PInt i"
| "cbor_json (CText s) = PStr s"
| "cbor_json (CFloat f) = PDict [(lit ''f'', PStr f)]"
| "cbor_json (CBytes b) = PDict [(lit ''b'', PStr (bytes_hex b))]"
| "cbor_json (CArray xs) = PList (map cbor_json xs)"
| "cbor_json (CMap m) = PDict [(lit ''m'', PList (map (\<lambda>(k, v). PList [cbor_json k, cbor_json v]) m))]"
| "cbor_json (CTag t v) = PDict [(lit ''t'', PList [PInt t, cbor_json v])]"
| "cbor_json (COther c) = PDict [(lit ''o'', PStr c)]"

fun json_cbor_val :: "pyval \<Rightarrow> cbor" where
  "json_cbor_val PNone = CNone"
| "json_cbor_val (PBool b) = CBool b"
| "json_cbor_val (PInt i) = CInt i"
| "json_cbor_val (PStr s) = CText s"
| "json_cbor_val (PList xs) = CArray (map json_cbor_val xs)"
| "json_cbor_val (PDict [(k, PList xs)]) =
     (if k = lit ''m'' then CMap (map (\<lambda>p. case p of PList [a, b] \<Rightarrow> (json_cbor_val a, json_cbor_val b) | _ \<Rightarrow> (CNone, CNone)) xs)
      else if k = lit ''t'' then case xs of [PInt t, v] \<Rightarrow> CTag t (json_cbor_val v) | _ \<Rightarrow> CNone
      else CNone)"
| "json_cbor_val (PDict [(k, PStr s)]) =
     (if k = lit ''f'' then CFloat s else if k = lit ''o'' then COther s
      else case bytes_fromhex s of Inr b \<Rightarrow> CBytes b | Inl _ \<Rightarrow> CNone)"
| "json_cbor_val _ = CNone"

definition json_cbor :: cbor_lib where
  "json_cbor = \<lparr>
     cb_dumps = \<lambda>v. if json_ok (cbor_json v) then rbind (json_dumps False False (cbor_json v)) str_encode
                    else Inl (Exn ValueError (lit ''not encodable'')),
     cb_loads = \<lambda>b. rbind (py_decode b) (\<lambda>s. case json_loads id s of
                    Some v \<Rightarrow> Inr (json_cbor_val v) | None \<Rightarrow> Inl (Exn ValueError (lit ''not decodable''))),
     cb_str = \<lambda>v. py_repr (\<lambda>_. True) (cbor_json v)\<rparr>"

lemma json_cbor_val_inverse: "json_cbor_val (cbor_json v) = v"
proof (induction v)
  case (CArray xs)
  then show ?case by (simp add: map_idI)
next
  case (CMap m)
  then show ?case by (fastforce intro!: map_idI)
qed (simp_all add: codec_simps)

lemma json_norm_unsorted: "json_norm False v = v"
proof (induction v)
  case (PList xs)
  then show ?case by (simp add: map_idI)
next
  case (PDict d)
  then show ?case by (fastforce simp: dict_items_def intro!: map_idI)
qed simp_all

lemma json_cbor_inverse: "cbor_inverse json_cbor"
  unfolding cbor_inverse_def
proof (intro allI impI)
  fix v b assume d: "cb_dumps json_cbor v = Inr b"
  then have ok: "json_ok (cbor_json v)" by (simp add: json_cbor_def split: if_splits)
  let ?t = "json_text False False (cbor_json v)"
  have b: "str_encode ?t = Inr b"
    using d ok json_ok_no_bytes [OF ok] by (simp add: json_cbor_def json_dumps_def)
  have "list_all (\<lambda>c. c < 0x110000) ?t"
    using json_text_ascii [OF ok, of False False] by (fastforce simp: list_all_iff)
  from py_decode_encode' [OF this b] have "py_decode b = Inr ?t" .
  then show "cb_loads json_cbor b = Inr v"
    by (simp add: json_cbor_def json_loads_text [OF ok] json_norm_unsorted json_cbor_val_inverse)
qed

lemma json_cbor_dumps:
  assumes "json_ok (cbor_json v)"
  shows "\<exists>b. cb_dumps json_cbor v = Inr b"
  using assms json_ok_no_bytes [OF assms] str_encode_json_text [OF assms] by (simp add: json_cbor_def json_dumps_def)

end
