(* ===== verification/Local_Attestation.thy ===== *)
theory Local_Attestation
  imports Cbor_Instance
begin

text \<open>
  \<^verbatim>\<open>implementations/local_attestation_service.py\<close>: documents for development, signed by a local certificate
  hierarchy. The record \<open>pki\<close> holds the calls of the \<^verbatim>\<open>cryptography\<close> package; a certificate is described by \<open>cert_spec\<close>,
  field by field as the builder is called. The directory of the hierarchy is a dictionary of files with
  their contents and, where \<^verbatim>\<open>os.chmod\<close> set it, their mode.
\<close>

section \<open>The library\<close>

record 'k cert_spec =
  cs_subject :: "(pystr \<times> pystr) list"
  cs_issuer :: "(pystr \<times> pystr) list"
  cs_public_key :: 'k
  cs_serial :: nat
  cs_not_before :: time
  cs_not_after :: time
  cs_ca :: bool
  cs_path_length :: "nat option"
  cs_digital_signature :: bool
  cs_key_cert_sign :: bool
  cs_crl_sign :: bool

record ('k, 'c) pki =
  ec_generate :: "nat \<Rightarrow> 'k"
    \<comment> \<open>\<^verbatim>\<open>ec.generate_private_key(SECP384R1)\<close> from the randomness it draws\<close>
  build_cert :: "'k \<Rightarrow> 'k cert_spec \<Rightarrow> 'c res"
    \<comment> \<open>\<^verbatim>\<open>CertificateBuilder ... sign(key, SHA384)\<close>\<close>
  ec_private_pem :: "'k \<Rightarrow> bytes"
  ec_load_private :: "bytes \<Rightarrow> 'k res"
  cert_pem :: "'c \<Rightarrow> bytes"
  load_cert_pem :: "bytes \<Rightarrow> 'c res"
  cert_der :: "'c \<Rightarrow> bytes"
  ec_sign :: "'k \<Rightarrow> bytes \<Rightarrow> bytes res"
    \<comment> \<open>ECDSA with SHA-384, DER encoded\<close>
  decode_dss :: "bytes \<Rightarrow> (nat \<times> nat) res"

section \<open>_ensure_local_ca\<close>

record ca_file =
  cf_data :: bytes
  cf_mode :: "nat option"

type_synonym ca_dir = "ca_file dict"

record ('k, 'c) hierarchy =
  root_key :: 'k
  root_cert :: 'c
  int_key :: 'k
  int_cert :: 'c
  leaf_key :: 'k
  leaf_cert :: 'c

text \<open>What one call draws: the clock, randomness for three keys and three serial numbers, and how the file system
  answers.\<close>

record ca_inputs =
  ca_now :: time
  ca_rnd :: "nat \<Rightarrow> nat"
  ca_serial :: "nat \<Rightarrow> nat"
  ca_makedirs :: "unit res"
  ca_write :: "pystr \<Rightarrow> unit res"

definition CA_FILES :: "pystr list" where
  "CA_FILES = map lit [''root.key'', ''root.pem'', ''intermediate.key'', ''intermediate.pem'', ''leaf.key'', ''leaf.pem'']"

definition days :: "nat \<Rightarrow> time" where
  "days n = of_nat (n * 86400)"

definition root_name :: "(pystr \<times> pystr) list" where
  "root_name = [(lit ''CN'', lit ''Epsilon Local Root CA''), (lit ''O'', lit ''Epsilon (Local Dev)''), (lit ''C'', lit ''AU'')]"

definition int_name :: "(pystr \<times> pystr) list" where
  "int_name = [(lit ''CN'', lit ''Epsilon Local Intermediate CA''), (lit ''O'', lit ''Epsilon (Local Dev)'')]"

definition leaf_name :: "(pystr \<times> pystr) list" where
  "leaf_name = [(lit ''CN'', lit ''Epsilon Local Enclave''), (lit ''O'', lit ''Epsilon (Local Dev)'')]"

definition root_spec :: "ca_inputs \<Rightarrow> 'k \<Rightarrow> 'k cert_spec" where
  "root_spec i k = \<lparr>cs_subject = root_name, cs_issuer = root_name, cs_public_key = k, cs_serial = ca_serial i 0,
     cs_not_before = ca_now i, cs_not_after = ca_now i + days 3650, cs_ca = True, cs_path_length = Some 2,
     cs_digital_signature = False, cs_key_cert_sign = True, cs_crl_sign = True\<rparr>"

definition int_spec :: "ca_inputs \<Rightarrow> 'k \<Rightarrow> 'k cert_spec" where
  "int_spec i k = \<lparr>cs_subject = int_name, cs_issuer = root_name, cs_public_key = k, cs_serial = ca_serial i 1,
     cs_not_before = ca_now i, cs_not_after = ca_now i + days 1825, cs_ca = True, cs_path_length = Some 0,
     cs_digital_signature = False, cs_key_cert_sign = True, cs_crl_sign = True\<rparr>"

definition leaf_spec :: "ca_inputs \<Rightarrow> 'k \<Rightarrow> 'k cert_spec" where
  "leaf_spec i k = \<lparr>cs_subject = leaf_name, cs_issuer = int_name, cs_public_key = k, cs_serial = ca_serial i 2,
     cs_not_before = ca_now i, cs_not_after = ca_now i + of_nat (6 * 3600), cs_ca = False, cs_path_length = None,
     cs_digital_signature = True, cs_key_cert_sign = False, cs_crl_sign = False\<rparr>"

definition generate_hierarchy :: "('k, 'c) pki \<Rightarrow> ca_inputs \<Rightarrow> ('k, 'c) hierarchy res" where
  "generate_hierarchy p i =
     (let rk = ec_generate p (ca_rnd i 0); ik = ec_generate p (ca_rnd i 1); lk = ec_generate p (ca_rnd i 2) in
      rbind (build_cert p rk (root_spec i rk)) (\<lambda>rc.
      rbind (build_cert p rk (int_spec i ik)) (\<lambda>ic.
      rbind (build_cert p ik (leaf_spec i lk)) (\<lambda>lc.
      Inr \<lparr>root_key = rk, root_cert = rc, int_key = ik, int_cert = ic, leaf_key = lk, leaf_cert = lc\<rparr>))))"

text \<open>\<^verbatim>\<open>path.write_bytes(data)\<close>, then \<^verbatim>\<open>os.chmod(path, 0o600)\<close> for keys; a file that exists keeps its mode.\<close>

definition put_file :: "pystr \<times> bytes \<times> bool \<Rightarrow> ca_dir \<Rightarrow> ca_dir" where
  "put_file f d = (case f of (name, data, key) \<Rightarrow>
     dset name \<lparr>cf_data = data, cf_mode = if key then Some 0x180
       else case dget d name of Some old \<Rightarrow> cf_mode old | None \<Rightarrow> None\<rparr> d)"

fun write_all :: "(pystr \<Rightarrow> unit res) \<Rightarrow> (pystr \<times> bytes \<times> bool) list \<Rightarrow> ca_dir \<Rightarrow> unit res \<times> ca_dir" where
  "write_all w [] d = (Inr (), d)"
| "write_all w (f # fs) d = (case w (fst f) of Inl e \<Rightarrow> (Inl e, d) | Inr _ \<Rightarrow> write_all w fs (put_file f d))"

definition hierarchy_files :: "('k, 'c) pki \<Rightarrow> ('k, 'c) hierarchy \<Rightarrow> (pystr \<times> bytes \<times> bool) list" where
  "hierarchy_files p h =
     [(lit ''root.key'', ec_private_pem p (root_key h), True), (lit ''intermediate.key'', ec_private_pem p (int_key h), True),
      (lit ''leaf.key'', ec_private_pem p (leaf_key h), True), (lit ''root.pem'', cert_pem p (root_cert h), False),
      (lit ''intermediate.pem'', cert_pem p (int_cert h), False), (lit ''leaf.pem'', cert_pem p (leaf_cert h), False),
      (lit ''root.der'', cert_der p (root_cert h), False)]"

definition file_data :: "ca_dir \<Rightarrow> string \<Rightarrow> bytes" where
  "file_data d name = (case dget d (lit name) of Some f \<Rightarrow> cf_data f | None \<Rightarrow> [])"

definition load_hierarchy :: "('k, 'c) pki \<Rightarrow> ca_dir \<Rightarrow> ('k, 'c) hierarchy res" where
  "load_hierarchy p d =
     rbind (ec_load_private p (file_data d ''root.key'')) (\<lambda>rk.
     rbind (load_cert_pem p (file_data d ''root.pem'')) (\<lambda>rc.
     rbind (ec_load_private p (file_data d ''intermediate.key'')) (\<lambda>ik.
     rbind (load_cert_pem p (file_data d ''intermediate.pem'')) (\<lambda>ic.
     rbind (ec_load_private p (file_data d ''leaf.key'')) (\<lambda>lk.
     rbind (load_cert_pem p (file_data d ''leaf.pem'')) (\<lambda>lc.
     Inr \<lparr>root_key = rk, root_cert = rc, int_key = ik, int_cert = ic, leaf_key = lk, leaf_cert = lc\<rparr>))))))"

definition ensure_local_ca :: "('k, 'c) pki \<Rightarrow> ca_inputs \<Rightarrow> ca_dir \<Rightarrow> ('k, 'c) hierarchy res \<times> ca_dir" where
  "ensure_local_ca p i d =
     (case ca_makedirs i of
        Inl e \<Rightarrow> (Inl e, d)
      | Inr _ \<Rightarrow>
          (if list_all (\<lambda>f. dget d f \<noteq> None) CA_FILES then (load_hierarchy p d, d)
           else case generate_hierarchy p i of
                  Inl e \<Rightarrow> (Inl e, d)
                | Inr h \<Rightarrow>
                    (case write_all (ca_write i) (hierarchy_files p h) d of
                       (Inl e, d') \<Rightarrow> (Inl e, d')
                     | (Inr _, d') \<Rightarrow> (Inr h, d'))))"

section \<open>generate_local_attestation\<close>

text \<open>Three simulated measurements of 48 bytes.\<close>

definition SIMULATED_PCRS :: "(int \<times> bytes) list" where
  "SIMULATED_PCRS = map (\<lambda>i. (int i, be_bytes 48 (i + 1))) [0, 1, 2]"

record local_inputs =
  li_ca :: ca_inputs
  li_rnd8 :: bytes
  li_rnd4 :: bytes
  li_time :: time
  li_elapsed :: pystr

definition to_bytes_be :: "nat \<Rightarrow> nat \<Rightarrow> bytes res" where
  "to_bytes_be k n = (if n < 256 ^ k then Inr (be_bytes k n) else Inl (Exn OtherError (lit ''int too big to convert'')))"

definition local_module_id :: "local_inputs \<Rightarrow> pystr option \<Rightarrow> pystr" where
  "local_module_id i module_id =
     (case module_id of
        Some (ch # cs) \<Rightarrow> ch # cs
      | _ \<Rightarrow> lit ''i-local-'' @ bytes_hex (li_rnd8 i) @ lit ''-enc'' @ bytes_hex (li_rnd4 i))"

definition opt_entry :: "string \<Rightarrow> pyval \<Rightarrow> (cbor \<times> cbor) list" where
  "opt_entry name v = (if v = PNone then [] else [(CText (lit name), cbor_of v)])"

definition payload_map ::
    "('k, 'c) pki \<Rightarrow> ('k, 'c) hierarchy \<Rightarrow> pystr \<Rightarrow> int \<Rightarrow> (int \<times> bytes) list \<Rightarrow> pyval \<Rightarrow> pyval \<Rightarrow> pyval \<Rightarrow> cbor" where
  "payload_map p h module_id timestamp pcrs user_data nonce public_key =
     CMap ([(CText (lit ''module_id''), CText module_id), (CText (lit ''digest''), CText (lit ''SHA384'')),
        (CText (lit ''timestamp''), CInt timestamp), (CText (lit ''pcrs''), CMap (map (\<lambda>(n, v). (CInt n, CBytes v)) pcrs)),
        (CText (lit ''certificate''), CBytes (cert_der p (leaf_cert h))),
        (CText (lit ''cabundle''), CArray [CBytes (cert_der p (int_cert h)), CBytes (cert_der p (root_cert h))])]
      @ opt_entry ''user_data'' user_data @ opt_entry ''nonce'' nonce @ opt_entry ''public_key'' public_key)"

definition protected_header :: cbor where
  "protected_header = CMap [(CInt 1, CInt (- 35))]"

definition sig_structure :: "bytes \<Rightarrow> bytes \<Rightarrow> cbor" where
  "sig_structure header payload = CArray [CText (lit ''Signature1''), CBytes header, CBytes [], CBytes payload]"

definition cose_sign1 :: "bytes \<Rightarrow> bytes \<Rightarrow> bytes \<Rightarrow> cbor" where
  "cose_sign1 header payload sig = CTag 18 (CArray [CBytes header, CMap [], CBytes payload, CBytes sig])"

definition sign_document :: "cbor_lib \<Rightarrow> ('k, 'c) pki \<Rightarrow> 'k \<Rightarrow> cbor \<Rightarrow> bytes res" where
  "sign_document lib p key payload =
     rbind (cb_dumps lib payload) (\<lambda>payload_bytes.
     rbind (cb_dumps lib protected_header) (\<lambda>header.
     rbind (cb_dumps lib (sig_structure header payload_bytes)) (\<lambda>tbs.
     rbind (ec_sign p key tbs) (\<lambda>der_signature.
     rbind (decode_dss p der_signature) (\<lambda>(r, s).
     rbind (to_bytes_be 48 r) (\<lambda>rb.
     rbind (to_bytes_be 48 s) (\<lambda>sb.
     cb_dumps lib (cose_sign1 header payload_bytes (rb @ sb)))))))))"

definition generate_local_attestation ::
    "cbor_lib \<Rightarrow> ('k, 'c) pki \<Rightarrow> local_inputs \<Rightarrow> bytes option \<Rightarrow> pyval \<Rightarrow> bytes option \<Rightarrow> pystr option
       \<Rightarrow> (int \<times> bytes) list option \<Rightarrow> ca_dir \<Rightarrow> (bool \<times> pyval dict) \<times> ca_dir" where
  "generate_local_attestation lib p i user_data nonce public_key module_id pcrs d =
     (case ensure_local_ca p (li_ca i) d of (ca, d') \<Rightarrow>
        (let use_pcrs = (case pcrs of Some (x # xs) \<Rightarrow> x # xs | _ \<Rightarrow> SIMULATED_PCRS);
             use_module_id = local_module_id i module_id;
             timestamp = \<lfloor>li_time i * 1000\<rfloor>
         in case rbind ca (\<lambda>h. sign_document lib p (leaf_key h)
                (payload_map p h use_module_id timestamp use_pcrs (opt_bytes user_data) nonce (opt_bytes public_key))) of
              Inl e \<Rightarrow>
                ((False, [(lit ''error'', pstr ''LOCAL_ATTESTATION_FAILED''), (lit ''message'', PStr (exn_str e)),
                    (lit ''is_local'', PBool True)]), d')
            | Inr document_bytes \<Rightarrow>
                ((True, [(lit ''attestation_document'', PStr (b64encode document_bytes)),
                    (lit ''attestation_document_length'', PInt (int (length document_bytes))),
                    (lit ''format'', pstr ''CBOR''),
                    (lit ''signed_by'', pstr ''Local ECDSA P-384 CA (NOT AWS Nitro)''),
                    (lit ''user_data_included'', PBool (user_data \<noteq> None)),
                    (lit ''user_data_hash'', hash_or PNone PStr user_data),
                    (lit ''nonce_included'', PBool (nonce \<noteq> PNone)),
                    (lit ''module_id'', PStr use_module_id),
                    (lit ''timestamp'', PInt timestamp),
                    (lit ''is_local'', PBool True),
                    (lit ''is_real_enclave'', PBool False),
                    (lit ''elapsed_ms'', PFloat (li_elapsed i))]), d')))"

definition get_local_root_cert_der :: "ca_dir \<Rightarrow> bytes option" where
  "get_local_root_cert_der d = map_option cf_data (dget d (lit ''root.der''))"

definition get_local_root_cert_pem :: "(bytes \<Rightarrow> pystr res) \<Rightarrow> ca_dir \<Rightarrow> pystr option res" where
  "get_local_root_cert_pem read_text d =
     (case dget d (lit ''root.pem'') of
        None \<Rightarrow> Inr None
      | Some f \<Rightarrow> rbind (read_text (cf_data f)) (\<lambda>s. Inr (Some s)))"

section \<open>The hierarchy is stable\<close>

text \<open>Documented behaviour of the package: a key or certificate that was written as PEM is read back.\<close>

definition pki_pem_inverse :: "('k, 'c) pki \<Rightarrow> bool" where
  "pki_pem_inverse p \<longleftrightarrow> (\<forall>k. ec_load_private p (ec_private_pem p k) = Inr k) \<and> (\<forall>c. load_cert_pem p (cert_pem p c) = Inr c)"

lemma write_all_Inr: "write_all w fs d = (Inr u, d') \<Longrightarrow> d' = fold put_file fs d"
  by (induction fs arbitrary: d) (auto split: sum.splits)

lemma dget_put_file:
  "dget (put_file (n, b, k) d) m = (if m = n then Some \<lparr>cf_data = b, cf_mode = if k then Some 0x180
     else case dget d n of Some old \<Rightarrow> cf_mode old | None \<Rightarrow> None\<rparr> else dget d m)"
  by (simp add: put_file_def)

lemma ensure_local_ca_generated:
  assumes "ensure_local_ca p i d = (Inr h, d')" "\<not> list_all (\<lambda>f. dget d f \<noteq> None) CA_FILES"
  shows "d' = fold put_file (hierarchy_files p h) d"
  using assms by (auto simp: ensure_local_ca_def split: sum.splits if_splits prod.splits dest!: write_all_Inr)

text \<open>C31: The local hierarchy is stable and its keys are private: once a call has returned a hierarchy, every later call
  returns the same one and changes no file, whatever the clock says; and when the call generated it, the
  three private keys are files of mode 0600.\<close>

theorem ensure_local_ca_stable:
  assumes "pki_pem_inverse p" "ensure_local_ca p i d = (Inr h, d')" "ca_makedirs j = Inr ()"
  shows "ensure_local_ca p j d' = (Inr h, d')
    \<and> (list_all (\<lambda>f. dget d f \<noteq> None) CA_FILES
        \<or> list_all (\<lambda>n. map_option cf_mode (dget d' (lit n)) = Some (Some 0x180)) [''root.key'', ''intermediate.key'', ''leaf.key''])"
proof (cases "list_all (\<lambda>f. dget d f \<noteq> None) CA_FILES")
  case True
  with assms(2) have "load_hierarchy p d = Inr h" "d' = d"
    by (auto simp: ensure_local_ca_def split: sum.splits)
  with True assms(3) show ?thesis by (simp add: ensure_local_ca_def)
next
  case False
  note d' = ensure_local_ca_generated [OF assms(2) False]
  have "list_all (\<lambda>f. dget d' f \<noteq> None) CA_FILES"
    unfolding d' by (simp add: hierarchy_files_def CA_FILES_def dget_put_file)
  moreover have "load_hierarchy p d' = Inr h"
    using assms(1) unfolding d' load_hierarchy_def file_data_def pki_pem_inverse_def
    by (simp add: hierarchy_files_def dget_put_file)
  moreover have "list_all (\<lambda>n. map_option cf_mode (dget d' (lit n)) = Some (Some 0x180)) [''root.key'', ''intermediate.key'', ''leaf.key'']"
    unfolding d' by (simp add: hierarchy_files_def dget_put_file)
  ultimately show ?thesis using assms(3) by (simp add: ensure_local_ca_def)
qed

section \<open>The documents verify\<close>

text \<open>The verifier of RFC 8152 for one signer with ES384: \<open>vf\<close> checks an ECDSA signature on the given bytes. It returns the
  decoded payload.\<close>

definition cose_verify :: "cbor_lib \<Rightarrow> (bytes \<Rightarrow> nat \<Rightarrow> nat \<Rightarrow> bool) \<Rightarrow> bytes \<Rightarrow> cbor option" where
  "cose_verify lib vf document =
     (case cb_loads lib document of
        Inr (CTag t (CArray [CBytes header, CMap [], CBytes payload, CBytes sig])) \<Rightarrow>
          (case (cb_loads lib header, cb_dumps lib (sig_structure header payload), cb_loads lib payload) of
             (Inr hmap, Inr tbs, Inr v) \<Rightarrow>
               if t = 18 \<and> hmap = protected_header \<and> length sig = 96 \<and> vf tbs (be_nat (take 48 sig)) (be_nat (drop 48 sig))
               then Some v else None
           | _ \<Rightarrow> None)
      | _ \<Rightarrow> None)"

text \<open>Documented behaviour of ECDSA: what is signed verifies under the same key.\<close>

definition ecdsa_verifies :: "('k, 'c) pki \<Rightarrow> ('k \<Rightarrow> bytes \<Rightarrow> nat \<Rightarrow> nat \<Rightarrow> bool) \<Rightarrow> bool" where
  "ecdsa_verifies p vf \<longleftrightarrow>
     (\<forall>k m der r s. ec_sign p k m = Inr der \<longrightarrow> decode_dss p der = Inr (r, s) \<longrightarrow> vf k m r s)"

lemma to_bytes_be_Inr: "to_bytes_be k n = Inr b \<longleftrightarrow> n < 256 ^ k \<and> b = be_bytes k n"
  by (auto simp: to_bytes_be_def)

lemma sign_document_verifies:
  assumes lib: "cbor_inverse lib" and vf: "ecdsa_verifies p vf"
    and sd: "sign_document lib p k payload = Inr doc"
  shows "cose_verify lib (vf k) doc = Some payload"
proof -
  from sd obtain pb hb tbs der r s where
    d: "cb_dumps lib payload = Inr pb" "cb_dumps lib protected_header = Inr hb"
      "cb_dumps lib (sig_structure hb pb) = Inr tbs" "ec_sign p k tbs = Inr der" "decode_dss p der = Inr (r, s)"
    and b: "r < 256 ^ 48" "s < 256 ^ 48"
    and doc: "cb_dumps lib (cose_sign1 hb pb (be_bytes 48 r @ be_bytes 48 s)) = Inr doc"
    by (auto simp: sign_document_def rbind_eq_Inr_iff to_bytes_be_Inr)
  have "cb_loads lib doc = Inr (cose_sign1 hb pb (be_bytes 48 r @ be_bytes 48 s))"
    "cb_loads lib hb = Inr protected_header" "cb_loads lib pb = Inr payload"
    using lib d(1,2) doc by (simp_all add: cbor_inverse_def)
  moreover have "vf k tbs r s" using vf d(4,5) by (simp add: ecdsa_verifies_def)
  moreover have "be_nat (be_bytes 48 r) = r" "be_nat (be_bytes 48 s) = s" using b by (simp_all add: be_nat_be_bytes del: be_bytes.simps)
  ultimately show ?thesis using d(3) by (simp add: cose_verify_def cose_sign1_def del: be_bytes.simps)
qed


section \<open>A concrete run\<close>

text \<open>A package whose keys and certificates are byte strings, and whose signature on a message is a digest of the key and the message
  length.\<close>

definition toy_pki :: "(bytes, bytes) pki" where
  "toy_pki = \<lparr>ec_generate = be_bytes 8, build_cert = \<lambda>k s. Inr (k @ be_bytes 8 (cs_serial s)),
     ec_private_pem = \<lambda>k. k, ec_load_private = Inr, cert_pem = \<lambda>c. c, load_cert_pem = Inr, cert_der = \<lambda>c. c,
     ec_sign = \<lambda>k m. Inr (sha256 k), decode_dss = \<lambda>der. Inr (be_nat der mod 256, 7)\<rparr>"

definition toy_ecdsa :: "bytes \<Rightarrow> bytes \<Rightarrow> nat \<Rightarrow> nat \<Rightarrow> bool" where
  "toy_ecdsa k m r s \<longleftrightarrow> r = be_nat (sha256 k) mod 256 \<and> s = 7"

definition demo_ca :: ca_inputs where
  "demo_ca = \<lparr>ca_now = 1000, ca_rnd = \<lambda>i. i, ca_serial = \<lambda>i. 10 + i, ca_makedirs = Inr (), ca_write = \<lambda>_. Inr ()\<rparr>"

definition demo_local :: local_inputs where
  "demo_local = \<lparr>li_ca = demo_ca, li_rnd8 = [1], li_rnd4 = [2], li_time = 1000, li_elapsed = lit ''1.5''\<rparr>"

definition demo_hierarchy :: "(bytes, bytes) hierarchy" where
  "demo_hierarchy = \<lparr>root_key = be_bytes 8 0, root_cert = be_bytes 8 0 @ be_bytes 8 10, int_key = be_bytes 8 1,
     int_cert = be_bytes 8 0 @ be_bytes 8 11, leaf_key = be_bytes 8 2, leaf_cert = be_bytes 8 1 @ be_bytes 8 12\<rparr>"

lemma toy_pki_laws: "pki_pem_inverse toy_pki" "ecdsa_verifies toy_pki toy_ecdsa"
  by (simp_all add: pki_pem_inverse_def ecdsa_verifies_def toy_pki_def toy_ecdsa_def)

lemma demo_ensure: "ensure_local_ca toy_pki demo_ca [] = (Inr demo_hierarchy, fold put_file (hierarchy_files toy_pki demo_hierarchy) [])"
proof -
  have "generate_hierarchy toy_pki demo_ca = Inr demo_hierarchy"
    by (simp add: generate_hierarchy_def toy_pki_def demo_ca_def demo_hierarchy_def root_spec_def int_spec_def leaf_spec_def Let_def
        del: be_bytes.simps)
  moreover have "write_all (\<lambda>_. Inr ()) fs d = (Inr (), fold put_file fs d)" for fs d
    by (induction fs arbitrary: d) auto
  ultimately show ?thesis by (simp add: ensure_local_ca_def CA_FILES_def demo_ca_def)
qed

theorem ensure_local_ca_stable_witness:
  "ensure_local_ca toy_pki (demo_ca\<lparr>ca_now := 10 ^ 9\<rparr>) (snd (ensure_local_ca toy_pki demo_ca []))
     = (Inr demo_hierarchy, snd (ensure_local_ca toy_pki demo_ca []))"
proof -
  have "ca_makedirs (demo_ca\<lparr>ca_now := 10 ^ 9\<rparr>) = Inr ()" by (simp add: demo_ca_def)
  from ensure_local_ca_stable [OF toy_pki_laws(1) demo_ensure this] show ?thesis by (simp add: demo_ensure)
qed

lemma valid_cp_bytes_hex [simp]: "list_all valid_cp (bytes_hex b)"
  using bytes_hex_ascii [of _ b] by (intro ascii_valid_cp) fastforce

lemma demo_sign:
  assumes "json_ok (cbor_json payload)"
  shows "\<exists>doc. sign_document json_cbor toy_pki k payload = Inr doc"
proof -
  obtain pb where 1: "cb_dumps json_cbor payload = Inr pb" using json_cbor_dumps [OF assms] by blast
  obtain hb where 2: "cb_dumps json_cbor protected_header = Inr hb"
    using json_cbor_dumps [of protected_header] by (auto simp: protected_header_def)
  obtain tbs where 3: "cb_dumps json_cbor (sig_structure hb pb) = Inr tbs"
    using json_cbor_dumps [of "sig_structure hb pb"] by (auto simp: sig_structure_def)
  have 4: "decode_dss toy_pki der = Inr (be_nat der mod 256, 7)" "ec_sign toy_pki k m = Inr (sha256 k)" for der m
    by (simp_all add: toy_pki_def)
  have "n mod 256 < (256 :: nat) ^ 48" "(7 :: nat) < 256 ^ 48" for n
    by (rule order.strict_trans2 [of _ "256 ^ 1"], simp, rule power_increasing) simp_all
  then have 5: "\<exists>b. to_bytes_be 48 (n mod 256) = Inr b" "\<exists>b. to_bytes_be 48 7 = Inr b" for n
    by (simp_all add: to_bytes_be_def del: be_bytes.simps)
  have 6: "\<exists>doc. cb_dumps json_cbor (cose_sign1 hb pb sig) = Inr doc" for sig
    by (rule json_cbor_dumps) (simp add: cose_sign1_def)
  obtain rb sb where 7: "to_bytes_be 48 (be_nat (sha256 k) mod 256) = Inr rb" "to_bytes_be 48 7 = Inr sb" using 5 by blast
  from 6 show ?thesis by (simp add: sign_document_def 1 2 3 4 7)
qed

lemma demo_local_ok:
  "\<exists>res. generate_local_attestation json_cbor toy_pki demo_local (Some [1, 2]) (PBytes [3]) None None None []
     = ((True, res), fold put_file (hierarchy_files toy_pki demo_hierarchy) [])"
proof -
  have ok: "json_ok (cbor_json (payload_map toy_pki demo_hierarchy mid ts SIMULATED_PCRS (PBytes [1, 2]) (PBytes [3]) PNone))"
    if "list_all valid_cp mid" for mid ts
    using that by (simp add: payload_map_def opt_entry_def SIMULATED_PCRS_def del: be_bytes.simps bytes_hex.simps)
  have "list_all valid_cp (local_module_id demo_local None)"
    by (simp add: local_module_id_def)
  from demo_sign [OF ok [OF this, of "\<lfloor>li_time demo_local * 1000\<rfloor>"], of "leaf_key demo_hierarchy"] demo_ensure show ?thesis
    by (auto simp: generate_local_attestation_def Let_def opt_bytes_def demo_local_def)
qed


end
