(* ===== verification/Nitro_Attestation.thy ===== *)
theory Nitro_Attestation
  imports Local_Attestation Config
begin

text \<open>
  \<^verbatim>\<open>implementations/attestation_service_impl.py\<close>: the AWS Nitro back end. The state is whether the device file exists and the
  descriptor it was opened with. The kernel is the record \<open>nsm_io\<close>: the addresses of the two buffers and the call
  \<^verbatim>\<open>fcntl.ioctl\<close>, which gets the message and the memory it points to and answers with the updated message and the response
  buffer. A nonce that a caller passes on is a dynamic value.
\<close>

section \<open>The device\<close>

record nitro =
  nsm_available :: bool
  nsm_fd :: "int option"

definition open_nsm_device :: "int res \<Rightarrow> int option res" where
  "open_nsm_device r = (case r of Inr fd \<Rightarrow> Inr (Some fd) | Inl (Exn OSError _) \<Rightarrow> Inr None | Inl e \<Rightarrow> Inl e)"

definition init_nitro :: "bool \<Rightarrow> int res \<Rightarrow> nitro res" where
  "init_nitro exists opened =
     (if exists then rbind (open_nsm_device opened) (\<lambda>fd. Inr \<lparr>nsm_available = True, nsm_fd = fd\<rparr>)
      else Inr \<lparr>nsm_available = False, nsm_fd = None\<rparr>)"

definition NSM_IOCTL_REQUEST :: nat where
  "NSM_IOCTL_REQUEST = 0xC0200A00"

definition response_capacity :: nat where
  "response_capacity = 0x3000"

record nsm_io =
  io_request_addr :: nat
  io_response_addr :: nat
  io_ioctl :: "int \<Rightarrow> nat \<Rightarrow> bytes \<Rightarrow> bytes \<Rightarrow> (bytes \<times> bytes) res"

text \<open>\<^verbatim>\<open>struct.pack('QQQQ', ...)\<close> and \<^verbatim>\<open>struct.unpack\<close> on a little-endian machine.\<close>

definition pack_quads :: "nat list \<Rightarrow> bytes" where
  "pack_quads ns = concat (map (\<lambda>n. rev (be_bytes 8 n)) ns)"

definition unpack_quads :: "bytes \<Rightarrow> nat list res" where
  "unpack_quads bs =
     (if length bs = 32 then Inr (map (\<lambda>i. be_nat (rev (take 8 (drop (8 * i) bs)))) [0, 1, 2, 3])
      else Inl (Exn OtherError (lit ''unpack requires a buffer of 32 bytes'')))"

definition nsm_ioctl :: "nsm_io \<Rightarrow> nitro \<Rightarrow> bytes \<Rightarrow> bytes res" where
  "nsm_ioctl io st request_data =
     (case nsm_fd st of
        None \<Rightarrow> Inl (Exn NSMError (lit ''NSM device not open''))
      | Some fd \<Rightarrow>
          (let nsm_message = pack_quads [io_request_addr io, length request_data, io_response_addr io, response_capacity] in
           case io_ioctl io fd NSM_IOCTL_REQUEST nsm_message (request_data @ [0]) of
             Inl (Exn OSError msg) \<Rightarrow> Inl (Exn NSMError (lit ''ioctl failed: '' @ msg))
           | Inl e \<Rightarrow> Inl e
           | Inr (message', response_buf) \<Rightarrow>
               rbind (unpack_quads message') (\<lambda>qs.
               if qs ! 3 = 0 then Inl (Exn NSMError (lit ''Empty response from NSM''))
               else Inr (take (qs ! 3) response_buf))))"

section \<open>Requests and responses\<close>

definition build_attestation_request :: "bytes option \<Rightarrow> pyval \<Rightarrow> bytes option \<Rightarrow> pyval" where
  "build_attestation_request user_data nonce public_key =
     PDict [(lit ''Attestation'', PDict
       ((case user_data of Some b \<Rightarrow> [(lit ''user_data'', PBytes b)] | None \<Rightarrow> [])
        @ (if nonce = PNone then [] else [(lit ''nonce'', nonce)])
        @ (case public_key of Some b \<Rightarrow> [(lit ''public_key'', PBytes b)] | None \<Rightarrow> [])))]"

abbreviation cmap_get :: "(cbor \<times> cbor) list \<Rightarrow> string \<Rightarrow> cbor option" where
  "cmap_get m k \<equiv> map_of m (CText (lit k))"

definition cbor_text :: "cbor_lib \<Rightarrow> cbor \<Rightarrow> pystr" where
  "cbor_text lib v = (case v of CText s \<Rightarrow> s | _ \<Rightarrow> cb_str lib v)"

definition response_document :: "cbor \<Rightarrow> cbor option" where
  "response_document response =
     (case response of
        CMap m \<Rightarrow> (case cmap_get m ''Attestation'' of Some (CMap a) \<Rightarrow> cmap_get a ''document'' | _ \<Rightarrow> None)
      | _ \<Rightarrow> None)"

definition parse_attestation_response :: "cbor_lib \<Rightarrow> bytes \<Rightarrow> (bool \<times> cbor) res" where
  "parse_attestation_response lib response_data =
     rbind (cb_loads lib response_data) (\<lambda>response.
     Inr (case response_document response of
            Some document \<Rightarrow> (True, document)
          | None \<Rightarrow>
              (case (case response of CMap m \<Rightarrow> cmap_get m ''Error'' | _ \<Rightarrow> None) of
                 Some err \<Rightarrow> (False, err)
               | None \<Rightarrow> (False, CText (lit ''Unexpected response format: '' @ cbor_text lib response)))))"

section \<open>generate_attestation\<close>

definition nsm_failure :: "string \<Rightarrow> pystr \<Rightarrow> bool \<times> pyval dict" where
  "nsm_failure code msg = (False, [(lit ''error'', pstr code), (lit ''message'', PStr msg), (lit ''is_real_enclave'', PBool True)])"

definition how_to_verify :: pyval where
  "how_to_verify = PList (map pstr [''1. Base64 decode the attestation_document'', ''2. Parse as CBOR (RFC 8949)'',
     ''3. Extract certificate chain (cabundle)'', ''4. Verify chain against AWS Nitro root cert'',
     ''5. Verify COSE signature on document'', ''6. Extract and compare PCR values'',
     ''7. Verify user_data matches expected hash''])"

definition nsm_success :: "bytes option \<Rightarrow> pyval \<Rightarrow> bytes \<Rightarrow> bool \<times> pyval dict" where
  "nsm_success user_data nonce document =
     (True, [(lit ''attestation_document'', PStr (b64encode document)),
       (lit ''attestation_document_length'', PInt (int (length document))), (lit ''format'', pstr ''CBOR''),
       (lit ''signed_by'', pstr ''AWS Nitro Attestation PKI''), (lit ''user_data_included'', PBool (user_data \<noteq> None)),
       (lit ''user_data_hash'', hash_or PNone PStr user_data), (lit ''nonce_included'', PBool (nonce \<noteq> PNone)),
       (lit ''how_to_verify'', how_to_verify),
       (lit ''aws_root_cert_url'', pstr ''https://aws-nitro-enclaves.amazonaws.com/AWS_NitroEnclaves_Root-G1.zip'')])"

text \<open>The log line between the request and the call evaluates \<^verbatim>\<open>len(nonce)\<close> of a truthy nonce, which raises for a
  number.\<close>

definition nsm_exchange :: "cbor_lib \<Rightarrow> nsm_io \<Rightarrow> nitro \<Rightarrow> bytes option \<Rightarrow> pyval \<Rightarrow> bytes option \<Rightarrow> (bool \<times> cbor) res" where
  "nsm_exchange lib io st user_data nonce public_key =
     rbind (cb_dumps lib (cbor_of (build_attestation_request user_data nonce public_key))) (\<lambda>request_data.
     rbind (if truthy nonce then py_len nonce else Inr 0) (\<lambda>_.
     rbind (nsm_ioctl io st request_data) (\<lambda>response_data.
     parse_attestation_response lib response_data)))"

definition generate_nsm_attestation ::
    "cbor_lib \<Rightarrow> nsm_io \<Rightarrow> nitro \<Rightarrow> bytes option \<Rightarrow> pyval \<Rightarrow> bytes option \<Rightarrow> bool \<times> pyval dict" where
  "generate_nsm_attestation lib io st user_data nonce public_key =
     (case nsm_exchange lib io st user_data nonce public_key of
        Inl (Exn NSMError msg) \<Rightarrow> nsm_failure ''NSM_ERROR'' msg
      | Inl e \<Rightarrow> nsm_failure ''NSM_EXCEPTION'' (exn_str e)
      | Inr (False, result) \<Rightarrow> nsm_failure ''NSM_ERROR'' (cbor_text lib result)
      | Inr (True, CBytes document) \<Rightarrow> nsm_success user_data nonce document
      | Inr (True, result) \<Rightarrow>
          nsm_failure ''NSM_EXCEPTION'' (lit ''a bytes-like object is required, not '' @ quoted (cbor_type result)))"

definition nitro_generate_attestation ::
    "cbor_lib \<Rightarrow> ('k, 'c) pki \<Rightarrow> nsm_io \<Rightarrow> config \<Rightarrow> local_inputs \<Rightarrow> nitro \<Rightarrow> bytes option \<Rightarrow> pyval \<Rightarrow> bytes option
       \<Rightarrow> ca_dir \<Rightarrow> (bool \<times> pyval dict) \<times> ca_dir" where
  "nitro_generate_attestation lib p io cfg li st user_data nonce public_key d =
     (if \<not> nsm_available st
      then if \<not> ALLOW_LOCAL_ATTESTATION cfg
           then ((False, [(lit ''error'', pstr ''NOT_IN_ENCLAVE''),
                   (lit ''message'', PStr (lit ''Attestation requires AWS Nitro Enclave. /dev/nsm not found. ''
                      @ lit ''Set ALLOW_LOCAL_ATTESTATION=true for local development only.'')),
                   (lit ''is_real_enclave'', PBool False)]), d)
           else generate_local_attestation lib p li user_data nonce public_key None None d
      else if nsm_fd st = None
      then (nsm_failure ''NSM_UNAVAILABLE'' (lit ''Failed to open /dev/nsm device.''), d)
      else (generate_nsm_attestation lib io st user_data nonce public_key, d))"

definition nitro_is_real_enclave :: "nitro \<Rightarrow> bool" where
  "nitro_is_real_enclave st = nsm_available st"

section \<open>create_execution_attestation\<close>

text \<open>The arguments of the call, then the clock and the random bytes it may draw.\<close>

record exec_args =
  ea_job_id :: pyval
  ea_output :: pystr
  ea_script_bytes :: "bytes option"
  ea_dataset_bytes :: "bytes option"
  ea_external_nonce :: "bytes option"
  ea_context_hash :: pyval
  ea_files_manifest_sha256 :: "pystr option"
  ea_time :: time
  ea_urandom :: bytes

definition has_external_nonce :: "exec_args \<Rightarrow> bool" where
  "has_external_nonce a = (case ea_external_nonce a of Some (x # xs) \<Rightarrow> True | _ \<Rightarrow> False)"

definition nitro_nonce :: "exec_args \<Rightarrow> bytes" where
  "nitro_nonce a = (if has_external_nonce a then bytes_or_empty (ea_external_nonce a) else ea_urandom a)"

definition nitro_proof_data :: "exec_args \<Rightarrow> pyval dict res" where
  "nitro_proof_data a =
     rbind (str_encode (ea_output a)) (\<lambda>output_bytes. Inr (
       [(lit ''job_id'', ea_job_id a), (lit ''script_hash'', hash_or (PStr []) PStr (ea_script_bytes a)),
        (lit ''dataset_hash'', hash_or (PStr []) PStr (ea_dataset_bytes a)),
        (lit ''output_hash'', PStr (sha256_hex output_bytes)), (lit ''timestamp'', PInt \<lfloor>ea_time a\<rfloor>)]
       @ (if truthy (ea_context_hash a) then [(lit ''context_hash'', ea_context_hash a)] else [])
       @ (case ea_files_manifest_sha256 a of Some h \<Rightarrow> [(lit ''files_manifest_sha256'', PStr h)] | None \<Rightarrow> [])
       @ [(lit ''nonce'', PStr (b64encode (nitro_nonce a)))]
       @ (if has_external_nonce a then [] else [(lit ''nonce_source'', pstr ''random'')])))"

definition nitro_proof_bytes :: "exec_args \<Rightarrow> bytes res" where
  "nitro_proof_bytes a = rbind (nitro_proof_data a) (\<lambda>d. rbind (json_dumps True False (PDict d)) str_encode)"

definition nitro_verification_guide :: pyval where
  "nitro_verification_guide = PDict (map (\<lambda>(k, v). (lit k, pstr v))
     [(''step_1'', ''Download AWS Nitro root certificate from aws_root_cert_url''),
      (''step_2'', ''Base64 decode attestation_document''), (''step_3'', ''Parse CBOR structure''),
      (''step_4'', ''Verify certificate chain against AWS root''), (''step_5'', ''Verify COSE_Sign1 signature''),
      (''step_6'', ''Extract PCR0 and compare with published enclave image hash''),
      (''step_7'', ''Extract user_data and verify output_hash matches SHA256(output)''),
      (''step_8'', ''Verify nonce matches H(STH_current) for freshness''),
      (''step_9'', ''Verify context_hash matches H(job_id||commit_sha||archetype_id||dataset_id)''),
      (''step_10'', ''Verify files_manifest_sha256 matches SHA256 of the canonical manifest of the output files''),
      (''conclusion'', ''If all steps pass, the output was generated inside the verified enclave'')])"

text \<open>\<open>generate\<close> is the \<^verbatim>\<open>generate_attestation\<close> of the same object.\<close>

definition nitro_create_execution_attestation ::
    "(bytes option \<Rightarrow> pyval \<Rightarrow> 's \<Rightarrow> (bool \<times> pyval dict) \<times> 's) \<Rightarrow> exec_args \<Rightarrow> 's \<Rightarrow> (bool \<times> pyval dict) \<times> 's" where
  "nitro_create_execution_attestation generate a d =
     (case (nitro_proof_data a, nitro_proof_bytes a) of
        (Inr proof, Inr proof_bytes) \<Rightarrow>
          (case generate (Some proof_bytes) (PBytes (nitro_nonce a)) d of
             ((True, attestation), d') \<Rightarrow>
               ((True, [(lit ''attestation'', PDict attestation),
                   (lit ''proof'', PDict [(lit ''job_id'', ea_job_id a),
                      (lit ''output_hash'', dget_or PNone proof (lit ''output_hash'')),
                      (lit ''timestamp'', dget_or PNone proof (lit ''timestamp'')),
                      (lit ''nonce'', PStr (b64encode (nitro_nonce a))),
                      (lit ''nonce_source'', if has_external_nonce a then pstr ''sth'' else pstr ''random''),
                      (lit ''context_hash'', ea_context_hash a),
                      (lit ''files_manifest_sha256'',
                         case ea_files_manifest_sha256 a of Some h \<Rightarrow> PStr h | None \<Rightarrow> PNone)]),
                   (lit ''verification_guide'', nitro_verification_guide)]), d')
           | ((False, attestation), d') \<Rightarrow> ((False, attestation), d'))
      | (Inl e, _) \<Rightarrow> ((False, [(lit ''error'', PStr (exn_str e))]), d)
      | (_, Inl e) \<Rightarrow> ((False, [(lit ''error'', PStr (exn_str e))]), d))"

section \<open>Talking to the device\<close>

text \<open>The documented protocol of the device: it reads the request the first vector points to, writes its response to the buffer of the
  second one if it fits, and stores the length of the response in the message.\<close>

definition nsm_protocol :: "nsm_io \<Rightarrow> (bytes \<Rightarrow> bytes) \<Rightarrow> bool" where
  "nsm_protocol io answer \<longleftrightarrow>
     (\<forall>fd ra n rb cap memory. list_all (\<lambda>x. x < 2 ^ 64) [ra, n, rb, cap] \<longrightarrow> n \<le> length memory \<longrightarrow> length (answer (take n memory)) \<le> cap \<longrightarrow>
        (\<exists>rest. io_ioctl io fd NSM_IOCTL_REQUEST (pack_quads [ra, n, rb, cap]) memory
           = Inr (pack_quads [ra, n, rb, length (answer (take n memory))], answer (take n memory) @ rest)))"

lemma unpack_pack:
  assumes "list_all (\<lambda>n. n < 256 ^ 8) [a, b, c, d]"
  shows "unpack_quads (pack_quads [a, b, c, d]) = Inr [a, b, c, d]"
proof -
  have r: "be_nat (rev (rev (be_bytes 8 n))) = n" if "n < 256 ^ 8" for n
    using that by (simp add: be_nat_be_bytes del: be_bytes.simps)
  show ?thesis using assms by (simp add: unpack_quads_def pack_quads_def r be_nat_be_bytes del: be_bytes.simps)
qed

lemma nsm_ioctl_answer:
  assumes "nsm_protocol io answer" "nsm_fd st = Some fd"
    and "io_request_addr io < 2 ^ 64" "io_response_addr io < 2 ^ 64" "length request < 2 ^ 64"
    and "length (answer request) \<le> response_capacity"
  shows "nsm_ioctl io st request =
    (if answer request = [] then Inl (Exn NSMError (lit ''Empty response from NSM'')) else Inr (answer request))"
proof -
  let ?a = "answer request"
  obtain rest where io: "io_ioctl io fd NSM_IOCTL_REQUEST
      (pack_quads [io_request_addr io, length request, io_response_addr io, response_capacity]) (request @ [0])
      = Inr (pack_quads [io_request_addr io, length request, io_response_addr io, length ?a], ?a @ rest)"
    using assms(1) [unfolded nsm_protocol_def, rule_format, of "io_request_addr io" "length request" "io_response_addr io"
        response_capacity "request @ [0]" fd] assms(3-6) by (auto simp: response_capacity_def)
  have "length ?a < 256 ^ 8" using assms(6) by (simp add: response_capacity_def)
  then have "unpack_quads (pack_quads [io_request_addr io, length request, io_response_addr io, length ?a])
      = Inr [io_request_addr io, length request, io_response_addr io, length ?a]"
    using assms(3-5) by (intro unpack_pack) simp
  with io show ?thesis by (simp add: nsm_ioctl_def assms(2) Let_def)
qed


section \<open>The service contract holds\<close>

definition nsm_hardware :: "cbor_lib \<Rightarrow> nsm_io \<Rightarrow> nitro \<Rightarrow> pyval \<Rightarrow> bytes res" where
  "nsm_hardware lib io st request =
     rbind (cb_dumps lib (cbor_of request)) (\<lambda>request_data.
     rbind (nsm_ioctl io st request_data) (\<lambda>response_data.
     rbind (parse_attestation_response lib response_data) (\<lambda>r.
     case r of (True, CBytes document) \<Rightarrow> Inr document | _ \<Rightarrow> Inl (Exn NSMError []))))"

lemma nsm_failure_simps [simp]: "nsm_failure code msg = (b, d) \<longleftrightarrow> \<not> b \<and> d = [(lit ''error'', pstr code),
    (lit ''message'', PStr msg), (lit ''is_real_enclave'', PBool True)]"
  by (auto simp: nsm_failure_def)

lemma generate_nsm_True:
  assumes "generate_nsm_attestation lib io st u n k = (True, d)"
  shows "\<exists>q. nsm_hardware lib io st (build_attestation_request u n k) = Inr q \<and> (True, d) = nsm_success u n q"
proof (cases "nsm_exchange lib io st u n k")
  case (Inl e)
  with assms show ?thesis by (cases e) (simp add: generate_nsm_attestation_def split: exn_kind.splits)
next
  case (Inr r)
  with assms obtain q where r: "r = (True, CBytes q)" "(True, d) = nsm_success u n q"
    by (cases r) (auto simp: generate_nsm_attestation_def split: bool.splits cbor.splits)
  from Inr r(1) have "nsm_hardware lib io st (build_attestation_request u n k) = Inr q"
    by (auto simp: nsm_exchange_def rbind_eq_Inr_iff) (simp add: nsm_hardware_def)
  with r(2) show ?thesis by blast
qed

lemma generate_nsm_False:
  assumes "generate_nsm_attestation lib io st u n k = (False, d)"
  shows "dget d (lit ''error'') \<noteq> None"
  using assms by (auto simp: generate_nsm_attestation_def nsm_success_def
      split: sum.splits pyexn.splits exn_kind.splits prod.splits bool.splits cbor.splits)

lemma build_request_inject:
  "build_attestation_request (Some u) n None = build_attestation_request (Some u') n' None \<longleftrightarrow> u = u' \<and> n = n'"
  by (auto simp: build_attestation_request_def)

interpretation nsm: attestation_service
    "\<lambda>u n. Inr (build_attestation_request (Some u) n None)" "nsm_hardware lib io st"
    "\<lambda>u n. generate_nsm_attestation lib io st (Some u) n None" "\<lambda>_ _. False"
  for lib io st
proof (unfold_locales, goal_cases)
  case (1 u n d)
  from generate_nsm_True [OF this] show ?case by (auto simp: nsm_success_def)
next
  case (2 u n d)
  then show ?case by (rule generate_nsm_False)
next
  case (3 u n c u' n')
  then have "build_attestation_request (Some u) n None = build_attestation_request (Some u') n' None" by simp
  then show ?case by (simp add: build_request_inject)
qed

text \<open>A Nitro document determines what it attests: if the device never returns the same document for two requests, then equal
  documents were generated for equal user data and equal nonces, whatever kind of value the nonce is.\<close>

theorem nitro_document_binds:
  assumes "\<And>c c' q. nsm_hardware lib io st c = Inr q \<Longrightarrow> nsm_hardware lib io st c' = Inr q \<Longrightarrow> c = c'"
    and "generate_nsm_attestation lib io st (Some u) n None = (True, d)"
    and "generate_nsm_attestation lib io st (Some u') n' None = (True, d')"
    and "dget d (lit ''attestation_document'') = dget d' (lit ''attestation_document'')"
  shows "u = u' \<and> n = n'"
  using nsm.document_binds [OF assms] by simp

text \<open>C16: No success without hardware unless local attestation is allowed, and then it says so: a successful result holds the document
  of the device, or it was made without one, with the flag set, and is marked as not from a real enclave.\<close>

theorem nitro_generate_honest:
  assumes "nitro_generate_attestation lib p io cfg li st u n k d = ((True, res), d')"
  shows "(nsm_available st \<and> nsm_fd st \<noteq> None \<and> d' = d \<and> (\<exists>q. nsm_hardware lib io st (build_attestation_request u n k) = Inr q
      \<and> dget res (lit ''attestation_document'') = Some (PStr (b64encode q))))
    \<or> (\<not> nsm_available st \<and> ALLOW_LOCAL_ATTESTATION cfg \<and> dget res (lit ''is_local'') = Some (PBool True)
      \<and> dget res (lit ''is_real_enclave'') = Some (PBool False))"
proof (cases "nsm_available st")
  case True
  with assms have "nsm_fd st \<noteq> None" "generate_nsm_attestation lib io st u n k = (True, res)" "d' = d"
    by (auto simp: nitro_generate_attestation_def split: if_splits)
  with True generate_nsm_True [of lib io st u n k res] show ?thesis by (auto simp: nsm_success_def)
next
  case False
  with assms have "ALLOW_LOCAL_ATTESTATION cfg" "generate_local_attestation lib p li u n k None None d = ((True, res), d')"
    by (auto simp: nitro_generate_attestation_def split: if_splits)
  with False show ?thesis
    by (auto simp: generate_local_attestation_def Let_def split: prod.splits sum.splits)
qed

section \<open>What an execution attestation proves\<close>

text \<open>Texts of real strings: no lone surrogates, and no floats inside the job identifier and the context hash.\<close>

definition exec_args_ok :: "exec_args \<Rightarrow> bool" where
  "exec_args_ok a \<longleftrightarrow> json_ok (ea_job_id a) \<and> json_ok (ea_context_hash a) \<and> list_all valid_cp (ea_output a)
     \<and> (case ea_files_manifest_sha256 a of Some h \<Rightarrow> list_all valid_cp h | None \<Rightarrow> True)"

lemma valid_cp_b64encode [simp]: "list_all valid_cp (b64encode b)"
  using b64encode_ascii [of b] by (intro ascii_valid_cp) fastforce

lemma nitro_proof_ok: "exec_args_ok a \<Longrightarrow> nitro_proof_data a = Inr d \<Longrightarrow> json_ok (PDict d)"
  by (auto simp: nitro_proof_data_def exec_args_ok_def rbind_eq_Inr_iff split: option.splits)

lemma nitro_proof_fields:
  assumes "nitro_proof_data a = Inr d"
  shows "dget d (lit ''job_id'') = Some (ea_job_id a)"
    "\<exists>ob. str_encode (ea_output a) = Inr ob \<and> dget d (lit ''output_hash'') = Some (PStr (sha256_hex ob))"
    "dget d (lit ''script_hash'') = Some (hash_or (PStr []) PStr (ea_script_bytes a))"
    "dget d (lit ''dataset_hash'') = Some (hash_or (PStr []) PStr (ea_dataset_bytes a))"
    "dget d (lit ''files_manifest_sha256'') = map_option PStr (ea_files_manifest_sha256 a)"
    "dget d (lit ''nonce'') = Some (PStr (b64encode (nitro_nonce a)))"
    "dget d (lit ''timestamp'') = Some (PInt \<lfloor>ea_time a\<rfloor>)"
    "dget d (lit ''context_hash'') = (if truthy (ea_context_hash a) then Some (ea_context_hash a) else None)"
    "dget d (lit ''nonce_source'') = (if has_external_nonce a then None else Some (pstr ''random''))"
  using assms by (auto simp: nitro_proof_data_def rbind_eq_Inr_iff split: option.splits)

interpretation nitro_proof: execution_proof nitro_proof_data nitro_proof_bytes False exec_args_ok
    ea_job_id ea_output ea_script_bytes ea_dataset_bytes ea_files_manifest_sha256
proof (unfold_locales, goal_cases)
  case (2 a d)
  then show ?case by (rule nitro_proof_ok)
next
  case (3 a d)
  then show ?case by (simp add: nitro_proof_fields)
qed (simp_all add: nitro_proof_bytes_def exec_args_ok_def)

text \<open>C15: The attested user data of a Nitro execution fixes the run: if two executions produced the same user data, they are about the
  same job, second, nonce (and source of the nonce), context hash and manifest hash, and about the same output, script and data set,
  unless the explicitly given byte strings are a SHA-256 collision.\<close>

theorem nitro_proof_binding:
  assumes "exec_args_ok a" "exec_args_ok b" "nitro_proof_bytes a = Inr bs" "nitro_proof_bytes b = Inr bs"
  shows "json_norm True (ea_job_id a) = json_norm True (ea_job_id b)
    \<and> \<lfloor>ea_time a\<rfloor> = \<lfloor>ea_time b\<rfloor> \<and> nitro_nonce a = nitro_nonce b \<and> has_external_nonce a = has_external_nonce b
    \<and> (truthy (ea_context_hash a) = truthy (ea_context_hash b)
        \<and> (\<not> truthy (ea_context_hash a) \<or> json_norm True (ea_context_hash a) = json_norm True (ea_context_hash b)))
    \<and> ea_files_manifest_sha256 a = ea_files_manifest_sha256 b
    \<and> (ea_output a = ea_output b
        \<or> (\<exists>x y. str_encode (ea_output a) = Inr x \<and> str_encode (ea_output b) = Inr y \<and> collides {x} {y}))
    \<and> (bytes_or_empty (ea_script_bytes a) = bytes_or_empty (ea_script_bytes b)
        \<or> collides {bytes_or_empty (ea_script_bytes a)} {bytes_or_empty (ea_script_bytes b)})
    \<and> (bytes_or_empty (ea_dataset_bytes a) = bytes_or_empty (ea_dataset_bytes b)
        \<or> collides {bytes_or_empty (ea_dataset_bytes a)} {bytes_or_empty (ea_dataset_bytes b)})"
proof -
  obtain d d' where d: "nitro_proof_data a = Inr d" "nitro_proof_data b = Inr d'"
    and eq: "\<And>k. map_option (json_norm True) (dget d k) = map_option (json_norm True) (dget d' k)"
    by (rule nitro_proof.proof_bytes_fix_fields [OF assms]) blast
  note f = nitro_proof_fields [OF d(1)] and g = nitro_proof_fields [OF d(2)]
  have "\<lfloor>ea_time a\<rfloor> = \<lfloor>ea_time b\<rfloor>" using eq [of "lit ''timestamp''"] unfolding f g by simp
  moreover have "nitro_nonce a = nitro_nonce b" using eq [of "lit ''nonce''"] unfolding f g by simp
  moreover have "has_external_nonce a = has_external_nonce b"
    using eq [of "lit ''nonce_source''"] unfolding f g by (simp split: if_splits)
  moreover have "truthy (ea_context_hash a) = truthy (ea_context_hash b)
      \<and> (\<not> truthy (ea_context_hash a) \<or> json_norm True (ea_context_hash a) = json_norm True (ea_context_hash b))"
    using eq [of "lit ''context_hash''"] unfolding f g by (simp split: if_splits)
  ultimately show ?thesis using nitro_proof.proof_binds [OF assms] by blast
qed

section \<open>Concrete runs\<close>

text \<open>A device that follows the protocol, and a codec for small requests whose responses carry the request as their document.\<close>

definition toy_device :: "(bytes \<Rightarrow> bytes) \<Rightarrow> nsm_io" where
  "toy_device answer = \<lparr>io_request_addr = 4096, io_response_addr = 8192, io_ioctl = \<lambda>fd code m memory.
     rbind (unpack_quads m) (\<lambda>qs. let r = answer (take (qs ! 1) memory) in
       if length r \<le> qs ! 3 then Inr (pack_quads [qs ! 0, qs ! 1, qs ! 2, length r], r)
       else Inl (Exn OSError (lit ''[Errno 90] Message too long'')))\<rparr>"

definition mini_dumps :: "cbor \<Rightarrow> bytes res" where
  "mini_dumps v = (case v of
       CMap [(CText a, CMap [(CText b, CBytes u), (CText c, CBytes n)])] \<Rightarrow>
         if a = lit ''Attestation'' \<and> b = lit ''user_data'' \<and> c = lit ''nonce'' \<and> length u + length n < 200
         then Inr (of_nat (length u) # u @ n) else Inl (Exn ValueError (lit ''not supported''))
     | _ \<Rightarrow> Inl (Exn ValueError (lit ''not supported'')))"

definition mini_cbor :: cbor_lib where
  "mini_cbor = \<lparr>cb_dumps = mini_dumps,
     cb_loads = \<lambda>b. Inr (CMap [(CText (lit ''Attestation''), CMap [(CText (lit ''document''), CBytes b)])]), cb_str = cbor_type\<rparr>"

definition demo_nitro :: nitro where
  "demo_nitro = \<lparr>nsm_available = True, nsm_fd = Some 3\<rparr>"

lemma toy_device_protocol: "nsm_protocol (toy_device answer) answer"
proof -
  have "\<exists>rest. io_ioctl (toy_device answer) fd NSM_IOCTL_REQUEST (pack_quads [ra, n, rb, cap]) memory
      = Inr (pack_quads [ra, n, rb, length (answer (take n memory))], answer (take n memory) @ rest)"
    if "list_all (\<lambda>x. x < 2 ^ 64) [ra, n, rb, cap]" "length (answer (take n memory)) \<le> cap" for fd ra n rb cap memory
  proof -
    have "unpack_quads (pack_quads [ra, n, rb, cap]) = Inr [ra, n, rb, cap]" using that(1) by (intro unpack_pack) simp
    with that(2) show ?thesis by (simp add: toy_device_def Let_def)
  qed
  then show ?thesis by (auto simp: nsm_protocol_def simp del: list.pred_inject)
qed


lemma mini_dumps_Inr:
  "mini_dumps v = Inr q \<longleftrightarrow> (\<exists>u n. v = cbor_of (build_attestation_request (Some u) (PBytes n) None)
     \<and> length u + length n < 200 \<and> q = of_nat (length u) # u @ n)"
  by (auto simp: mini_dumps_def build_attestation_request_def split: cbor.splits list.splits if_splits)

lemma mini_hardware:
  "nsm_hardware mini_cbor (toy_device (\<lambda>r. r)) demo_nitro c = Inr q \<longleftrightarrow> mini_dumps (cbor_of c) = Inr q"
proof -
  have "nsm_ioctl (toy_device (\<lambda>r. r)) demo_nitro b = Inr b" if "mini_dumps (cbor_of c) = Inr b" for b
  proof -
    from that have b: "b \<noteq> []" "length b \<le> 200" by (auto simp: mini_dumps_Inr)
    have "nsm_fd demo_nitro = Some 3" by (simp add: demo_nitro_def)
    from nsm_ioctl_answer [OF toy_device_protocol this, of "\<lambda>r. r" b] b show ?thesis
      by (simp add: toy_device_def response_capacity_def)
  qed
  then show ?thesis
    by (cases "mini_dumps (cbor_of c)")
      (auto simp: nsm_hardware_def mini_cbor_def parse_attestation_response_def response_document_def)
qed

lemma mini_generate:
  assumes "length u + length n < 200"
  shows "generate_nsm_attestation mini_cbor (toy_device (\<lambda>r. r)) demo_nitro (Some u) (PBytes n) None
    = nsm_success (Some u) (PBytes n) (of_nat (length u) # u @ n)"
proof -
  let ?c = "build_attestation_request (Some u) (PBytes n) None"
  have d: "mini_dumps (cbor_of ?c) = Inr (of_nat (length u) # u @ n)" using assms by (auto simp: mini_dumps_Inr)
  have h: "nsm_hardware mini_cbor (toy_device (\<lambda>r. r)) demo_nitro ?c = Inr (of_nat (length u) # u @ n)"
    by (simp add: mini_hardware d)
  have "nsm_exchange mini_cbor (toy_device (\<lambda>r. r)) demo_nitro (Some u) (PBytes n) None = Inr (True, CBytes (of_nat (length u) # u @ n))"
    using h by (auto simp: nsm_hardware_def nsm_exchange_def mini_cbor_def d py_len_def rbind_eq_Inr_iff
        parse_attestation_response_def response_document_def)
  then show ?thesis by (simp add: generate_nsm_attestation_def)
qed

lemma cbor_of_inject: "cbor_of v = cbor_of w \<longleftrightarrow> v = w"
  by (metis cbor_py_inverse)

lemma mini_hardware_inject:
  assumes "nsm_hardware mini_cbor (toy_device (\<lambda>r. r)) demo_nitro c = Inr q"
    and "nsm_hardware mini_cbor (toy_device (\<lambda>r. r)) demo_nitro c' = Inr q"
  shows "c = c'"
proof -
  from assms obtain u n u' n' where
    c: "cbor_of c = cbor_of (build_attestation_request (Some u) (PBytes n) None)" "length u + length n < 200"
    and c': "cbor_of c' = cbor_of (build_attestation_request (Some u') (PBytes n') None)" "length u' + length n' < 200"
    and q: "(of_nat (length u) :: byte) = of_nat (length u')" "u @ n = u' @ n'"
    unfolding mini_hardware mini_dumps_Inr by auto
  have "length u = length u'" using arg_cong [OF q(1), of unat] c(2) c'(2) by (simp add: unat_of_nat_byte)
  with q(2) have "u = u'" "n = n'" by auto
  with c(1) c'(1) show ?thesis by (simp add: cbor_of_inject)
qed

theorem nitro_document_binds_witness:
  "(\<exists>d d'. generate_nsm_attestation mini_cbor (toy_device (\<lambda>r. r)) demo_nitro (Some [1]) (PBytes [2]) None = (True, d)
      \<and> generate_nsm_attestation mini_cbor (toy_device (\<lambda>r. r)) demo_nitro (Some []) (PBytes [1, 2]) None = (True, d')
      \<and> dget d (lit ''attestation_document'') \<noteq> dget d' (lit ''attestation_document''))"
proof -
  obtain d where d: "generate_nsm_attestation mini_cbor (toy_device (\<lambda>r. r)) demo_nitro (Some [1]) (PBytes [2]) None = (True, d)"
    by (simp add: mini_generate nsm_success_def)
  obtain d' where d': "generate_nsm_attestation mini_cbor (toy_device (\<lambda>r. r)) demo_nitro (Some []) (PBytes [1, 2]) None = (True, d')"
    by (simp add: mini_generate nsm_success_def)
  have "dget d (lit ''attestation_document'') \<noteq> dget d' (lit ''attestation_document'')"
  proof
    assume "dget d (lit ''attestation_document'') = dget d' (lit ''attestation_document'')"
    from nitro_document_binds [OF _ d d' this] have "[1] = ([] :: bytes)" using mini_hardware_inject by metis
    then show False by simp
  qed
  with d d' show ?thesis by blast
qed

theorem nitro_generate_honest_witness:
  "\<exists>res. fst (nitro_generate_attestation mini_cbor toy_pki (toy_device (\<lambda>r. r)) default_config demo_local demo_nitro
        (Some [1]) (PBytes [2]) None []) = (True, res)
      \<and> (\<exists>q. nsm_hardware mini_cbor (toy_device (\<lambda>r. r)) demo_nitro (build_attestation_request (Some [1]) (PBytes [2]) None) = Inr q
          \<and> dget res (lit ''attestation_document'') = Some (PStr (b64encode q)))"
proof -
  obtain res where "nitro_generate_attestation mini_cbor toy_pki (toy_device (\<lambda>r. r)) default_config demo_local demo_nitro
      (Some [1]) (PBytes [2]) None [] = ((True, res), [])"
    by (simp add: nitro_generate_attestation_def demo_nitro_def)
      (simp add: mini_generate [unfolded demo_nitro_def] nsm_success_def)
  with nitro_generate_honest [OF this] show ?thesis by (auto simp: demo_nitro_def)
qed

definition demo_args :: exec_args where
  "demo_args = \<lparr>ea_job_id = PStr (lit ''job''), ea_output = lit ''ok'', ea_script_bytes = Some [1], ea_dataset_bytes = None,
     ea_external_nonce = Some [9, 9], ea_context_hash = PNone, ea_files_manifest_sha256 = Some (lit ''00''), ea_time = 5, ea_urandom = []\<rparr>"

lemma nitro_proof_bytes_ok:
  assumes "exec_args_ok a"
  shows "\<exists>bs. nitro_proof_bytes a = Inr bs"
proof -
  obtain ob where "str_encode (ea_output a) = Inr ob"
    using assms bytes_decode_str_encode [of "ea_output a"] by (auto simp: exec_args_ok_def)
  then obtain d where d: "nitro_proof_data a = Inr d" by (simp add: nitro_proof_data_def)
  from nitro_proof_ok [OF assms d] show ?thesis
    by (simp only: nitro_proof_bytes_def d rbind_simps json_dumps_def json_ok_no_bytes if_False str_encode_json_text) blast
qed

text \<open>An absent data set and an empty one are the same to the proof; nothing else differs between these two calls.\<close>

theorem nitro_proof_binding_witness:
  "\<exists>bs. nitro_proof_bytes demo_args = Inr bs \<and> nitro_proof_bytes (demo_args\<lparr>ea_dataset_bytes := Some []\<rparr>) = Inr bs
     \<and> nitro_nonce demo_args = nitro_nonce (demo_args\<lparr>ea_dataset_bytes := Some []\<rparr>)
     \<and> bytes_or_empty (ea_dataset_bytes demo_args) = []"
proof -
  have ok: "exec_args_ok demo_args" "exec_args_ok (demo_args\<lparr>ea_dataset_bytes := Some []\<rparr>)"
    by (simp_all add: exec_args_ok_def demo_args_def)
  obtain bs where b: "nitro_proof_bytes demo_args = Inr bs" using nitro_proof_bytes_ok [OF ok(1)] by blast
  moreover have "nitro_proof_data (demo_args\<lparr>ea_dataset_bytes := Some []\<rparr>) = nitro_proof_data demo_args"
    by (simp add: nitro_proof_data_def demo_args_def hash_or_def nitro_nonce_def has_external_nonce_def)
  then have "nitro_proof_bytes (demo_args\<lparr>ea_dataset_bytes := Some []\<rparr>) = Inr bs"
    using b by (simp add: nitro_proof_bytes_def)
  ultimately show ?thesis using nitro_proof_binding [OF ok, of bs] by (simp add: demo_args_def)
qed

end
