(* ===== verification/Py_Process.thy ===== *)
theory Py_Process
  imports Py_Value
begin

text \<open>
  \<^verbatim>\<open>subprocess.run(..., capture_output=True)\<close> without \<^verbatim>\<open>text\<close>, as the attestation helpers use it: an exception, or the exit code and the
  two output streams as bytes. The standard error of a helper is decoded either strictly or with \<^verbatim>\<open>errors='replace'\<close>.
\<close>

datatype proc_result = ProcRaises pyexn | ProcDone int bytes bytes

type_synonym runner = "pystr list \<Rightarrow> bytes option \<Rightarrow> int \<Rightarrow> proc_result"
  \<comment> \<open>command, \<^verbatim>\<open>input\<close>, \<^verbatim>\<open>timeout\<close>\<close>

text \<open>Every malformed sequence becomes one U+FFFD.\<close>

function decode_replace_vals :: "nat list \<Rightarrow> pystr" where
  "decode_replace_vals [] = []"
| "decode_replace_vals (a # r) =
     (case lead_fault a r of
        None \<Rightarrow> (case utf8_dec (take (lead_len a) (a # r)) of Some s \<Rightarrow> s | None \<Rightarrow> [0xFFFD])
                  @ decode_replace_vals (drop (lead_len a) (a # r))
      | Some BadStart \<Rightarrow> 0xFFFD # decode_replace_vals r
      | Some (BadCont k) \<Rightarrow> 0xFFFD # decode_replace_vals (drop (k - 1) r)
      | Some (Truncated k) \<Rightarrow> [0xFFFD])"
  by pat_completeness auto
termination
  by (relation "measure length") (auto simp: lead_len_def)

definition decode_replace :: "bytes \<Rightarrow> pystr" where
  "decode_replace bs = decode_replace_vals (map unat bs)"

text \<open>On ASCII both decoders agree.\<close>

lemma decode_replace_ascii: "(\<And>b. b \<in> set bs \<Longrightarrow> unat b < 128) \<Longrightarrow> decode_replace bs = map unat bs"
  unfolding decode_replace_def by (induction bs) (auto simp: lead_fault_def lead_len_def)

end
