(* ===== verification/Tdx_Attestation.thy ===== *)
theory Tdx_Attestation
  imports Attestation_Api Py_Process Config
begin

text \<open>
  \<^verbatim>\<open>implementations/tdx_attestation_service_impl.py\<close>: the Intel TDX back end. The helper process \<^verbatim>\<open>tdquote\<close> is the argument \<open>run\<close>: it
  gets the 64 bytes of REPORTDATA in hexadecimal on its standard input and prints the quote.
\<close>

section \<open>Quotes\<close>

record tdx =
  tdquote_bin :: pystr
  tdquote_timeout :: int

definition TDQUOTE_TIMEOUT_SECONDS :: "(nat \<Rightarrow> bool) \<Rightarrow> pystr dict \<Rightarrow> int res" where
  "TDQUOTE_TIMEOUT_SECONDS pr env = py_int pr (getenv env ''TDQUOTE_TIMEOUT_SECONDS'' (lit ''60''))"

definition init_tdx :: "(nat \<Rightarrow> bool) \<Rightarrow> pystr dict \<Rightarrow> pystr \<Rightarrow> pystr option \<Rightarrow> tdx res" where
  "init_tdx pr env default_bin arg =
     rbind (TDQUOTE_TIMEOUT_SECONDS pr env) (\<lambda>t.
     Inr \<lparr>tdquote_bin = (case arg of Some (ch # cs) \<Rightarrow> ch # cs | _ \<Rightarrow> getenv env ''TDQUOTE_BIN'' default_bin), tdquote_timeout = t\<rparr>)"

definition get_td_quote :: "runner \<Rightarrow> tdx \<Rightarrow> bytes \<Rightarrow> bytes res" where
  "get_td_quote run st report_data =
     (if length report_data \<noteq> 64
      then Inl (Exn ValueError (lit ''REPORTDATA must be 64 bytes, got '' @ show_nat (length report_data)))
      else rbind (str_encode (bytes_hex report_data)) (\<lambda>input.
        case run [tdquote_bin st] (Some input) (tdquote_timeout st) of
          ProcRaises e \<Rightarrow> Inl e
        | ProcDone code stdout stderr \<Rightarrow>
            (if code \<noteq> 0 then Inl (Exn RuntimeError (lit ''tdquote helper failed: '' @ decode_replace stderr))
             else if stdout = [] then Inl (Exn RuntimeError (lit ''tdquote helper returned empty quote''))
             else Inr stdout)))"

text \<open>One chunk: \<^verbatim>\<open>h.update(len(c).to_bytes(4, "big"))\<close>, then \<^verbatim>\<open>h.update(c)\<close>.\<close>

definition frame_chunk :: "pyval \<Rightarrow> bytes \<Rightarrow> bytes res" where
  "frame_chunk c h =
     (if c = PNone then Inr h
      else rbind (py_len c) (\<lambda>n.
        if 2 ^ 32 \<le> n then Inl (Exn OtherError (lit ''int too big to convert''))
        else case c of
               PBytes b \<Rightarrow> Inr (h @ be_bytes 4 n @ b)
             | PStr s \<Rightarrow> Inl (Exn TypeError (lit ''Unicode-objects must be encoded before hashing''))
             | _ \<Rightarrow> Inl (Exn TypeError (lit ''object supporting the buffer API required''))))"

definition frame_chunks :: "pyval list \<Rightarrow> bytes res" where
  "frame_chunks slots = rfold frame_chunk slots []"

definition report_data_from :: "pyval list \<Rightarrow> bytes res" where
  "report_data_from slots = rbind (frame_chunks slots) (\<lambda>h. Inr (sha512 h))"

section \<open>generate_attestation\<close>

definition tdx_is_real_enclave :: "(pystr \<Rightarrow> bool) \<Rightarrow> bool" where
  "tdx_is_real_enclave exists \<longleftrightarrow> exists (lit ''/sys/kernel/config/tsm/report'') \<or> exists (lit ''/dev/tdx_guest'')"

definition tdx_document :: "bytes \<Rightarrow> bytes \<Rightarrow> pyval dict" where
  "tdx_document report_data quote =
     [(lit ''backend'', pstr ''tdx''), (lit ''format'', pstr ''tdx_quote''),
      (lit ''attestation_document'', PStr (b64encode quote)), (lit ''attestation_document_length'', PInt (int (length quote))),
      (lit ''report_data'', PStr (bytes_hex report_data))]"

definition tdx_failure :: "bool \<Rightarrow> string \<Rightarrow> pyexn \<Rightarrow> bool \<times> pyval dict" where
  "tdx_failure genuine code e = (False, [(lit ''error'', pstr code), (lit ''message'', PStr (exn_str e)), (lit ''is_real_tdx'', PBool genuine)])"

definition tdx_generate_attestation ::
    "runner \<Rightarrow> bool \<Rightarrow> tdx \<Rightarrow> bytes option \<Rightarrow> pyval \<Rightarrow> bytes option \<Rightarrow> bool \<times> pyval dict" where
  "tdx_generate_attestation run genuine st user_data nonce public_key =
     (case report_data_from [opt_bytes user_data, nonce, opt_bytes public_key] of
        Inl e \<Rightarrow> tdx_failure genuine ''TDX_QUOTE_ERROR'' e
      | Inr report_data \<Rightarrow>
          (case get_td_quote run st report_data of
             Inl e \<Rightarrow> tdx_failure genuine ''TDX_QUOTE_ERROR'' e
           | Inr quote \<Rightarrow> (True, tdx_document report_data quote)))"

section \<open>create_execution_attestation\<close>

record tdx_args =
  ta_job_id :: pyval
  ta_output :: pystr
  ta_script_bytes :: "bytes option"
  ta_dataset_bytes :: "bytes option"
  ta_nonce :: "bytes option"
  ta_atl_nonce :: "bytes option"
  ta_atl_context_hash :: "bytes option"
  ta_files_manifest_sha256 :: "pystr option"
  ta_time :: time
  ta_urandom :: bytes

definition opt_hex :: "bytes option \<Rightarrow> pyval" where
  "opt_hex b = (case b of Some bs \<Rightarrow> PStr (bytes_hex bs) | None \<Rightarrow> PNone)"

definition tdx_nonce :: "tdx_args \<Rightarrow> bytes" where
  "tdx_nonce a = (case ta_nonce a of Some n \<Rightarrow> n | None \<Rightarrow> ta_urandom a)"

definition tdx_proof_data :: "tdx_args \<Rightarrow> pyval dict res" where
  "tdx_proof_data a =
     rbind (str_encode (ta_output a)) (\<lambda>output_bytes. Inr (
       [(lit ''job_id'', ta_job_id a), (lit ''script_hash'', hash_or (PStr []) PStr (ta_script_bytes a)),
        (lit ''dataset_hash'', hash_or (PStr []) PStr (ta_dataset_bytes a)),
        (lit ''output_hash'', PStr (sha256_hex output_bytes)), (lit ''timestamp'', PInt \<lfloor>ta_time a\<rfloor>),
        (lit ''nonce'', PStr (bytes_hex (tdx_nonce a))), (lit ''atl_nonce'', opt_hex (ta_atl_nonce a)),
        (lit ''atl_context_hash'', opt_hex (ta_atl_context_hash a)), (lit ''backend'', pstr ''tdx'')]
       @ (case ta_files_manifest_sha256 a of Some h \<Rightarrow> [(lit ''files_manifest_sha256'', PStr h)] | None \<Rightarrow> [])))"

definition tdx_proof_canonical :: "tdx_args \<Rightarrow> pystr res" where
  "tdx_proof_canonical a = rbind (tdx_proof_data a) (\<lambda>d. json_dumps True True (PDict d))"

definition tdx_proof_bytes :: "tdx_args \<Rightarrow> bytes res" where
  "tdx_proof_bytes a = rbind (tdx_proof_canonical a) str_encode"

definition tdx_verification_guide :: pyval where
  "tdx_verification_guide = PDict (map (\<lambda>(k, v). (lit k, pstr v))
     [(''step_1'', ''Base64-decode attestation_document into the raw TD quote''),
      (''step_2'', ''Verify the quote signature and PCK certificate chain against the Intel SGX/TDX roots (go-tdx-guest verify)''),
      (''step_3'', ''Compare MRTD/RTMR[0..3] against the published enclave-image measurements''),
      (''step_4'', ''Extract REPORTDATA (64 bytes) from the verified quote''),
      (''step_5'', ''Recompute SHA-512(proof.proof_canonical) and confirm it equals REPORTDATA''),
      (''step_6'', ''Recompute SHA-256(output) and confirm it equals proof.output_hash''),
      (''conclusion'', ''If all steps pass, this output was produced inside the verified TDX trust domain bound to this exact job/script/dataset'')])"

definition tdx_create_execution_attestation :: "runner \<Rightarrow> bool \<Rightarrow> tdx \<Rightarrow> tdx_args \<Rightarrow> bool \<times> pyval dict" where
  "tdx_create_execution_attestation run genuine st a =
     (case rbind (tdx_proof_data a) (\<lambda>proof.
           rbind (tdx_proof_canonical a) (\<lambda>canonical.
           rbind (tdx_proof_bytes a) (\<lambda>bs.
           rbind (get_td_quote run st (sha512 bs)) (\<lambda>quote. Inr (proof, canonical, bs, quote))))) of
        Inl e \<Rightarrow> tdx_failure genuine ''TDX_ATTESTATION_ERROR'' e
      | Inr (proof, canonical, bs, quote) \<Rightarrow>
          (True, [(lit ''attestation'', PDict (tdx_document (sha512 bs) quote)),
            (lit ''proof'', PDict (dset (lit ''proof_canonical'') (PStr canonical) proof)),
            (lit ''verification_guide'', tdx_verification_guide)]))"

section \<open>REPORTDATA determines its chunks\<close>

definition collides512 :: "bytes \<Rightarrow> bytes \<Rightarrow> bool" where
  "collides512 a b \<longleftrightarrow> a \<noteq> b \<and> sha512 a = sha512 b"

definition framed :: "bytes list \<Rightarrow> bytes" where
  "framed bs = concat (map (\<lambda>b. be_bytes 4 (length b) @ b) bs)"

text \<open>The chunks that are not \<^verbatim>\<open>None\<close>, when all of them are byte strings short enough for their prefix.\<close>

definition chunk_bytes :: "pyval list \<Rightarrow> bytes list option" where
  "chunk_bytes cs =
     (let present = filter (\<lambda>c. c \<noteq> PNone) cs
      in if list_all (\<lambda>c. case c of PBytes b \<Rightarrow> length b < 2 ^ 32 | _ \<Rightarrow> False) present
         then Some (map (\<lambda>c. case c of PBytes b \<Rightarrow> b | _ \<Rightarrow> []) present) else None)"

lemma frame_chunk_Inr:
  "frame_chunk c h = Inr h' \<longleftrightarrow> c = PNone \<and> h' = h \<or> (\<exists>b. c = PBytes b \<and> length b < 2 ^ 32 \<and> h' = h @ be_bytes 4 (length b) @ b)"
  by (cases c) (auto simp: frame_chunk_def py_len_def not_le simp del: be_bytes.simps)

lemma rfold_frame:
  "rfold frame_chunk cs h = Inr h' \<longleftrightarrow> (\<exists>bs. chunk_bytes cs = Some bs \<and> h' = h @ framed bs)"
proof (induction cs arbitrary: h)
  case Nil
  show ?case by (auto simp: chunk_bytes_def framed_def)
next
  case (Cons c cs)
  have "chunk_bytes (c # cs) = (case c of PNone \<Rightarrow> chunk_bytes cs
      | PBytes b \<Rightarrow> if length b < 2 ^ 32 then map_option ((#) b) (chunk_bytes cs) else None | _ \<Rightarrow> None)"
    by (cases c) (auto simp: chunk_bytes_def Let_def)
  with Cons.IH show ?case
    by (cases c) (auto simp: rbind_eq_Inr_iff frame_chunk_Inr framed_def simp del: be_bytes.simps)
qed

lemma report_data_from_Inr:
  "report_data_from cs = Inr r \<longleftrightarrow> (\<exists>bs. chunk_bytes cs = Some bs \<and> r = sha512 (framed bs))"
  by (auto simp: report_data_from_def frame_chunks_def rbind_eq_Inr_iff rfold_frame)

lemma framed_inject:
  assumes "framed as = framed bs" "\<And>b. b \<in> set as \<union> set bs \<Longrightarrow> length b < 2 ^ 32"
  shows "as = bs"
  using assms
proof (induction as arbitrary: bs)
  case Nil
  then show ?case by (cases bs) (auto simp: framed_def simp del: be_bytes.simps dest: arg_cong [of _ _ length])
next
  case (Cons a as)
  then obtain b bs' where bs: "bs = b # bs'"
    by (cases bs) (auto simp: framed_def simp del: be_bytes.simps dest: arg_cong [of _ _ length])
  with Cons.prems(1) have e: "be_bytes 4 (length a) = be_bytes 4 (length b)" "a @ framed as = b @ framed bs'"
    by (auto simp: framed_def simp del: be_bytes.simps)
  have "length a < 256 ^ 4" "length b < 256 ^ 4" using Cons.prems(2) bs by auto
  with e(1) have "length a = length b" by (simp add: be_bytes_inject del: be_bytes.simps)
  with e(2) have "a = b" "framed as = framed bs'" by auto
  with Cons.IH [of bs'] Cons.prems(2) bs show ?case by auto
qed

lemma chunk_bytes_short: "chunk_bytes cs = Some bs \<Longrightarrow> b \<in> set bs \<Longrightarrow> length b < 2 ^ 32"
  by (auto simp: chunk_bytes_def Let_def list_all_iff split: if_splits pyval.splits)

lemma report_data_binds:
  assumes "report_data_from cs = Inr r" "report_data_from cs' = Inr r"
    and "chunk_bytes cs = Some bs" "chunk_bytes cs' = Some bs'"
  shows "bs = bs' \<or> collides512 (framed bs) (framed bs')"
proof -
  have "sha512 (framed bs) = sha512 (framed bs')" using assms by (simp add: report_data_from_Inr)
  moreover have "bs = bs'" if "framed bs = framed bs'"
    using that chunk_bytes_short [OF assms(3)] chunk_bytes_short [OF assms(4)] by (intro framed_inject) auto
  ultimately show ?thesis by (auto simp: collides512_def)
qed

lemma chunk_bytes_filter: "chunk_bytes cs = Some bs \<Longrightarrow> filter (\<lambda>c. c \<noteq> PNone) cs = map PBytes bs"
  by (induction cs arbitrary: bs) (auto simp: chunk_bytes_def Let_def split: if_splits pyval.splits)

text \<open>C32: REPORTDATA determines the attested slots: if two lists of slots give the same 64 bytes, then the slots that are not absent are the
  same byte strings in the same order, unless their framed texts are a SHA-512 collision. In particular no bytes can move from one
  slot to the next.\<close>

theorem tdx_report_data_binding:
  assumes "report_data_from cs = Inr r" "report_data_from cs' = Inr r"
  shows "length r = 64 \<and> (filter (\<lambda>c. c \<noteq> PNone) cs = filter (\<lambda>c. c \<noteq> PNone) cs'
    \<or> (\<exists>h h'. frame_chunks cs = Inr h \<and> frame_chunks cs' = Inr h' \<and> collides512 h h'))"
proof -
  obtain bs bs' where b: "chunk_bytes cs = Some bs" "chunk_bytes cs' = Some bs'" "r = sha512 (framed bs)"
    using assms by (auto simp: report_data_from_Inr)
  have "frame_chunks cs = Inr (framed bs)" "frame_chunks cs' = Inr (framed bs')"
    using b(1,2) by (simp_all add: frame_chunks_def rfold_frame)
  with report_data_binds [OF assms b(1,2)] b show ?thesis by (auto simp: chunk_bytes_filter)
qed

section \<open>The service contract holds\<close>

definition tdx_excuse :: "bytes \<times> pyval \<Rightarrow> bytes \<times> pyval \<Rightarrow> bool" where
  "tdx_excuse p q \<longleftrightarrow> (\<exists>h h'. frame_chunks [PBytes (fst p), snd p, PNone] = Inr h
     \<and> frame_chunks [PBytes (fst q), snd q, PNone] = Inr h' \<and> collides512 h h')"

lemma tdx_generate_True:
  assumes "tdx_generate_attestation run g st u n k = (True, d)"
  shows "\<exists>r q. report_data_from [opt_bytes u, n, opt_bytes k] = Inr r \<and> get_td_quote run st r = Inr q \<and> d = tdx_document r q"
  using assms by (auto simp: tdx_generate_attestation_def tdx_failure_def split: sum.splits)

lemma tdx_commitment_binds:
  assumes "report_data_from [PBytes u, n, PNone] = Inr r" "report_data_from [PBytes u', n', PNone] = Inr r"
  shows "(u, n) = (u', n') \<or> tdx_excuse (u, n) (u', n')"
proof -
  obtain bs bs' where b: "chunk_bytes [PBytes u, n, PNone] = Some bs" "chunk_bytes [PBytes u', n', PNone] = Some bs'"
    using assms by (auto simp: report_data_from_Inr)
  then have f: "frame_chunks [PBytes u, n, PNone] = Inr (framed bs)" "frame_chunks [PBytes u', n', PNone] = Inr (framed bs')"
    by (simp_all add: frame_chunks_def rfold_frame del: rfold.simps)
  have "(u, n) = (u', n')" if "bs = bs'"
  proof -
    have "filter (\<lambda>c. c \<noteq> PNone) [PBytes u, n, PNone] = filter (\<lambda>c. c \<noteq> PNone) [PBytes u', n', PNone]"
      using that chunk_bytes_filter [OF b(1)] chunk_bytes_filter [OF b(2)] by simp
    then show ?thesis by (simp split: if_splits)
  qed
  with report_data_binds [OF assms b] f show ?thesis by (auto simp: tdx_excuse_def)
qed

interpretation td: attestation_service "\<lambda>u n. report_data_from [PBytes u, n, PNone]" "get_td_quote run st"
    "\<lambda>u n. tdx_generate_attestation run g st (Some u) n None" tdx_excuse
  for run st g
proof (unfold_locales, goal_cases)
  case (1 u n d)
  from tdx_generate_True [OF this] show ?case by (auto simp: opt_bytes_def tdx_document_def)
next
  case (2 u n d)
  then show ?case by (auto simp: tdx_generate_attestation_def tdx_failure_def split: sum.splits)
next
  case (3 u n c u' n')
  then show ?case by (rule tdx_commitment_binds)
qed

text \<open>A TDX quote determines what it attests: if the helper never prints the same quote for two values of REPORTDATA, then equal
  documents were generated for equal user data and equal nonces, unless the framed texts are a SHA-512 collision.\<close>

theorem tdx_document_binds:
  assumes "\<And>r r' q. get_td_quote run st r = Inr q \<Longrightarrow> get_td_quote run st r' = Inr q \<Longrightarrow> r = r'"
    and "tdx_generate_attestation run g st (Some u) n None = (True, d)"
    and "tdx_generate_attestation run g st (Some u') n' None = (True, d')"
    and "dget d (lit ''attestation_document'') = dget d' (lit ''attestation_document'')"
  shows "u = u' \<and> n = n' \<or> tdx_excuse (u, n) (u', n')"
  using td.document_binds [OF assms] by simp

section \<open>What an execution attestation proves\<close>

definition tdx_args_ok :: "tdx_args \<Rightarrow> bool" where
  "tdx_args_ok a \<longleftrightarrow> json_ok (ta_job_id a) \<and> list_all valid_cp (ta_output a)
     \<and> (case ta_files_manifest_sha256 a of Some h \<Rightarrow> list_all valid_cp h | None \<Rightarrow> True)"

lemma valid_cp_hex [simp]: "list_all valid_cp (bytes_hex b)"
  using bytes_hex_ascii [of _ b] by (intro ascii_valid_cp) fastforce

lemma tdx_proof_ok: "tdx_args_ok a \<Longrightarrow> tdx_proof_data a = Inr d \<Longrightarrow> json_ok (PDict d)"
  by (auto simp: tdx_proof_data_def tdx_args_ok_def rbind_eq_Inr_iff opt_hex_def split: option.splits)

lemma tdx_proof_fields:
  assumes "tdx_proof_data a = Inr d"
  shows "dget d (lit ''job_id'') = Some (ta_job_id a)"
    "\<exists>ob. str_encode (ta_output a) = Inr ob \<and> dget d (lit ''output_hash'') = Some (PStr (sha256_hex ob))"
    "dget d (lit ''script_hash'') = Some (hash_or (PStr []) PStr (ta_script_bytes a))"
    "dget d (lit ''dataset_hash'') = Some (hash_or (PStr []) PStr (ta_dataset_bytes a))"
    "dget d (lit ''files_manifest_sha256'') = map_option PStr (ta_files_manifest_sha256 a)"
    "dget d (lit ''nonce'') = Some (PStr (bytes_hex (tdx_nonce a)))"
    "dget d (lit ''timestamp'') = Some (PInt \<lfloor>ta_time a\<rfloor>)"
    "dget d (lit ''atl_nonce'') = Some (opt_hex (ta_atl_nonce a))"
    "dget d (lit ''atl_context_hash'') = Some (opt_hex (ta_atl_context_hash a))"
    "dget d (lit ''proof_canonical'') = None"
  using assms by (auto simp: tdx_proof_data_def rbind_eq_Inr_iff split: option.splits)

lemma tdx_proof_bytes_data:
  "tdx_proof_bytes a = rbind (tdx_proof_data a) (\<lambda>d. rbind (json_dumps True True (PDict d)) str_encode)"
  by (simp add: tdx_proof_bytes_def tdx_proof_canonical_def rbind_assoc)

interpretation tdx_proof: execution_proof tdx_proof_data tdx_proof_bytes True tdx_args_ok
    ta_job_id ta_output ta_script_bytes ta_dataset_bytes ta_files_manifest_sha256
proof (unfold_locales, goal_cases)
  case (1 a)
  show ?case by (rule tdx_proof_bytes_data)
next
  case (2 a d)
  then show ?case by (rule tdx_proof_ok)
next
  case (3 a d)
  then show ?case by (simp add: tdx_proof_fields)
qed (simp add: tdx_args_ok_def)

lemma opt_hex_inject: "json_norm True (opt_hex a) = json_norm True (opt_hex b) \<longleftrightarrow> a = b"
  by (simp add: opt_hex_def split: option.splits)

text \<open>REPORTDATA of a TDX execution fixes the run: if two executions were quoted with the same REPORTDATA, they are about the same job,
  second, nonces, context and manifest hash, and about the same output, script and data set, unless the proofs are a SHA-512 collision or the
  explicitly given byte strings a SHA-256 collision.\<close>

theorem tdx_proof_binding:
  assumes "tdx_args_ok a" "tdx_args_ok b" "tdx_proof_bytes a = Inr x" "tdx_proof_bytes b = Inr y" "sha512 x = sha512 y"
  shows "collides512 x y \<or>
      json_norm True (ta_job_id a) = json_norm True (ta_job_id b)
    \<and> \<lfloor>ta_time a\<rfloor> = \<lfloor>ta_time b\<rfloor> \<and> tdx_nonce a = tdx_nonce b \<and> ta_atl_nonce a = ta_atl_nonce b
    \<and> ta_atl_context_hash a = ta_atl_context_hash b
    \<and> ta_files_manifest_sha256 a = ta_files_manifest_sha256 b
    \<and> (ta_output a = ta_output b
        \<or> (\<exists>x y. str_encode (ta_output a) = Inr x \<and> str_encode (ta_output b) = Inr y \<and> collides {x} {y}))
    \<and> (bytes_or_empty (ta_script_bytes a) = bytes_or_empty (ta_script_bytes b)
        \<or> collides {bytes_or_empty (ta_script_bytes a)} {bytes_or_empty (ta_script_bytes b)})
    \<and> (bytes_or_empty (ta_dataset_bytes a) = bytes_or_empty (ta_dataset_bytes b)
        \<or> collides {bytes_or_empty (ta_dataset_bytes a)} {bytes_or_empty (ta_dataset_bytes b)})"
proof (cases "x = y")
  case False
  with assms(5) show ?thesis by (simp add: collides512_def)
next
  case True
  note h = assms(1-3) assms(4) [folded True]
  obtain d d' where d: "tdx_proof_data a = Inr d" "tdx_proof_data b = Inr d'"
    and eq: "\<And>k. map_option (json_norm True) (dget d k) = map_option (json_norm True) (dget d' k)"
    by (rule tdx_proof.proof_bytes_fix_fields [OF h]) blast
  note f = tdx_proof_fields [OF d(1)] and g = tdx_proof_fields [OF d(2)]
  have "\<lfloor>ta_time a\<rfloor> = \<lfloor>ta_time b\<rfloor>" using eq [of "lit ''timestamp''"] unfolding f g by simp
  moreover have "tdx_nonce a = tdx_nonce b" using eq [of "lit ''nonce''"] unfolding f g by simp
  moreover have "ta_atl_nonce a = ta_atl_nonce b"
    using eq [of "lit ''atl_nonce''"] unfolding f g by (simp add: opt_hex_inject)
  moreover have "ta_atl_context_hash a = ta_atl_context_hash b"
    using eq [of "lit ''atl_context_hash''"] unfolding f g by (simp add: opt_hex_inject)
  ultimately show ?thesis using tdx_proof.proof_binds [OF h] by blast
qed

lemma get_td_quote_Inr:
  "get_td_quote run st r = Inr q \<longleftrightarrow> length r = 64 \<and> q \<noteq> []
     \<and> (\<exists>stderr. run [tdquote_bin st] (Some (map of_nat (bytes_hex r))) (tdquote_timeout st) = ProcDone 0 q stderr)"
proof -
  have "str_encode (bytes_hex r) = Inr (map of_nat (bytes_hex r))"
    using bytes_hex_ascii [of _ r] by (intro str_encode_ascii) fastforce
  then show ?thesis
    by (auto simp: get_td_quote_def split: proc_result.splits if_splits)
qed

text \<open>A successful TDX execution attestation passes the documented check: the helper quoted exactly SHA-512 of the UTF-8 bytes of the
  returned \<^verbatim>\<open>proof_canonical\<close>, the result shows that value as its report data, and the canonical text is JSON for the other fields of
  the returned proof.\<close>

theorem tdx_execution_verifies:
  assumes "tdx_create_execution_attestation run g st a = (True, res)" "tdx_args_ok a"
  shows "\<exists>doc prf canonical bs quote stderr.
      dget res (lit ''attestation'') = Some (PDict doc) \<and> dget res (lit ''proof'') = Some (PDict prf)
    \<and> dget prf (lit ''proof_canonical'') = Some (PStr canonical) \<and> str_encode canonical = Inr bs
    \<and> dget doc (lit ''report_data'') = Some (PStr (bytes_hex (sha512 bs)))
    \<and> dget doc (lit ''attestation_document'') = Some (PStr (b64encode quote))
    \<and> run [tdquote_bin st] (Some (map of_nat (bytes_hex (sha512 bs)))) (tdquote_timeout st) = ProcDone 0 quote stderr
    \<and> json_loads fr canonical = Some (json_norm True (PDict (ddel (lit ''proof_canonical'') prf)))"
proof -
  obtain pd canonical bs quote where
    p: "tdx_proof_data a = Inr pd" "tdx_proof_canonical a = Inr canonical" "tdx_proof_bytes a = Inr bs"
      "get_td_quote run st (sha512 bs) = Inr quote"
    and res: "res = [(lit ''attestation'', PDict (tdx_document (sha512 bs) quote)),
            (lit ''proof'', PDict (dset (lit ''proof_canonical'') (PStr canonical) pd)),
            (lit ''verification_guide'', tdx_verification_guide)]"
    using assms(1) by (auto simp: tdx_create_execution_attestation_def tdx_failure_def rbind_eq_Inr_iff
        split: sum.splits prod.splits)
  note ok = tdx_proof_ok [OF assms(2) p(1)]
  have c: "canonical = json_text True True (PDict pd)"
    using p(1,2) json_ok_no_bytes [OF ok] by (simp add: tdx_proof_canonical_def json_dumps_def)
  have n: "lit ''proof_canonical'' \<notin> set (dkeys pd)"
    using tdx_proof_fields(10) [OF p(1)] by (simp add: map_of_eq_None_iff)
  have "ddel (lit ''proof_canonical'') (dset (lit ''proof_canonical'') (PStr canonical) pd) = pd"
    using n by (simp add: dset_fresh AList.delete_eq) (force simp: filter_id_conv)
  moreover have "str_encode canonical = Inr bs" using p(2,3) by (simp add: tdx_proof_bytes_def)
  moreover obtain stderr where "run [tdquote_bin st] (Some (map of_nat (bytes_hex (sha512 bs)))) (tdquote_timeout st) = ProcDone 0 quote stderr"
    using p(4) by (auto simp: get_td_quote_Inr)
  ultimately show ?thesis using json_loads_text [OF ok, of fr True True] by (auto simp: res c tdx_document_def)
qed

section \<open>Concrete runs\<close>

text \<open>A helper whose quote is its input with a byte in front.\<close>

definition toy_tdquote :: runner where
  "toy_tdquote cmd input timeout = ProcDone 0 (81 # (case input of Some b \<Rightarrow> b | None \<Rightarrow> [])) []"

definition demo_tdx :: tdx where
  "demo_tdx = \<lparr>tdquote_bin = lit ''/usr/bin/tdquote'', tdquote_timeout = 60\<rparr>"

lemma toy_quote: "get_td_quote toy_tdquote demo_tdx r = Inr q \<longleftrightarrow> length r = 64 \<and> q = 81 # map of_nat (bytes_hex r)"
  by (auto simp: get_td_quote_Inr toy_tdquote_def)

lemma toy_quote_inject:
  assumes "get_td_quote toy_tdquote demo_tdx r = Inr q" "get_td_quote toy_tdquote demo_tdx r' = Inr q"
  shows "r = r'"
proof -
  have lt: "\<forall>c \<in> set (bytes_hex b). c < 256" for b using bytes_hex_ascii [of _ b] by fastforce
  from assms have "map of_nat (bytes_hex r) = (map of_nat (bytes_hex r') :: bytes)" by (simp add: toy_quote)
  then show ?thesis using map_of_nat_byte_inject [OF lt lt] by simp
qed

lemma demo_tdx_generate:
  "\<exists>r. report_data_from [PBytes [1], PBytes [2], PNone] = Inr r
     \<and> tdx_generate_attestation toy_tdquote True demo_tdx (Some [1]) (PBytes [2]) None = (True, tdx_document r (81 # map of_nat (bytes_hex r)))"
proof -
  obtain r where r: "report_data_from [PBytes [1], PBytes [2], PNone] = Inr r" "length r = 64"
    by (auto simp: report_data_from_Inr chunk_bytes_def)
  moreover have "get_td_quote toy_tdquote demo_tdx r = Inr (81 # map of_nat (bytes_hex r))" using r(2) by (simp add: toy_quote)
  ultimately show ?thesis by (simp add: tdx_generate_attestation_def opt_bytes_def)
qed

theorem tdx_report_data_binding_witness:
  "\<exists>r. report_data_from [PBytes [1], PBytes [2], PNone] = Inr r \<and> report_data_from [PNone, PBytes [1], PBytes [2]] = Inr r \<and> length r = 64"
proof -
  obtain r where r: "report_data_from [PBytes [1], PBytes [2], PNone] = Inr r" using demo_tdx_generate by blast
  moreover have "report_data_from [PNone, PBytes [1], PBytes [2]] = Inr r"
    using r by (simp add: report_data_from_Inr chunk_bytes_def)
  ultimately show ?thesis using tdx_report_data_binding by blast
qed

theorem tdx_document_binds_witness:
  "\<exists>d. tdx_generate_attestation toy_tdquote True demo_tdx (Some [1]) (PBytes [2]) None = (True, d)
     \<and> ([1] = ([1] :: bytes) \<and> PBytes [2] = PBytes [2] \<or> tdx_excuse ([1], PBytes [2]) ([1], PBytes [2]))"
proof -
  obtain d where d: "tdx_generate_attestation toy_tdquote True demo_tdx (Some [1]) (PBytes [2]) None = (True, d)"
    using demo_tdx_generate by blast
  have "[1] = ([1] :: bytes) \<and> PBytes [2] = PBytes [2] \<or> tdx_excuse ([1], PBytes [2]) ([1], PBytes [2])"
    by (rule tdx_document_binds [OF _ d d refl]) (rule toy_quote_inject)
  with d show ?thesis by blast
qed

definition demo_tdx_args :: tdx_args where
  "demo_tdx_args = \<lparr>ta_job_id = PStr (lit ''job''), ta_output = lit ''ok'', ta_script_bytes = Some [1], ta_dataset_bytes = None,
     ta_nonce = None, ta_atl_nonce = Some [7], ta_atl_context_hash = None, ta_files_manifest_sha256 = Some (lit ''00''), ta_time = 5,
     ta_urandom = [1, 2]\<rparr>"

lemma tdx_proof_bytes_ok:
  assumes "tdx_args_ok a"
  shows "\<exists>bs. tdx_proof_bytes a = Inr bs"
proof -
  obtain ob where "str_encode (ta_output a) = Inr ob"
    using assms bytes_decode_str_encode [of "ta_output a"] by (auto simp: tdx_args_ok_def)
  then obtain d where d: "tdx_proof_data a = Inr d" by (simp add: tdx_proof_data_def)
  from tdx_proof_ok [OF assms d] show ?thesis
    by (simp only: tdx_proof_bytes_data d rbind_simps json_dumps_def json_ok_no_bytes if_False str_encode_json_text) blast
qed

lemma demo_tdx_args_ok: "tdx_args_ok demo_tdx_args" "tdx_args_ok (demo_tdx_args\<lparr>ta_dataset_bytes := Some []\<rparr>)"
  by (simp_all add: tdx_args_ok_def demo_tdx_args_def)

theorem tdx_proof_binding_witness:
  "\<exists>x. tdx_proof_bytes demo_tdx_args = Inr x \<and> tdx_proof_bytes (demo_tdx_args\<lparr>ta_dataset_bytes := Some []\<rparr>) = Inr x
     \<and> tdx_nonce demo_tdx_args = tdx_nonce (demo_tdx_args\<lparr>ta_dataset_bytes := Some []\<rparr>)"
proof -
  obtain x where x: "tdx_proof_bytes demo_tdx_args = Inr x" using tdx_proof_bytes_ok [OF demo_tdx_args_ok(1)] by blast
  have "tdx_proof_data (demo_tdx_args\<lparr>ta_dataset_bytes := Some []\<rparr>) = tdx_proof_data demo_tdx_args"
    by (simp add: tdx_proof_data_def demo_tdx_args_def hash_or_def tdx_nonce_def)
  then have y: "tdx_proof_bytes (demo_tdx_args\<lparr>ta_dataset_bytes := Some []\<rparr>) = Inr x"
    using x by (simp add: tdx_proof_bytes_data)
  from tdx_proof_binding [OF demo_tdx_args_ok x y refl] x y show ?thesis by (simp add: collides512_def)
qed

theorem tdx_execution_verifies_witness:
  "\<exists>res doc bs. tdx_create_execution_attestation toy_tdquote True demo_tdx demo_tdx_args = (True, res)
     \<and> dget res (lit ''attestation'') = Some (PDict doc) \<and> dget doc (lit ''report_data'') = Some (PStr (bytes_hex (sha512 bs)))"
proof -
  obtain bs where bs: "tdx_proof_bytes demo_tdx_args = Inr bs" using tdx_proof_bytes_ok [OF demo_tdx_args_ok(1)] by blast
  then obtain pd canonical where p: "tdx_proof_data demo_tdx_args = Inr pd" "tdx_proof_canonical demo_tdx_args = Inr canonical"
    by (auto simp: tdx_proof_bytes_def tdx_proof_canonical_def rbind_eq_Inr_iff)
  have "get_td_quote toy_tdquote demo_tdx (sha512 bs) = Inr (81 # map of_nat (bytes_hex (sha512 bs)))" by (simp add: toy_quote)
  with bs p obtain res where "tdx_create_execution_attestation toy_tdquote True demo_tdx demo_tdx_args = (True, res)"
    by (simp add: tdx_create_execution_attestation_def)
  with tdx_execution_verifies [OF this demo_tdx_args_ok(1)] show ?thesis by blast
qed

end
