(* ===== verification/Key_Store_Spec.thy ===== *)
theory Key_Store_Spec
  imports Crypto_Api
begin

text \<open>
  The contract of a session store (\<^verbatim>\<open>interfaces/keypair_interface.py\<close>), independent of how it is kept:
  what every operation does to the entry of every session, and what it returns. The lemmas of the
  locale follow a key through any sequence of operations; \<open>held\<close> is the abstract answer.
\<close>

datatype 'e store_op = Put pystr 'e | Get time pystr | Del pystr | Purge time

text \<open>The entry of session \<open>k\<close> after the operations, the newest first, on an empty store.\<close>

fun held :: "(time \<Rightarrow> 'e \<Rightarrow> bool) \<Rightarrow> 'e store_op list \<Rightarrow> pystr \<Rightarrow> 'e option" where
  "held live [] k = None"
| "held live (Put k' e # ops) k = (if k' = k then Some e else held live ops k)"
| "held live (Get t k' # ops) k =
     (case held live ops k of Some e \<Rightarrow> if k' = k \<and> \<not> live t e then None else Some e | None \<Rightarrow> None)"
| "held live (Del k' # ops) k = (if k' = k then None else held live ops k)"
| "held live (Purge t # ops) k =
     (case held live ops k of Some e \<Rightarrow> if live t e then Some e else None | None \<Rightarrow> None)"

text \<open>An operation that leaves the entry \<open>e\<close> of session \<open>k\<close> in place.\<close>

fun keeps :: "(time \<Rightarrow> 'e \<Rightarrow> bool) \<Rightarrow> pystr \<Rightarrow> 'e \<Rightarrow> 'e store_op \<Rightarrow> bool" where
  "keeps live k e (Put k' e') = (k' \<noteq> k)"
| "keeps live k e (Get t k') = (k' = k \<longrightarrow> live t e)"
| "keeps live k e (Del k') = (k' \<noteq> k)"
| "keeps live k e (Purge t) = live t e"

lemma held_Cons: "held live (x # ops) k = Some e \<longleftrightarrow> x = Put k e \<or> keeps live k e x \<and> held live ops k = Some e"
  by (cases x) (auto split: option.splits)

text \<open>An entry is held exactly when it was put and every later operation left it in place.\<close>

lemma held_iff:
  "held live ops k = Some e \<longleftrightarrow>
     (\<exists>later before. ops = later @ Put k e # before \<and> list_all (keeps live k e) later)"
proof (induction ops)
  case (Cons x ops)
  have "(\<exists>later before. x # ops = later @ Put k e # before \<and> list_all (keeps live k e) later) \<longleftrightarrow>
      x = Put k e \<or> keeps live k e x \<and> (\<exists>later before. ops = later @ Put k e # before \<and> list_all (keeps live k e) later)"
    by (auto simp: Cons_eq_append_conv) (metis list.pred_inject(2))
  then show ?case unfolding held_Cons Cons.IH by blast
qed simp

locale key_store =
  fixes inv :: "'s \<Rightarrow> bool"
    and entry :: "'s \<Rightarrow> pystr \<Rightarrow> 'e option"
    and live :: "time \<Rightarrow> 'e \<Rightarrow> bool"
    and secret :: "'e \<Rightarrow> bytes"
    and empty :: "'s"
    and put :: "pystr \<Rightarrow> 'e \<Rightarrow> 's \<Rightarrow> 's"
    and get :: "time \<Rightarrow> pystr \<Rightarrow> 's \<Rightarrow> bytes option \<times> 's"
    and del :: "pystr \<Rightarrow> 's \<Rightarrow> bool \<times> 's"
    and purge :: "time \<Rightarrow> 's \<Rightarrow> 's"
  assumes inv_empty: "inv empty" and entry_empty: "entry empty k = None"
    and inv_put: "inv s \<Longrightarrow> inv (put k e s)"
    and inv_get: "inv s \<Longrightarrow> inv (snd (get t k s))"
    and inv_del: "inv s \<Longrightarrow> inv (snd (del k s))"
    and inv_purge: "inv s \<Longrightarrow> inv (purge t s)"
    and entry_put: "inv s \<Longrightarrow> entry (put k e s) k' = (if k = k' then Some e else entry s k')"
    and get_result: "inv s \<Longrightarrow>
      fst (get t k s) = (case entry s k of Some e \<Rightarrow> if live t e then Some (secret e) else None | None \<Rightarrow> None)"
    and entry_get: "inv s \<Longrightarrow> entry (snd (get t k s)) k' =
      (case entry s k' of Some e \<Rightarrow> if k = k' \<and> \<not> live t e then None else Some e | None \<Rightarrow> None)"
    and del_result: "inv s \<Longrightarrow> fst (del k s) \<longleftrightarrow> entry s k \<noteq> None"
    and entry_del: "inv s \<Longrightarrow> entry (snd (del k s)) k' = (if k = k' then None else entry s k')"
    and entry_purge: "inv s \<Longrightarrow>
      entry (purge t s) k = (case entry s k of Some e \<Rightarrow> if live t e then Some e else None | None \<Rightarrow> None)"
begin

fun exec :: "'e store_op \<Rightarrow> 's \<Rightarrow> 's" where
  "exec (Put k e) s = put k e s"
| "exec (Get t k) s = snd (get t k s)"
| "exec (Del k) s = snd (del k s)"
| "exec (Purge t) s = purge t s"

lemma exec_inv: "inv s \<Longrightarrow> inv (exec op s)"
  by (cases op) (simp_all add: inv_put inv_get inv_del inv_purge)

lemma run_inv: "inv (foldr exec ops empty)"
  by (induction ops) (simp_all add: inv_empty exec_inv)

text \<open>Functional refinement: the entries of the store after a run are the abstract answer.\<close>

lemma entry_run: "entry (foldr exec ops empty) k = held live ops k"
proof (induction ops arbitrary: k)
  case (Cons x ops)
  note inv = run_inv [of ops]
  show ?case
    by (cases x) (simp_all add: entry_put [OF inv] entry_get [OF inv] entry_del [OF inv] entry_purge [OF inv] Cons)
qed (simp add: entry_empty)

lemma get_run_iff:
  "fst (get t k (foldr exec ops empty)) = Some key \<longleftrightarrow>
     (\<exists>e later before. ops = later @ Put k e # before \<and> list_all (keeps live k e) later
        \<and> live t e \<and> secret e = key)"
proof -
  have "fst (get t k (foldr exec ops empty)) = Some key \<longleftrightarrow>
      (\<exists>e. held live ops k = Some e \<and> live t e \<and> secret e = key)"
    unfolding get_result [OF run_inv] entry_run by (auto split: option.splits)
  then show ?thesis by (auto simp: held_iff)
qed

lemma get_after_del:
  assumes "list_all (\<lambda>op. \<forall>e. op \<noteq> Put k e) later"
  shows "fst (get t k (foldr exec (later @ Del k # before) empty)) = None"
proof -
  have "held live (later @ Del k # before) k = None"
    using assms
  proof (induction later)
    case (Cons x later)
    then show ?case by (cases x) auto
  qed simp
  then show ?thesis unfolding get_result [OF run_inv] entry_run by simp
qed

end

end
