(* ===== verification/Keypair_Manager.thy ===== *)
theory Keypair_Manager
  imports Key_Store_Spec Config
begin

text \<open>
  \<^verbatim>\<open>implementations/keypair_manager_impl.py\<close>: the session store of the enclave. Every access to
  \<^verbatim>\<open>active_sessions\<close> is one critical section of \<^verbatim>\<open>_lock\<close>, so a run of the server, whatever its threads,
  is a sequence of the operations of this theory on one \<open>manager\<close>; the clock value an operation reads
  is its argument, and nothing is assumed of the order of these values. A session identifier that
  comes from a request is a dynamic value.
\<close>

section \<open>State\<close>

record session =
  s_job_id :: pyval
  s_private_key :: bytes
  s_public_key :: pystr
  s_key_size :: pyval
  s_created_at :: time
  s_ttl :: int
  s_metadata :: pyval

record manager =
  active_sessions :: "session dict"
  default_ttl :: int
  cleanup_interval :: int

definition init_manager :: "config \<Rightarrow> manager" where
  "init_manager cfg =
     \<lparr>active_sessions = [], default_ttl = SESSION_TTL cfg, cleanup_interval = CLEANUP_INTERVAL cfg\<rparr>"

section \<open>Operations\<close>

definition is_session_valid :: "time \<Rightarrow> session \<Rightarrow> bool" where
  "is_session_valid now s \<longleftrightarrow> now - s_created_at s < of_int (s_ttl s)"

definition purge_expired_sessions :: "time \<Rightarrow> manager \<Rightarrow> manager" where
  "purge_expired_sessions now m =
     (let expired = map fst (filter (\<lambda>(sid, s). now - s_created_at s \<ge> of_int (s_ttl s)) (active_sessions m))
      in m\<lparr>active_sessions := fold ddel expired (active_sessions m)\<rparr>)"

text \<open>What one call of \<^verbatim>\<open>generate_keypair\<close> draws from outside: randomness, a UUID (its \<^verbatim>\<open>hex\<close>), the clock,
  and the formatted UTC time.\<close>

record gen_inputs =
  g_rnd :: nat
  g_uuid :: pystr
  g_now :: time
  g_utc :: pystr

definition session_id_of :: "gen_inputs \<Rightarrow> pystr" where
  "session_id_of g = lit ''rsa-session-'' @ take 8 (g_uuid g)"

definition mk_session :: "manager \<Rightarrow> gen_inputs \<Rightarrow> pyval \<Rightarrow> pyval \<Rightarrow> bytes \<Rightarrow> pystr \<Rightarrow> session" where
  "mk_session m g job_id key_size priv pub =
     \<lparr>s_job_id = job_id, s_private_key = priv, s_public_key = pub, s_key_size = key_size,
      s_created_at = g_now g, s_ttl = default_ttl m,
      s_metadata = PDict [(lit ''algorithm'', pstr ''RSA''), (lit ''key_size'', key_size),
        (lit ''public_exponent'', PInt 65537), (lit ''created_at'', PStr (g_utc g)),
        (lit ''encryption_method'', pstr ''rsa_hybrid'')]\<rparr>"

definition new_session ::
    "'key crypto \<Rightarrow> manager \<Rightarrow> gen_inputs \<Rightarrow> pyval \<Rightarrow> pyval \<Rightarrow> session res" where
  "new_session c m g job_id key_size =
     rbind (rsa_generate c (g_rnd g) 65537 key_size) (\<lambda>k.
     rbind (private_pem c k) (\<lambda>priv.
     rbind (public_pem c k) (\<lambda>pub. Inr (mk_session m g job_id key_size priv pub))))"

definition generate_keypair ::
    "'key crypto \<Rightarrow> config \<Rightarrow> (nat \<Rightarrow> bool) \<Rightarrow> gen_inputs \<Rightarrow> pyval \<Rightarrow> pyval \<Rightarrow> manager
       \<Rightarrow> (bool \<times> pystr) \<times> manager" where
  "generate_keypair c cfg pr g job_id key_size m =
     (if \<not> list_ex (py_eq_int key_size) (ALLOWED_KEY_SIZES cfg)
      then ((False, lit ''Unsupported key size: '' @ py_str pr key_size @ lit ''. Supported: ''
               @ py_repr pr (PList (map PInt (ALLOWED_KEY_SIZES cfg)))), m)
      else case new_session c m g job_id key_size of
             Inl e \<Rightarrow> ((False, exn_str e), m)
           | Inr s \<Rightarrow> ((True, session_id_of g),
                       m\<lparr>active_sessions := dset (session_id_of g) s (active_sessions m)\<rparr>))"

definition get_valid_session :: "time \<Rightarrow> pyval \<Rightarrow> manager \<Rightarrow> (session option \<times> manager) res" where
  "get_valid_session now session_id m =
     rbind (key_in session_id (active_sessions m)) (\<lambda>present.
       if \<not> present then Inr (None, m)
       else case session_id of
              PStr sid \<Rightarrow>
                (case dget (active_sessions m) sid of
                   None \<Rightarrow> Inr (None, m)
                 | Some s \<Rightarrow>
                     (if \<not> is_session_valid now s
                      then Inr (None, m\<lparr>active_sessions := ddel sid (active_sessions m)\<rparr>)
                      else Inr (Some s, m)))
            | _ \<Rightarrow> Inr (None, m))"

definition format_public_key :: "'key crypto \<Rightarrow> pystr \<Rightarrow> pystr \<Rightarrow> pystr option res" where
  "format_public_key c key_format pem =
     (if key_format = lit ''PEM'' then Inr (Some pem)
      else if key_format = lit ''base64'' then rbind (str_encode pem) (\<lambda>bs. Inr (Some (b64encode bs)))
      else if key_format = lit ''DER''
      then rbind (str_encode pem) (\<lambda>bs. rbind (public_der c bs) (\<lambda>der. Inr (Some (b64encode der))))
      else Inr None)"

definition get_public_key ::
    "'key crypto \<Rightarrow> pystr \<Rightarrow> time \<Rightarrow> pyval \<Rightarrow> manager \<Rightarrow> pystr option \<times> manager" where
  "get_public_key c key_format now session_id m =
     (case get_valid_session now session_id m of
        Inl e \<Rightarrow> (None, m)
      | Inr (None, m') \<Rightarrow> (None, m')
      | Inr (Some s, m') \<Rightarrow>
          (case format_public_key c key_format (s_public_key s) of Inl e \<Rightarrow> (None, m') | Inr r \<Rightarrow> (r, m')))"

definition get_private_key :: "time \<Rightarrow> pyval \<Rightarrow> manager \<Rightarrow> bytes option \<times> manager" where
  "get_private_key now session_id m =
     (case get_valid_session now session_id m of
        Inl e \<Rightarrow> (None, m)
      | Inr (None, m') \<Rightarrow> (None, m')
      | Inr (Some s, m') \<Rightarrow> (Some (s_private_key s), m'))"

definition delete_keypair :: "pyval \<Rightarrow> manager \<Rightarrow> bool \<times> manager" where
  "delete_keypair session_id m =
     (case key_in session_id (active_sessions m) of
        Inl e \<Rightarrow> (False, m)
      | Inr present \<Rightarrow>
          (if present
           then (True, (case session_id of
                          PStr sid \<Rightarrow> m\<lparr>active_sessions := ddel sid (active_sessions m)\<rparr> | _ \<Rightarrow> m))
           else (False, m)))"

text \<open>The lookups on identifiers that are strings; every other value is never found.\<close>

lemma get_valid_session_PStr:
  "get_valid_session now (PStr sid) m =
     (case dget (active_sessions m) sid of
        None \<Rightarrow> Inr (None, m)
      | Some s \<Rightarrow> if is_session_valid now s then Inr (Some s, m)
                  else Inr (None, m\<lparr>active_sessions := ddel sid (active_sessions m)\<rparr>))"
  by (simp add: get_valid_session_def key_in_def unhashable_def split: option.splits)

lemma get_valid_session_not_str:
  "(\<And>s. v \<noteq> PStr s) \<Longrightarrow> get_valid_session now v m = (if unhashable v then Inl (unhashable_error v) else Inr (None, m))"
  by (cases v) (auto simp: get_valid_session_def key_in_def unhashable_def)

lemma get_private_key_PStr:
  "get_private_key now (PStr sid) m =
     (case dget (active_sessions m) sid of
        None \<Rightarrow> (None, m)
      | Some s \<Rightarrow> if is_session_valid now s then (Some (s_private_key s), m)
                  else (None, m\<lparr>active_sessions := ddel sid (active_sessions m)\<rparr>))"
  by (simp add: get_private_key_def get_valid_session_PStr split: option.splits)

lemma snd_get_public_key:
  "snd (get_public_key c fmt now v m) = snd (get_private_key now v m)"
  by (simp add: get_public_key_def get_private_key_def split: sum.splits option.splits prod.splits)

lemma get_private_key_not_str: "(\<And>s. v \<noteq> PStr s) \<Longrightarrow> get_private_key now v m = (None, m)"
  by (simp add: get_private_key_def get_valid_session_not_str)

lemma delete_keypair_PStr:
  "delete_keypair (PStr sid) m = (dget (active_sessions m) sid \<noteq> None,
     m\<lparr>active_sessions := ddel sid (active_sessions m)\<rparr>)"
  by (auto simp: delete_keypair_def key_in_def unhashable_def map_of_eq_None_iff delete_id)

lemma delete_keypair_not_str: "(\<And>s. v \<noteq> PStr s) \<Longrightarrow> delete_keypair v m = (False, m)"
  by (cases v) (auto simp: delete_keypair_def key_in_def unhashable_def)

lemma purge_filter:
  "distinct (dkeys (active_sessions m)) \<Longrightarrow> active_sessions (purge_expired_sessions now m) =
     filter (\<lambda>(sid, s). is_session_valid now s) (active_sessions m)"
  by (simp add: purge_expired_sessions_def Let_def fold_ddel_filtered is_session_valid_def not_le)

section \<open>The store contract holds\<close>

definition put_session :: "pystr \<Rightarrow> session \<Rightarrow> manager \<Rightarrow> manager" where
  "put_session sid s m = m\<lparr>active_sessions := dset sid s (active_sessions m)\<rparr>"

abbreviation sessions_distinct :: "manager \<Rightarrow> bool" where
  "sessions_distinct m \<equiv> distinct (dkeys (active_sessions m))"

lemma purge_entry:
  "sessions_distinct m \<Longrightarrow> dget (active_sessions (purge_expired_sessions t m)) k =
     (case dget (active_sessions m) k of Some s \<Rightarrow> if is_session_valid t s then Some s else None | None \<Rightarrow> None)"
  by (simp add: purge_filter dget_filter split: option.splits)

interpretation kp: key_store sessions_distinct "\<lambda>m. dget (active_sessions m)" is_session_valid s_private_key
    "init_manager cfg" put_session "\<lambda>t k. get_private_key t (PStr k)" "\<lambda>k. delete_keypair (PStr k)"
    purge_expired_sessions
  for cfg
proof (unfold_locales, goal_cases)
  case (6 s t)
  then show ?case by (simp add: purge_filter)
next
  case (12 s t k)
  then show ?case by (rule purge_entry)
qed (auto simp: init_manager_def put_session_def get_private_key_PStr delete_keypair_PStr simp del: map_of_eq_Some_iff
  split: option.splits)

section \<open>Runs of the manager\<close>

text \<open>The critical sections that request threads and the cleanup thread execute, in the order in
  which they take the lock.\<close>

datatype km_op =
    OpGenerate gen_inputs pyval pyval
  | OpGetPublic pystr time pyval
  | OpGetPrivate time pyval
  | OpDelete pyval
  | OpPurge time

fun km_exec :: "'key crypto \<Rightarrow> config \<Rightarrow> (nat \<Rightarrow> bool) \<Rightarrow> km_op \<Rightarrow> manager \<Rightarrow> manager" where
  "km_exec c cfg pr (OpGenerate g job_id key_size) m = snd (generate_keypair c cfg pr g job_id key_size m)"
| "km_exec c cfg pr (OpGetPublic fmt t v) m = snd (get_public_key c fmt t v m)"
| "km_exec c cfg pr (OpGetPrivate t v) m = snd (get_private_key t v m)"
| "km_exec c cfg pr (OpDelete v) m = snd (delete_keypair v m)"
| "km_exec c cfg pr (OpPurge t) m = purge_expired_sessions t m"

definition km_run :: "'key crypto \<Rightarrow> config \<Rightarrow> (nat \<Rightarrow> bool) \<Rightarrow> km_op list \<Rightarrow> manager" where
  "km_run c cfg pr ops = fold (km_exec c cfg pr) ops (init_manager cfg)"

text \<open>The session a call of \<^verbatim>\<open>generate_keypair\<close> stores, if it succeeds.\<close>

definition generated :: "'key crypto \<Rightarrow> config \<Rightarrow> gen_inputs \<Rightarrow> pyval \<Rightarrow> pyval \<Rightarrow> session option" where
  "generated c cfg g job_id key_size =
     (if list_ex (py_eq_int key_size) (ALLOWED_KEY_SIZES cfg)
      then case new_session c (init_manager cfg) g job_id key_size of Inl e \<Rightarrow> None | Inr s \<Rightarrow> Some s
      else None)"

fun store_ops :: "'key crypto \<Rightarrow> config \<Rightarrow> km_op \<Rightarrow> session store_op list" where
  "store_ops c cfg (OpGenerate g job_id key_size) =
     (case generated c cfg g job_id key_size of Some s \<Rightarrow> [Put (session_id_of g) s] | None \<Rightarrow> [])"
| "store_ops c cfg (OpGetPublic fmt t v) = (case v of PStr sid \<Rightarrow> [Get t sid] | _ \<Rightarrow> [])"
| "store_ops c cfg (OpGetPrivate t v) = (case v of PStr sid \<Rightarrow> [Get t sid] | _ \<Rightarrow> [])"
| "store_ops c cfg (OpDelete v) = (case v of PStr sid \<Rightarrow> [Del sid] | _ \<Rightarrow> [])"
| "store_ops c cfg (OpPurge t) = [Purge t]"

lemma new_session_ttl: "default_ttl m = default_ttl m' \<Longrightarrow> new_session c m g j k = new_session c m' g j k"
  by (simp add: new_session_def mk_session_def)

lemma ttl_preserved [simp]: "default_ttl (km_exec c cfg pr op m) = default_ttl m"
proof (cases op)
  case (OpGetPrivate t v)
  then show ?thesis
    by (cases v) (auto simp: get_private_key_PStr get_private_key_not_str split: option.splits)
next
  case (OpGetPublic f t v)
  then show ?thesis
    by (cases v) (auto simp: snd_get_public_key get_private_key_PStr get_private_key_not_str split: option.splits)
next
  case (OpDelete v)
  then show ?thesis by (cases v) (auto simp: delete_keypair_PStr delete_keypair_not_str)
qed (auto simp: generate_keypair_def purge_expired_sessions_def Let_def split: sum.splits)

lemma km_exec_store:
  assumes "default_ttl m = SESSION_TTL cfg"
  shows "km_exec c cfg pr op m = foldr kp.exec (store_ops c cfg op) m"
proof (cases op)
  case (OpGenerate g j k)
  have "new_session c m g j k = new_session c (init_manager cfg) g j k"
    using assms by (intro new_session_ttl) (simp add: init_manager_def)
  with OpGenerate show ?thesis
    by (auto simp: generate_keypair_def generated_def put_session_def split: sum.splits)
next
  case (OpGetPrivate t v)
  then show ?thesis by (cases v) (auto simp: get_private_key_not_str)
next
  case (OpGetPublic f t v)
  then show ?thesis by (cases v) (auto simp: snd_get_public_key get_private_key_not_str)
next
  case (OpDelete v)
  then show ?thesis by (cases v) (auto simp: delete_keypair_not_str)
qed simp

text \<open>A run of the manager is a run of the abstract store.\<close>

definition store_trace :: "'key crypto \<Rightarrow> config \<Rightarrow> km_op list \<Rightarrow> session store_op list" where
  "store_trace c cfg ops = concat (map (store_ops c cfg) (rev ops))"

lemma km_run_store: "km_run c cfg pr ops = foldr kp.exec (store_trace c cfg ops) (init_manager cfg)"
proof (induction ops rule: rev_induct)
  case (snoc op ops)
  have "default_ttl (fold (km_exec c cfg pr) ops m) = default_ttl m" for m
    by (induction ops arbitrary: m) auto
  then have "default_ttl (km_run c cfg pr ops) = SESSION_TTL cfg" by (simp add: km_run_def init_manager_def)
  from km_exec_store [OF this] snoc show ?case by (simp add: km_run_def store_trace_def)
qed (simp add: km_run_def store_trace_def)

text \<open>An operation that leaves session \<open>s\<close> under identifier \<open>sid\<close>: it does not replace or delete
  it, and does not see it expired.\<close>

fun km_keeps :: "'key crypto \<Rightarrow> config \<Rightarrow> pystr \<Rightarrow> session \<Rightarrow> km_op \<Rightarrow> bool" where
  "km_keeps c cfg sid s (OpGenerate g j k) \<longleftrightarrow> (session_id_of g = sid \<longrightarrow> generated c cfg g j k = None)"
| "km_keeps c cfg sid s (OpGetPublic fmt t v) \<longleftrightarrow> (v = PStr sid \<longrightarrow> is_session_valid t s)"
| "km_keeps c cfg sid s (OpGetPrivate t v) \<longleftrightarrow> (v = PStr sid \<longrightarrow> is_session_valid t s)"
| "km_keeps c cfg sid s (OpDelete v) \<longleftrightarrow> v \<noteq> PStr sid"
| "km_keeps c cfg sid s (OpPurge t) \<longleftrightarrow> is_session_valid t s"

lemma store_ops_keeps: "list_all (keeps is_session_valid sid s) (store_ops c cfg op) = km_keeps c cfg sid s op"
proof (cases op)
  case (OpGetPrivate t v)
  then show ?thesis by (cases v) auto
next
  case (OpGetPublic f t v)
  then show ?thesis by (cases v) auto
next
  case (OpDelete v)
  then show ?thesis by (cases v) auto
qed (auto split: option.splits)

lemma store_ops_single: "\<exists>x. store_ops c cfg op \<in> {[], [x]}"
  by (cases op) (auto split: option.splits pyval.splits)

lemma store_ops_Put: "Put sid s \<in> set (store_ops c cfg op) \<longleftrightarrow>
    (\<exists>g j k. op = OpGenerate g j k \<and> generated c cfg g j k = Some s \<and> session_id_of g = sid)"
  by (cases op) (auto split: option.splits pyval.splits)

text \<open>The last surviving call of \<^verbatim>\<open>generate_keypair\<close> for an identifier.\<close>

definition km_origin :: "'key crypto \<Rightarrow> config \<Rightarrow> km_op list \<Rightarrow> pystr \<Rightarrow> session \<Rightarrow> bool" where
  "km_origin c cfg ops sid s \<longleftrightarrow>
     (\<exists>before g job_id key_size later. ops = before @ OpGenerate g job_id key_size # later
        \<and> generated c cfg g job_id key_size = Some s \<and> session_id_of g = sid
        \<and> list_all (km_keeps c cfg sid s) later)"

lemma km_origin_snoc:
  "km_origin c cfg (ops @ [op]) sid s \<longleftrightarrow>
     Put sid s \<in> set (store_ops c cfg op) \<or> km_keeps c cfg sid s op \<and> km_origin c cfg ops sid s"
  (is "?A \<longleftrightarrow> ?B")
proof
  assume ?A
  then obtain before g j k later where r: "ops @ [op] = before @ OpGenerate g j k # later"
    "generated c cfg g j k = Some s" "session_id_of g = sid" "list_all (km_keeps c cfg sid s) later"
    by (auto simp: km_origin_def)
  show ?B
  proof (cases later rule: rev_cases)
    case Nil
    with r show ?thesis by (auto simp: store_ops_Put)
  next
    case (snoc later' x)
    with r show ?thesis by (auto simp: km_origin_def)
  qed
next
  assume ?B
  then show ?A
  proof
    assume "Put sid s \<in> set (store_ops c cfg op)"
    then show ?A by (auto simp: store_ops_Put km_origin_def intro!: exI [of _ ops])
  next
    assume "km_keeps c cfg sid s op \<and> km_origin c cfg ops sid s"
    then obtain before g j k later where "ops = before @ OpGenerate g j k # later" "generated c cfg g j k = Some s"
      "session_id_of g = sid" "list_all (km_keeps c cfg sid s) (later @ [op])" by (auto simp: km_origin_def)
    then show ?A unfolding km_origin_def by (metis append_Cons append_assoc)
  qed
qed

lemma held_store_trace: "held is_session_valid (store_trace c cfg ops) sid = Some s \<longleftrightarrow> km_origin c cfg ops sid s"
proof (induction ops rule: rev_induct)
  case (snoc op ops)
  have st: "store_trace c cfg (ops @ [op]) = store_ops c cfg op @ store_trace c cfg ops"
    by (simp add: store_trace_def)
  obtain x where x: "store_ops c cfg op = [] \<or> store_ops c cfg op = [x]" using store_ops_single by fast
  have keep: "km_keeps c cfg sid s op \<longleftrightarrow> list_all (keeps is_session_valid sid s) (store_ops c cfg op)"
    by (simp add: store_ops_keeps)
  show ?case unfolding st km_origin_snoc keep snoc.IH [symmetric]
    using x by (cases x) (auto split: option.splits if_splits)
qed (simp add: store_trace_def km_origin_def)

lemma km_run_entry: "dget (active_sessions (km_run c cfg pr ops)) sid = Some s \<longleftrightarrow> km_origin c cfg ops sid s"
  unfolding km_run_store kp.entry_run held_store_trace ..

lemma get_private_key_run:
  "fst (get_private_key t (PStr sid) (km_run c cfg pr ops)) = Some key \<longleftrightarrow>
     (\<exists>s. km_origin c cfg ops sid s \<and> is_session_valid t s \<and> s_private_key s = key)"
  by (subst km_run_entry [of c cfg pr, symmetric]) (auto simp: get_private_key_PStr split: option.splits)

text \<open>C14: The lifetime of a private key. After any sequence of critical sections on a fresh manager,
  whatever threads issued them and whatever the clocks read, \<^verbatim>\<open>get_private_key\<close> at time \<open>t\<close> returns a key
  exactly when some earlier call generated it under this identifier, \<open>t\<close> is within the time to live of that
  session, and no later operation replaced it, deleted it or saw it expired.\<close>

theorem private_key_lifetime:
  "fst (get_private_key t (PStr sid) (km_run c cfg pr ops)) = Some key \<longleftrightarrow>
     (\<exists>before g job_id key_size later s. ops = before @ OpGenerate g job_id key_size # later
        \<and> generated c cfg g job_id key_size = Some s \<and> session_id_of g = sid
        \<and> list_all (km_keeps c cfg sid s) later \<and> is_session_valid t s \<and> s_private_key s = key)"
  unfolding get_private_key_run km_origin_def by blast

text \<open>Deletion is final. Once \<^verbatim>\<open>delete_keypair\<close> ran for an identifier, no operation of any thread makes
  its private or public key available again, until a new key is generated under the same
  identifier.\<close>

theorem deleted_key_unavailable:
  assumes "list_all (\<lambda>op. \<forall>g j k. op = OpGenerate g j k \<longrightarrow> session_id_of g \<noteq> sid) later"
    and "m = km_run c cfg pr (before @ OpDelete (PStr sid) # later)"
  shows "fst (get_private_key t (PStr sid) m) = None \<and> fst (get_public_key c fmt t (PStr sid) m) = None"
proof -
  have "\<not> km_origin c cfg (before @ OpDelete (PStr sid) # later) sid s" for s
    using assms(1)
  proof (induction later rule: rev_induct)
    case Nil
    then show ?case by (simp add: km_origin_snoc)
  next
    case (snoc x xs)
    then show ?case using km_origin_snoc [of c cfg "before @ OpDelete (PStr sid) # xs" x sid s] by (auto simp: store_ops_Put)
  qed
  then have "dget (active_sessions m) sid = None"
    unfolding assms(2) by (metis km_run_entry not_Some_eq)
  then show ?thesis by (simp add: get_private_key_PStr get_public_key_def get_valid_session_PStr)
qed

section \<open>Reachable managers\<close>

inductive km_reachable :: "'key crypto \<Rightarrow> config \<Rightarrow> (nat \<Rightarrow> bool) \<Rightarrow> manager \<Rightarrow> bool"
  for c :: "'key crypto" and cfg :: config and pr :: "nat \<Rightarrow> bool" where
  km_init: "km_reachable c cfg pr (init_manager cfg)"
| km_next: "km_reachable c cfg pr m \<Longrightarrow> km_reachable c cfg pr (km_exec c cfg pr op m)"

inductive_cases km_reachableE: "km_reachable c cfg pr m"

lemma km_reachable_run: "km_reachable c cfg pr m \<longleftrightarrow> (\<exists>ops. m = km_run c cfg pr ops)"
proof
  show "km_reachable c cfg pr m \<Longrightarrow> \<exists>ops. m = km_run c cfg pr ops"
  proof (induction rule: km_reachable.induct)
    case km_init
    show ?case by (rule exI [of _ "[]"]) (simp add: km_run_def)
  next
    case (km_next m op)
    then obtain ops where "m = km_run c cfg pr ops" by blast
    then show ?case by (intro exI [of _ "ops @ [op]"]) (simp add: km_run_def)
  qed
  have "km_reachable c cfg pr (km_run c cfg pr ops)" for ops
    by (induction ops rule: rev_induct) (simp_all add: km_run_def km_init km_next)
  then show "\<exists>ops. m = km_run c cfg pr ops \<Longrightarrow> km_reachable c cfg pr m" by blast
qed

text \<open>A well-formed session: stored under an identifier of the enclave's form, with the configured
  time to live, a supported key size, and the two PEM texts of one and the same key.\<close>

definition session_ok :: "'key crypto \<Rightarrow> config \<Rightarrow> pystr \<times> session \<Rightarrow> bool" where
  "session_ok c cfg e \<longleftrightarrow> (case e of (sid, s) \<Rightarrow>
     (\<exists>u. length u \<le> 8 \<and> sid = lit ''rsa-session-'' @ u)
     \<and> s_ttl s = SESSION_TTL cfg \<and> list_ex (py_eq_int (s_key_size s)) (ALLOWED_KEY_SIZES cfg)
     \<and> (\<exists>k. private_pem c k = Inr (s_private_key s) \<and> public_pem c k = Inr (s_public_key s)))"

definition manager_ok :: "'key crypto \<Rightarrow> config \<Rightarrow> manager \<Rightarrow> bool" where
  "manager_ok c cfg m \<longleftrightarrow> sessions_distinct m \<and> default_ttl m = SESSION_TTL cfg
     \<and> list_all (session_ok c cfg) (active_sessions m)"

lemma set_ddel_subset: "set (ddel k d) \<subseteq> set d"
  by (auto simp: AList.delete_eq)

lemma set_dset_subset: "set (dset k v d) \<subseteq> insert (k, v) (set d)"
  by (induction d) auto

lemma generated_ok:
  assumes "new_session c m g j k = Inr s" "list_ex (py_eq_int k) (ALLOWED_KEY_SIZES cfg)" "default_ttl m = SESSION_TTL cfg"
  shows "session_ok c cfg (session_id_of g, s)"
  using assms by (auto simp: new_session_def rbind_eq_Inr_iff mk_session_def session_ok_def session_id_of_def)

lemma km_exec_ok:
  assumes "manager_ok c cfg m"
  shows "manager_ok c cfg (km_exec c cfg pr op m)"
proof (cases "\<exists>g j k. op = OpGenerate g j k")
  case True
  then obtain g j k where op: "op = OpGenerate g j k" by blast
  have "list_all (session_ok c cfg) (dset (session_id_of g) s (active_sessions m))"
    if "new_session c m g j k = Inr s" "list_ex (py_eq_int k) (ALLOWED_KEY_SIZES cfg)" for s
    using assms generated_ok [OF that] set_dset_subset [of "session_id_of g" s "active_sessions m"]
    by (auto simp: manager_ok_def list_all_iff)
  with assms show ?thesis by (auto simp: op generate_keypair_def manager_ok_def split: sum.splits)
next
  case False
  let ?m = "km_exec c cfg pr op m"
  have "sessions_distinct ?m \<and> set (active_sessions ?m) \<subseteq> set (active_sessions m)"
  proof (cases op)
    case (OpGetPrivate t v)
    then show ?thesis using assms set_ddel_subset
      by (cases v) (auto simp: manager_ok_def get_private_key_PStr get_private_key_not_str split: option.splits)
  next
    case (OpGetPublic f t v)
    then show ?thesis using assms set_ddel_subset
      by (cases v) (auto simp: manager_ok_def snd_get_public_key get_private_key_PStr get_private_key_not_str split: option.splits)
  next
    case (OpDelete v)
    then show ?thesis using assms set_ddel_subset
      by (cases v) (auto simp: manager_ok_def delete_keypair_PStr delete_keypair_not_str)
  qed (use assms False in \<open>auto simp: manager_ok_def purge_filter\<close>)
  with assms show ?thesis by (auto simp: manager_ok_def list_all_iff)
qed

lemma reachable_ok: "km_reachable c cfg pr m \<Longrightarrow> manager_ok c cfg m"
  by (induction rule: km_reachable.induct) (auto simp: km_exec_ok, simp add: manager_ok_def init_manager_def)

text \<open>In every reachable state of the session store, whatever the interleaving of request and cleanup
  threads, identifiers are unique and every session is well-formed: the configured time to live, a supported
  key size, an identifier of the enclave's form, and a private and a public PEM of the same key.\<close>

theorem reachable_manager_ok:
  assumes "km_reachable c cfg pr m"
  shows "manager_ok c cfg m"
  by (rule reachable_ok [OF assms])

section \<open>A concrete run\<close>

definition demo_gen :: gen_inputs where
  "demo_gen = \<lparr>g_rnd = 3, g_uuid = lit ''0123456789abcdef0123456789abcdef'', g_now = 1000, g_utc = lit ''2024-01-01 00:00:00 UTC''\<rparr>"

definition demo_sid :: pystr where
  "demo_sid = lit ''rsa-session-01234567''"

definition demo_ops :: "km_op list" where
  "demo_ops = [OpGenerate demo_gen (pstr ''job'') (PInt 2048), OpPurge 2000, OpGetPrivate 3000 (PStr demo_sid)]"

lemmas km_eval = demo_ops_def demo_gen_def demo_sid_def km_run_def generate_keypair_def new_session_def
  mk_session_def session_id_of_def default_config_def init_manager_def toy_crypto_def toy_rsa_generate_def py_eq_int_def
  purge_expired_sessions_def get_private_key_PStr is_session_valid_def

lemma demo_generated:
  "fst (get_private_key 4599 (PStr demo_sid) (km_run toy_crypto default_config (\<lambda>_. True) demo_ops)) = Some (toy_pem (2048, 3))"
  "fst (get_private_key 4600 (PStr demo_sid) (km_run toy_crypto default_config (\<lambda>_. True) demo_ops)) = None"
  by (simp_all add: km_eval lit_def)

definition demo_manager :: manager where
  "demo_manager = km_run toy_crypto default_config (\<lambda>_. True) demo_ops"

definition demo_session :: session where
  "demo_session = mk_session (init_manager default_config) demo_gen (pstr ''job'') (PInt 2048) (toy_pem (2048, 3))
     (lit ''PUB '' @ show_nat 2048 @ [32] @ show_nat 3)"

lemma demo_manager_sessions: "active_sessions demo_manager = [(demo_sid, demo_session)]"
  by (simp add: demo_manager_def demo_session_def km_eval lit_def)

theorem deleted_key_unavailable_witness:
  "fst (get_private_key 1500 (PStr demo_sid)
     (km_run toy_crypto default_config (\<lambda>_. True) (demo_ops @ OpDelete (PStr demo_sid) # [OpPurge 1200]))) = None"
  using deleted_key_unavailable [of demo_sid "[OpPurge 1200]" _ toy_crypto default_config "\<lambda>_. True" demo_ops 1500 "lit ''PEM''", OF _ refl]
  by simp

theorem reachable_manager_ok_witness:
  "manager_ok toy_crypto default_config (km_run toy_crypto default_config (\<lambda>_. True) demo_ops)
   \<and> active_sessions (km_run toy_crypto default_config (\<lambda>_. True) demo_ops) \<noteq> []"
  using reachable_manager_ok [of toy_crypto default_config "\<lambda>_. True" "km_run toy_crypto default_config (\<lambda>_. True) demo_ops"]
  by (auto simp: km_reachable_run) (simp add: km_eval lit_def)

end
