(* ===== verification/Decrypt_Service.thy ===== *)
theory Decrypt_Service
  imports Keypair_Manager Py_Path Sha2
begin

text \<open>
  \<^verbatim>\<open>implementations/decrypt_service_impl.py\<close>. A method returns the pair of the source, a success flag and
  bytes (or text); it can also raise, when the text of an error cannot be encoded, so the result is a
  \<open>res\<close>. The manager is threaded through, since looking up a key removes an expired session.
\<close>

definition IV_SIZE :: nat where "IV_SIZE = 16"
definition AES_BLOCK_SIZE :: nat where "AES_BLOCK_SIZE = 128"
definition GCM_NONCE_SIZE :: nat where "GCM_NONCE_SIZE = 12"

type_synonym dec_result = "(bool \<times> bytes) res"

text \<open>\<^verbatim>\<open>except Exception as e: return False, str(e).encode()\<close>.\<close>

definition catch_encode :: "bytes res \<Rightarrow> dec_result" where
  "catch_encode r = (case r of
       Inr bs \<Rightarrow> Inr (True, bs)
     | Inl e \<Rightarrow> rbind (str_encode (exn_str e)) (\<lambda>b. Inr (False, b)))"

text \<open>The part that all methods share: the private key of the session, or the error for a session that
  has none. The message is encoded inside the \<^verbatim>\<open>try\<close> block.\<close>

definition with_private_key :: "(nat \<Rightarrow> bool) \<Rightarrow> time \<Rightarrow> pyval \<Rightarrow> manager
    \<Rightarrow> (bytes \<Rightarrow> dec_result) \<Rightarrow> dec_result \<times> manager" where
  "with_private_key pr now session_id m f =
     (case get_private_key now session_id m of
        (key, m') \<Rightarrow>
          (case key of
             Some (b # bs) \<Rightarrow> (f (b # bs), m')
           | _ \<Rightarrow>
               (case str_encode (lit ''Private key not found for session '' @ py_str pr session_id) of
                  Inr msg \<Rightarrow> (Inr (False, msg), m')
                | Inl e \<Rightarrow> (catch_encode (Inl e), m'))))"

section \<open>The combined format\<close>

record combined_parts =
  p_encrypted_key :: bytes
  p_nonce :: bytes
  p_ciphertext :: bytes

definition parse_combined :: "nat \<Rightarrow> bytes \<Rightarrow> combined_parts" where
  "parse_combined rsa_key_bytes combined =
     \<lparr>p_encrypted_key = take rsa_key_bytes combined,
      p_nonce = take GCM_NONCE_SIZE (drop rsa_key_bytes combined),
      p_ciphertext = drop (rsa_key_bytes + GCM_NONCE_SIZE) combined\<rparr>"

definition decrypt_combined_with :: "'key crypto \<Rightarrow> pyval \<Rightarrow> bytes \<Rightarrow> bytes res" where
  "decrypt_combined_with c data private_key_bytes =
     rbind (load_private c private_key_bytes) (\<lambda>private_key.
     rbind (b64decode_val data) (\<lambda>combined.
     let p = parse_combined (nat (key_bits c private_key div 8)) combined in
     rbind (oaep_decrypt c private_key (p_encrypted_key p)) (\<lambda>aes_key.
     gcm_decrypt c aes_key (p_nonce p) (p_ciphertext p))))"

definition gcm_failed :: pystr where
  "gcm_failed = lit ''AES-GCM authentication failed: payload tampered or corrupt''"

definition decrypt_combined_hybrid_data ::
    "'key crypto \<Rightarrow> (nat \<Rightarrow> bool) \<Rightarrow> time \<Rightarrow> pyval \<Rightarrow> pyval \<Rightarrow> manager \<Rightarrow> dec_result \<times> manager" where
  "decrypt_combined_hybrid_data c pr now data session_id m =
     with_private_key pr now session_id m (\<lambda>key.
       case decrypt_combined_with c data key of
         Inl (Exn InvalidTag _) \<Rightarrow> rbind (str_encode gcm_failed) (\<lambda>b. Inr (False, b))
       | r \<Rightarrow> catch_encode r)"

section \<open>The other decryption methods\<close>

definition decrypt_hybrid_data ::
    "'key crypto \<Rightarrow> (nat \<Rightarrow> bool) \<Rightarrow> time \<Rightarrow> pyval \<Rightarrow> pyval \<Rightarrow> pyval \<Rightarrow> manager \<Rightarrow> dec_result \<times> manager" where
  "decrypt_hybrid_data c pr now encrypted_data encrypted_key session_id m =
     with_private_key pr now session_id m (\<lambda>key. catch_encode (
       rbind (load_private c key) (\<lambda>private_key.
       rbind (b64decode_val encrypted_key) (\<lambda>encrypted_aes_key.
       rbind (oaep_decrypt c private_key encrypted_aes_key) (\<lambda>aes_key.
       rbind (b64decode_val encrypted_data) (\<lambda>bs.
       rbind (cbc_decrypt c aes_key (take IV_SIZE bs) (drop IV_SIZE bs)) (\<lambda>padded_data.
       pkcs7_unpad c AES_BLOCK_SIZE padded_data)))))))"

definition decrypt_rsa_data ::
    "'key crypto \<Rightarrow> (nat \<Rightarrow> bool) \<Rightarrow> time \<Rightarrow> pyval \<Rightarrow> pyval \<Rightarrow> manager \<Rightarrow> dec_result \<times> manager" where
  "decrypt_rsa_data c pr now encrypted_data session_id m =
     with_private_key pr now session_id m (\<lambda>key. catch_encode (
       rbind (load_private c key) (\<lambda>private_key.
       rbind (b64decode_val encrypted_data) (\<lambda>bs. oaep_decrypt c private_key bs))))"

text \<open>\<^verbatim>\<open>base64.urlsafe_b64encode\<close>: the alphabet with \<open>-\<close> and \<open>_\<close> in place of \<open>+\<close> and \<open>/\<close>.\<close>

definition urlsafe_b64encode :: "bytes \<Rightarrow> pystr" where
  "urlsafe_b64encode bs = map (\<lambda>ch. if ch = 43 then 45 else if ch = 47 then 95 else ch) (b64encode bs)"

definition decrypt_csv_data ::
    "'key crypto \<Rightarrow> (nat \<Rightarrow> bool) \<Rightarrow> time \<Rightarrow> bytes \<Rightarrow> bytes \<Rightarrow> pyval \<Rightarrow> manager \<Rightarrow> dec_result \<times> manager" where
  "decrypt_csv_data c pr now encrypted_aes_key encrypted_content session_id m =
     with_private_key pr now session_id m (\<lambda>key. catch_encode (
       rbind (load_private c key) (\<lambda>private_key.
       rbind (oaep_decrypt c private_key encrypted_aes_key) (\<lambda>aes_key.
       fernet_decrypt c (urlsafe_b64encode (take 32 aes_key)) encrypted_content))))"

text \<open>\<^verbatim>\<open>decrypt_csv_file\<close>: \<open>rd\<close> and \<open>wr\<close> stand for reading and writing a file; the third component of the
  result is the file that was written.\<close>

definition split_csv_file :: "bytes \<Rightarrow> bytes \<times> bytes" where
  "split_csv_file file_content =
     (let key_length = be_nat (take 4 file_content)
      in (take key_length (drop 4 file_content), drop (4 + key_length) file_content))"

definition decrypted_path :: "pystr \<Rightarrow> pystr" where
  "decrypted_path file_path = path_join (path_dirname file_path) (lit ''decrypted_'' @ path_basename file_path)"

definition decrypt_csv_file ::
    "'key crypto \<Rightarrow> (nat \<Rightarrow> bool) \<Rightarrow> (pystr \<Rightarrow> bytes res) \<Rightarrow> (pystr \<Rightarrow> bytes \<Rightarrow> unit res) \<Rightarrow> time \<Rightarrow> pystr \<Rightarrow> pyval
       \<Rightarrow> manager \<Rightarrow> (bool \<times> pystr) \<times> manager \<times> (pystr \<times> bytes) option" where
  "decrypt_csv_file c pr rd wr now file_path session_id m =
     (case rd file_path of
        Inl e \<Rightarrow> ((False, exn_str e), m, None)
      | Inr file_content \<Rightarrow>
          (let (encrypted_aes_key, encrypted_content) = split_csv_file file_content in
           case decrypt_csv_data c pr now encrypted_aes_key encrypted_content session_id m of
             (Inl e, m') \<Rightarrow> ((False, exn_str e), m', None)
           | (Inr (False, msg), m') \<Rightarrow>
               (case py_decode msg of Inr t \<Rightarrow> ((False, t), m', None) | Inl e \<Rightarrow> ((False, exn_str e), m', None))
           | (Inr (True, content), m') \<Rightarrow>
               (case wr (decrypted_path file_path) content of
                  Inl e \<Rightarrow> ((False, exn_str e), m', None)
                | Inr _ \<Rightarrow> ((True, decrypted_path file_path), m', Some (decrypted_path file_path, content)))))"

definition decrypt_bundle :: "bytes \<Rightarrow> bool \<times> bytes" where
  "decrypt_bundle bundle_data = (True, bundle_data)"

section \<open>Metadata and integrity\<close>

definition supported_algorithms :: "pyval dict" where
  "supported_algorithms =
     [(lit ''rsa_hybrid'', PDict [(lit ''description'', pstr ''RSA + AES hybrid encryption''),
        (lit ''rsa_key_sizes'', PList [PInt 2048, PInt 3072, PInt 4096]), (lit ''aes_key_size'', PInt 256),
        (lit ''padding'', pstr ''OAEP'')]),
      (lit ''pure_rsa'', PDict [(lit ''description'', pstr ''Pure RSA encryption''),
        (lit ''key_sizes'', PList [PInt 2048, PInt 3072, PInt 4096]), (lit ''padding'', pstr ''OAEP'')])]"

definition supported_key_size :: "pyval \<Rightarrow> bool" where
  "supported_key_size v = list_ex (py_eq_int v) [2048, 3072, 4096]"

definition validate_encryption_metadata :: "(nat \<Rightarrow> bool) \<Rightarrow> pyval dict \<Rightarrow> bool \<times> pystr" where
  "validate_encryption_metadata pr metadata =
     (case dget metadata (lit ''algorithm'') of
        None \<Rightarrow> (False, lit ''Missing required field: algorithm'')
      | Some algorithm \<Rightarrow>
          (case dget metadata (lit ''key_size'') of
             None \<Rightarrow> (False, lit ''Missing required field: key_size'')
           | Some key_size \<Rightarrow>
               (case key_in algorithm supported_algorithms of
                  Inl e \<Rightarrow> (False, lit ''Metadata validation error: '' @ exn_str e)
                | Inr known \<Rightarrow>
                    (if \<not> known then (False, lit ''Unsupported algorithm: '' @ py_str pr algorithm)
                     else if \<not> supported_key_size key_size
                     then (False, lit ''Unsupported key size for '' @ py_str pr algorithm @ lit '': '' @ py_str pr key_size)
                     else (True, lit ''Metadata validation successful'')))))"

definition get_supported_algorithms :: "pyval dict" where
  "get_supported_algorithms = supported_algorithms"

definition verify_data_integrity :: "bytes \<Rightarrow> pyval \<Rightarrow> bool" where
  "verify_data_integrity data expected_hash =
     (case expected_hash of PNone \<Rightarrow> 0 < length data | _ \<Rightarrow> PStr (sha256_hex data) = expected_hash)"

definition get_decryption_stats :: "pystr \<Rightarrow> pyval" where
  "get_decryption_stats utc =
     PDict [(lit ''supported_algorithms'', PList (map PStr (dkeys supported_algorithms))),
       (lit ''total_algorithms'', PInt (int (length supported_algorithms))),
       (lit ''default_algorithm'', pstr ''rsa_hybrid''), (lit ''service_status'', pstr ''active''),
       (lit ''timestamp'', PStr utc)]"

section \<open>Correctness of the combined format\<close>

lemma parse_combined_append:
  "length n = GCM_NONCE_SIZE \<Longrightarrow> parse_combined (length ek) (ek @ n @ ct) = \<lparr>p_encrypted_key = ek, p_nonce = n, p_ciphertext = ct\<rparr>"
  by (simp add: parse_combined_def)

lemma get_private_key_cases:
  assumes "get_private_key now v m = (Some key, m')"
  obtains sid s where "v = PStr sid" "dget (active_sessions m) sid = Some s" "is_session_valid now s"
    "key = s_private_key s" "m' = m"
proof (cases "\<exists>sid. v = PStr sid")
  case True
  then obtain sid where v: "v = PStr sid" by blast
  with assms obtain s where "dget (active_sessions m) sid = Some s" "is_session_valid now s"
    "key = s_private_key s" "m' = m" by (auto simp: get_private_key_PStr split: option.splits if_splits)
  with v show thesis by (rule that)
next
  case False
  with assms that show thesis by (simp add: get_private_key_not_str)
qed

lemma with_private_key_True:
  assumes "with_private_key pr now session_id m f = (Inr (True, plain), m')"
  obtains sid s where "session_id = PStr sid" "dget (active_sessions m) sid = Some s" "is_session_valid now s"
    "s_private_key s \<noteq> []" "f (s_private_key s) = Inr (True, plain)" "m' = m"
proof -
  obtain key m1 where g: "get_private_key now session_id m = (key, m1)" by (cases "get_private_key now session_id m")
  show thesis
  proof (cases "key = None \<or> key = Some []")
    case True
    with assms g show thesis
      by (auto simp: with_private_key_def catch_encode_def rbind_eq_Inr_iff split: sum.splits)
  next
    case False
    then obtain b bs where key: "key = Some (b # bs)" by (metis list.exhaust not_None_eq)
    with g get_private_key_cases obtain sid s where s: "session_id = PStr sid" "dget (active_sessions m) sid = Some s"
      "is_session_valid now s" "b # bs = s_private_key s" "m1 = m" by metis
    have "f (b # bs) = Inr (True, plain)" "m' = m1" using assms g key by (simp_all add: with_private_key_def)
    with s that show thesis by (metis list.distinct(1))
  qed
qed

lemma catch_encode_True [simp]: "catch_encode r = Inr (True, plain) \<longleftrightarrow> r = Inr plain"
  by (auto simp: catch_encode_def rbind_eq_Inr_iff split: sum.splits)

lemma combined_result_True:
  "(case r of Inl (Exn InvalidTag _) \<Rightarrow> rbind (str_encode gcm_failed) (\<lambda>b. Inr (False, b)) | r \<Rightarrow> catch_encode r)
     = Inr (True, plain) \<longleftrightarrow> r = Inr plain"
  by (auto simp: rbind_eq_Inr_iff split: sum.splits pyexn.splits exn_kind.splits)

lemma decrypt_combined_success:
  assumes "decrypt_combined_hybrid_data c pr now data session_id m = (Inr (True, plain), m')"
  shows "m' = m \<and> (\<exists>sid s k combined aes_key. session_id = PStr sid \<and> dget (active_sessions m) sid = Some s
     \<and> is_session_valid now s \<and> load_private c (s_private_key s) = Inr k \<and> b64decode_val data = Inr combined
     \<and> (let p = parse_combined (nat (key_bits c k div 8)) combined in
          oaep_decrypt c k (p_encrypted_key p) = Inr aes_key \<and> gcm_decrypt c aes_key (p_nonce p) (p_ciphertext p) = Inr plain))"
proof -
  from assms [unfolded decrypt_combined_hybrid_data_def] obtain sid s where
    s: "session_id = PStr sid" "dget (active_sessions m) sid = Some s" "is_session_valid now s" "m' = m"
    and d: "decrypt_combined_with c data (s_private_key s) = Inr plain"
    unfolding combined_result_True by (elim with_private_key_True) (simp only: combined_result_True)
  from d obtain k combined where k: "load_private c (s_private_key s) = Inr k" "b64decode_val data = Inr combined"
    and r: "rbind (oaep_decrypt c k (p_encrypted_key (parse_combined (nat (key_bits c k div 8)) combined)))
       (\<lambda>aes_key. gcm_decrypt c aes_key (p_nonce (parse_combined (nat (key_bits c k div 8)) combined))
          (p_ciphertext (parse_combined (nat (key_bits c k div 8)) combined))) = Inr plain"
    unfolding decrypt_combined_with_def rbind_eq_Inr_iff Let_def by blast
  from r obtain aes_key where
    "oaep_decrypt c k (p_encrypted_key (parse_combined (nat (key_bits c k div 8)) combined)) = Inr aes_key"
    "gcm_decrypt c aes_key (p_nonce (parse_combined (nat (key_bits c k div 8)) combined))
       (p_ciphertext (parse_combined (nat (key_bits c k div 8)) combined)) = Inr plain"
    unfolding rbind_eq_Inr_iff by blast
  with s k show ?thesis unfolding Let_def by blast
qed

text \<open>C20: Nothing is decrypted without authentication. When the combined decryption reports success, the
  session is live, the payload splits into the wrapped key, a nonce and a ciphertext, the wrapped key
  decrypts under the session's private key, and AES-GCM accepted exactly this nonce and ciphertext
  under it and produced the returned bytes; the session store is unchanged.\<close>

theorem decrypt_combined_authenticated:
  assumes "decrypt_combined_hybrid_data c pr now data session_id m = (Inr (True, plain), m')"
  shows "m' = m \<and> (\<exists>sid s k combined aes_key. session_id = PStr sid \<and> dget (active_sessions m) sid = Some s
     \<and> is_session_valid now s \<and> load_private c (s_private_key s) = Inr k \<and> b64decode_val data = Inr combined
     \<and> (let p = parse_combined (nat (key_bits c k div 8)) combined in
          oaep_decrypt c k (p_encrypted_key p) = Inr aes_key \<and> gcm_decrypt c aes_key (p_nonce p) (p_ciphertext p) = Inr plain))"
  by (rule decrypt_combined_success [OF assms])

text \<open>What the proxy sends: a fresh AES key wrapped for the session, the nonce and the sealed data.\<close>

definition seal_combined ::
    "('key \<Rightarrow> bytes \<Rightarrow> bytes) \<Rightarrow> (bytes \<Rightarrow> bytes \<Rightarrow> bytes \<Rightarrow> bytes) \<Rightarrow> 'key \<Rightarrow> bytes \<Rightarrow> bytes \<Rightarrow> bytes \<Rightarrow> pystr" where
  "seal_combined oaep gcm k aes_key nonce plain = b64encode (oaep k aes_key @ nonce @ gcm aes_key nonce plain)"

lemma decrypt_combined_sealed:
  assumes "oaep_inverse c oaep" "gcm_inverse c gcm" "load_private c pem = Inr k"
    and "length aes_key = 32" "length nonce = 12" "98 \<le> key_bits c k div 8"
  shows "decrypt_combined_with c (PStr (seal_combined oaep gcm k aes_key nonce plain)) pem = Inr plain"
proof -
  have o: "int (length (oaep k aes_key)) = key_bits c k div 8" "oaep_decrypt c k (oaep k aes_key) = Inr aes_key"
    using assms(1,4,6) by (simp_all add: oaep_inverse_def)
  then have len: "nat (key_bits c k div 8) = length (oaep k aes_key)" by simp
  have "gcm_decrypt c aes_key nonce (gcm aes_key nonce plain) = Inr plain"
    using assms(2,4,5) by (simp add: gcm_inverse_def)
  with o assms(3,5) show ?thesis
    by (simp add: decrypt_combined_with_def seal_combined_def b64decode_val_def codec_simps len
        parse_combined_append GCM_NONCE_SIZE_def)
qed

text \<open>C21: Round trip of the hybrid encryption. What the proxy seals for the public key of a live session, with
  any AES key and nonce, the enclave decrypts to the same bytes, and the session stays as it was.\<close>

theorem decrypt_combined_roundtrip:
  assumes "pem_roundtrip c" "oaep_inverse c oaep" "gcm_inverse c gcm"
    and "dget (active_sessions m) sid = Some s" "is_session_valid now s"
    and "private_pem c k = Inr (s_private_key s)" "98 \<le> key_bits c k div 8"
    and "length aes_key = 32" "length nonce = 12"
  shows "decrypt_combined_hybrid_data c pr now (PStr (seal_combined oaep gcm k aes_key nonce plain)) (PStr sid) m
     = (Inr (True, plain), m)"
proof -
  have pem: "load_private c (s_private_key s) = Inr k" "s_private_key s \<noteq> []"
    using assms(1,6) by (auto simp: pem_roundtrip_def)
  have "decrypt_combined_with c (PStr (seal_combined oaep gcm k aes_key nonce plain)) (s_private_key s) = Inr plain"
    using assms pem by (intro decrypt_combined_sealed)
  with pem(2) assms(4,5) show ?thesis
    by (cases "s_private_key s") (auto simp: decrypt_combined_hybrid_data_def with_private_key_def
        get_private_key_PStr catch_encode_def)
qed

section \<open>Failures are reported, not raised\<close>

abbreviation ascii :: "pystr \<Rightarrow> bool" where
  "ascii s \<equiv> list_all (\<lambda>ch. ch < 128) s"

text \<open>Documented behaviour: the messages of the package's exceptions are ASCII.\<close>

definition ascii_errors :: "'key crypto \<Rightarrow> bool" where
  "ascii_errors c \<longleftrightarrow>
     (\<forall>pem e. load_private c pem = Inl e \<longrightarrow> ascii (exn_str e))
     \<and> (\<forall>k ct e. oaep_decrypt c k ct = Inl e \<longrightarrow> ascii (exn_str e))
     \<and> (\<forall>key n ct e. gcm_decrypt c key n ct = Inl e \<longrightarrow> ascii (exn_str e))"

lemma ascii_lit [simp]: "ascii (lit s) \<longleftrightarrow> list_all (\<lambda>ch. of_char ch < (128 :: nat)) s"
  by (simp add: lit_def list_all_iff)

lemma ascii_show_nat [simp]: "ascii (show_nat n)"
  using show_nat_digits by (fastforce simp: list_all_iff)

lemma ascii_hex4: "ascii (hex4 n)"
  by (simp add: hex4_def hexdigit_less)

lemma ascii_encode_error: "ascii (exn_str (encode_error s))"
  by (simp add: encode_error_def Let_def ascii_hex4)

lemma ascii_type_name: "ascii (type_name v)"
  by (cases v) simp_all

lemma ascii_b64decode: "b64decode_val v = Inl e \<Longrightarrow> ascii (exn_str e)"
proof -
  have a2b: "ascii (exn_str e)" if "a2b_base64 q l p k s = Inl e" for q l p k s
    using that by (induction q l p k s rule: a2b_base64.induct)
      (auto simp: rbind_eq_Inl_iff split: if_splits option.splits)
  show "b64decode_val v = Inl e \<Longrightarrow> ascii (exn_str e)"
    by (cases v) (auto simp: b64decode_val_def b64decode_def quoted_def dest: a2b split: if_splits)
qed

lemma str_encode_ascii_ok: "ascii s \<Longrightarrow> \<exists>b. str_encode s = Inr b"
  using str_encode_ascii [of s] by (auto simp: list_all_iff)

lemma catch_encode_ok: "(\<And>e. r = Inl e \<Longrightarrow> ascii (exn_str e)) \<Longrightarrow> \<exists>x. catch_encode r = Inr x"
  using str_encode_ascii_ok by (fastforce simp: catch_encode_def split: sum.splits)

lemma decrypt_combined_with_ascii:
  assumes "ascii_errors c" "decrypt_combined_with c data key = Inl e"
  shows "ascii (exn_str e)"
  using assms ascii_b64decode by (auto simp: decrypt_combined_with_def rbind_eq_Inl_iff Let_def ascii_errors_def)


section \<open>A concrete exchange\<close>

definition demo_aes :: bytes where "demo_aes = replicate 32 5"
definition demo_nonce :: bytes where "demo_nonce = replicate 12 9"

definition demo_sealed :: "bytes \<Rightarrow> pystr" where
  "demo_sealed plain = seal_combined toy_oaep_encrypt toy_gcm_encrypt (2048, 3) demo_aes demo_nonce plain"

lemma demo_session_key: "private_pem toy_crypto (2048, 3) = Inr (s_private_key demo_session)" "is_session_valid 3000 demo_session"
  by (simp_all add: toy_crypto_def demo_session_def mk_session_def is_session_valid_def demo_gen_def init_manager_def default_config_def)

lemma demo_decrypt:
  "decrypt_combined_hybrid_data toy_crypto pr 3000 (PStr (demo_sealed plain)) (PStr demo_sid) demo_manager
     = (Inr (True, plain), demo_manager)"
proof -
  have pem: "load_private toy_crypto (s_private_key demo_session) = Inr (2048, 3)" "s_private_key demo_session \<noteq> []"
    using toy_pem_roundtrip demo_session_key(1) by (auto simp: pem_roundtrip_def)
  have "decrypt_combined_with toy_crypto (PStr (demo_sealed plain)) (s_private_key demo_session) = Inr plain"
    unfolding demo_sealed_def using pem toy_oaep_inverse toy_gcm_inverse
    by (intro decrypt_combined_sealed) (simp_all add: demo_aes_def demo_nonce_def toy_crypto_def)
  with pem(2) demo_session_key(2) show ?thesis
    by (cases "s_private_key demo_session") (auto simp: decrypt_combined_hybrid_data_def with_private_key_def
        get_private_key_PStr catch_encode_def demo_manager_sessions)
qed

theorem decrypt_combined_roundtrip_witness:
  "decrypt_combined_hybrid_data toy_crypto (\<lambda>_. True) 3000 (PStr (demo_sealed [1, 2, 3])) (PStr demo_sid) demo_manager
     = (Inr (True, [1, 2, 3]), demo_manager)"
  unfolding demo_sealed_def
  by (rule decrypt_combined_roundtrip [OF toy_pem_roundtrip toy_oaep_inverse toy_gcm_inverse _ demo_session_key(2,1)])
    (simp_all add: demo_manager_sessions demo_aes_def demo_nonce_def toy_crypto_def)

theorem decrypt_combined_authenticated_witness:
  "\<exists>sid s. PStr demo_sid = PStr sid \<and> dget (active_sessions demo_manager) sid = Some s \<and> is_session_valid 3000 s"
  using decrypt_combined_authenticated [OF demo_decrypt [of "\<lambda>_. True" "[1, 2, 3]"]] by blast

lemma toy_ascii_errors: "ascii_errors toy_crypto"
  by (auto simp: ascii_errors_def toy_crypto_def toy_load_def toy_oaep_decrypt_def toy_gcm_decrypt_def Let_def
      split: list.splits if_splits)


end
