(* ===== verification/Kms_Attestation.thy ===== *)
theory Kms_Attestation
  imports Py_Process Config Decrypt_Service
begin

text \<open>
  \<^verbatim>\<open>implementations/kms_attestation_impl.py\<close>, which shells out to \<^verbatim>\<open>kmstool_enclave_cli\<close>, and \<^verbatim>\<open>create_kms_attestation\<close> of \<^verbatim>\<open>main.py\<close>.
  The tool is the argument \<open>run\<close>. The text of a \<^verbatim>\<open>JSONDecodeError\<close> is the argument \<open>json_err\<close> of the text that was parsed.
\<close>

section \<open>State\<close>

record kms =
  kms_key_id :: pystr
  kms_region :: pystr
  kms_proxy_port :: int
  kmstool_path :: pystr
  kms_enabled :: bool

definition check_availability :: "(pystr \<Rightarrow> bool) \<Rightarrow> pystr \<Rightarrow> pystr \<Rightarrow> bool" where
  "check_availability exists tool key_id = (if \<not> exists tool then False else if key_id = [] then False else True)"

definition init_kms :: "config \<Rightarrow> pystr dict \<Rightarrow> (pystr \<Rightarrow> bool) \<Rightarrow> pystr option \<Rightarrow> kms" where
  "init_kms cfg env exists key =
     (let key_id = (case key of Some (ch # cs) \<Rightarrow> ch # cs | _ \<Rightarrow> getenv env ''AWS_KMS_KEY_ARN'' [])
      in \<lparr>kms_key_id = key_id, kms_region = KMS_REGION cfg, kms_proxy_port = KMS_PROXY_PORT cfg, kmstool_path = KMSTOOL_PATH cfg,
          kms_enabled = check_availability exists (KMSTOOL_PATH cfg) key_id\<rparr>)"

definition create_kms_attestation :: "config \<Rightarrow> pystr dict \<Rightarrow> (pystr \<Rightarrow> bool) \<Rightarrow> kms option" where
  "create_kms_attestation cfg env exists =
     (if \<not> ENABLE_KMS_ATTESTATION cfg then None
      else case dget env (lit ''AWS_KMS_KEY_ARN'') of
             Some (ch # cs) \<Rightarrow>
               (let k = init_kms cfg env exists (Some (ch # cs)) in if kms_enabled k then Some k else None)
           | _ \<Rightarrow> None)"

definition kms_get_status :: "(pystr \<Rightarrow> bool) \<Rightarrow> kms \<Rightarrow> pyval" where
  "kms_get_status exists k =
     PDict [(lit ''enabled'', PBool (kms_enabled k)),
       (lit ''kms_key_id'', if kms_key_id k \<noteq> [] then PStr (take 20 (kms_key_id k) @ lit ''...'') else PNone),
       (lit ''region'', PStr (kms_region k)), (lit ''proxy_port'', PInt (kms_proxy_port k)),
       (lit ''kmstool_path'', PStr (kmstool_path k)), (lit ''kmstool_exists'', PBool (exists (kmstool_path k)))]"

section \<open>Commands\<close>

definition context_args :: "pystr dict option \<Rightarrow> pystr list" where
  "context_args ctx = (case ctx of None \<Rightarrow> []
     | Some d \<Rightarrow> concat (map (\<lambda>(key, value). [lit ''--encryption-context'', key @ [61] @ value]) d))"

definition region_args :: "kms \<Rightarrow> pystr list" where
  "region_args k = [lit ''--region'', kms_region k, lit ''--proxy-port'', show_int (kms_proxy_port k)]"

definition decrypt_cmd :: "kms \<Rightarrow> bytes \<Rightarrow> pystr dict option \<Rightarrow> pystr list" where
  "decrypt_cmd k key ctx = [kmstool_path k, lit ''decrypt''] @ region_args k @ [lit ''--ciphertext'', b64encode key] @ context_args ctx"

definition encrypt_cmd :: "kms \<Rightarrow> bytes \<Rightarrow> pystr dict option \<Rightarrow> pystr list" where
  "encrypt_cmd k key ctx = [kmstool_path k, lit ''encrypt''] @ region_args k
     @ [lit ''--key-id'', kms_key_id k, lit ''--plaintext'', b64encode key] @ context_args ctx"

definition genkey_cmd :: "kms \<Rightarrow> pystr \<Rightarrow> pystr dict option \<Rightarrow> pystr list" where
  "genkey_cmd k key_spec ctx = [kmstool_path k, lit ''genkey''] @ region_args k
     @ [lit ''--key-id'', kms_key_id k, lit ''--key-spec'', key_spec] @ context_args ctx"

definition attestation_cmd :: "kms \<Rightarrow> pystr list" where
  "attestation_cmd k = [kmstool_path k, lit ''attestation-document'']"

section \<open>Operations\<close>

text \<open>The part every operation shares: run the tool; \<open>Inl\<close> is an exception, \<open>Inr (Inl msg)\<close> the error text of a failed
  command, \<open>Inr (Inr out)\<close> its standard output.\<close>

definition run_kmstool :: "runner \<Rightarrow> pystr list \<Rightarrow> (bytes + bytes) res" where
  "run_kmstool run cmd =
     (case run cmd None 30 of
        ProcRaises e \<Rightarrow> Inl e
      | ProcDone code stdout stderr \<Rightarrow>
          (if code \<noteq> 0
           then rbind (if stderr \<noteq> [] then py_decode stderr else Inr (lit ''Unknown error'')) (\<lambda>error_msg.
                rbind (str_encode error_msg) (\<lambda>b. Inr (Inl b)))
           else Inr (Inr stdout)))"

text \<open>The handlers: a timeout has its own text, any other exception is encoded, which can raise again.\<close>

definition kms_catch :: "string \<Rightarrow> pyexn \<Rightarrow> bytes res" where
  "kms_catch timeout_msg e = (case e of Exn TimeoutExpired _ \<Rightarrow> str_encode (lit timeout_msg) | Exn _ msg \<Rightarrow> str_encode msg)"

definition not_enabled :: bytes where
  "not_enabled = map of_nat (lit ''KMS attestation not enabled'')"

definition kms_key_op :: "runner \<Rightarrow> kms \<Rightarrow> string \<Rightarrow> pystr list \<Rightarrow> dec_result" where
  "kms_key_op run k timeout_msg cmd =
     (if \<not> kms_enabled k then Inr (False, not_enabled)
      else case run_kmstool run cmd of
             Inr (Inl error_msg) \<Rightarrow> Inr (False, error_msg)
           | Inr (Inr stdout) \<Rightarrow>
               (case rbind (py_decode stdout) (\<lambda>s. b64decode (py_strip s)) of
                  Inr key \<Rightarrow> Inr (True, key)
                | Inl e \<Rightarrow> rbind (kms_catch timeout_msg e) (\<lambda>b. Inr (False, b)))
           | Inl e \<Rightarrow> rbind (kms_catch timeout_msg e) (\<lambda>b. Inr (False, b)))"

definition decrypt_data_key :: "runner \<Rightarrow> kms \<Rightarrow> bytes \<Rightarrow> pystr dict option \<Rightarrow> dec_result" where
  "decrypt_data_key run k encrypted_data_key ctx =
     kms_key_op run k ''KMS decrypt timeout'' (decrypt_cmd k encrypted_data_key ctx)"

definition encrypt_data_key :: "runner \<Rightarrow> kms \<Rightarrow> bytes \<Rightarrow> pystr dict option \<Rightarrow> dec_result" where
  "encrypt_data_key run k plaintext_key ctx =
     kms_key_op run k ''KMS encrypt timeout'' (encrypt_cmd k plaintext_key ctx)"

text \<open>\<^verbatim>\<open>output['name']\<close> on whatever the tool printed.\<close>

definition py_getitem :: "pyval \<Rightarrow> string \<Rightarrow> pyval res" where
  "py_getitem v name = (case v of
       PDict d \<Rightarrow> dict_item d (lit name)
     | PList _ \<Rightarrow> Inl (Exn TypeError (lit ''list indices must be integers or slices, not str''))
     | PStr _ \<Rightarrow> Inl (Exn TypeError (lit ''string indices must be integers''))
     | _ \<Rightarrow> Inl (Exn TypeError (quoted (type_name v) @ lit '' object is not subscriptable'')))"

definition parse_data_key :: "(pystr \<Rightarrow> pystr) \<Rightarrow> (pystr \<Rightarrow> pystr) \<Rightarrow> bytes \<Rightarrow> (bytes \<times> bytes) res" where
  "parse_data_key fr json_err stdout =
     rbind (py_decode stdout) (\<lambda>s.
     rbind (case json_loads fr s of Some v \<Rightarrow> Inr v | None \<Rightarrow> Inl (Exn JSONDecodeError (json_err s))) (\<lambda>out.
     rbind (py_getitem out ''Plaintext'') (\<lambda>p.
     rbind (b64decode_val p) (\<lambda>plaintext.
     rbind (py_getitem out ''CiphertextBlob'') (\<lambda>c.
     rbind (b64decode_val c) (\<lambda>ciphertext.
     Inr (plaintext, ciphertext)))))))"

definition generate_data_key ::
    "(pystr \<Rightarrow> pystr) \<Rightarrow> (pystr \<Rightarrow> pystr) \<Rightarrow> runner \<Rightarrow> kms \<Rightarrow> pystr \<Rightarrow> pystr dict option \<Rightarrow> (bool \<times> pyval dict) res" where
  "generate_data_key fr json_err run k key_spec ctx =
     (let failed = (\<lambda>b. Inr (False, [(lit ''error'', PBytes b)])) in
      if \<not> kms_enabled k then failed not_enabled
      else case run_kmstool run (genkey_cmd k key_spec ctx) of
             Inr (Inl error_msg) \<Rightarrow> failed error_msg
           | Inr (Inr stdout) \<Rightarrow>
               (case parse_data_key fr json_err stdout of
                  Inr (plaintext, ciphertext) \<Rightarrow>
                    Inr (True, [(lit ''plaintext'', PBytes plaintext), (lit ''ciphertext'', PBytes ciphertext)])
                | Inl e \<Rightarrow> rbind (kms_catch ''KMS generate key timeout'' e) failed)
           | Inl e \<Rightarrow> rbind (kms_catch ''KMS generate key timeout'' e) failed)"

definition get_attestation_document :: "runner \<Rightarrow> kms \<Rightarrow> dec_result" where
  "get_attestation_document run k =
     (if \<not> kms_enabled k then Inr (False, not_enabled)
      else case run_kmstool run (attestation_cmd k) of
             Inr (Inl error_msg) \<Rightarrow> Inr (False, error_msg)
           | Inr (Inr stdout) \<Rightarrow> Inr (True, stdout)
           | Inl e \<Rightarrow> rbind (kms_catch ''Attestation timeout'' e) (\<lambda>b. Inr (False, b)))"

section \<open>Keys survive the trip through the tool\<close>

text \<open>A tool that behaves as documented: \<^verbatim>\<open>encrypt\<close> prints the Base64 text of a ciphertext and a newline, \<^verbatim>\<open>decrypt\<close> that of the plaintext.\<close>

definition kmstool_ok :: "runner \<Rightarrow> kms \<Rightarrow> pystr dict option \<Rightarrow> (bytes \<Rightarrow> bytes) \<Rightarrow> bool" where
  "kmstool_ok run k ctx enc \<longleftrightarrow>
     (\<forall>p t. \<exists>e e'. run (encrypt_cmd k p ctx) None t = ProcDone 0 (map of_nat (b64encode (enc p)) @ [10]) e
        \<and> run (decrypt_cmd k (enc p) ctx) None t = ProcDone 0 (map of_nat (b64encode p) @ [10]) e')"

lemma b64_not_space: "c \<in> set (b64encode bs) \<Longrightarrow> \<not> is_py_space c"
proof -
  have "43 \<le> b64_char n" if "n < 64" for n using b64_char_ascii [OF that] by simp
  then have "\<forall>c \<in> set (b64encode bs). 43 \<le> c"
    by (induction bs rule: b64encode.induct) (auto simp: Let_def byte_div_mod_less)
  then show "c \<in> set (b64encode bs) \<Longrightarrow> \<not> is_py_space c" using b64encode_ascii [of bs] by (fastforce simp: is_py_space_def)
qed

lemma kms_key_op_prints:
  assumes "kms_enabled k" "run cmd None 30 = ProcDone 0 (map of_nat (b64encode key) @ [10]) e"
  shows "kms_key_op run k msg cmd = Inr (True, key)"
proof -
  let ?s = "b64encode key @ [10]"
  have a: "c < 128" if "c \<in> set ?s" for c using that b64encode_ascii [of key] by fastforce
  have "str_encode ?s = Inr (map of_nat (b64encode key) @ [10])" using str_encode_ascii [of ?s] a by simp
  moreover have "list_all (\<lambda>c. c < 0x110000) ?s" using a by (fastforce simp: list_all_iff)
  ultimately have d: "py_decode (map of_nat (b64encode key) @ [10]) = Inr ?s" by (intro py_decode_encode')
  have "dropWhile is_py_space (b64encode key @ [10]) = (if b64encode key = [] then [] else b64encode key @ [10])"
    using b64_not_space [of _ key] by (cases "b64encode key") (auto simp: is_py_space_def)
  moreover have "dropWhile is_py_space (rev (b64encode key)) = rev (b64encode key)"
    using b64_not_space [of _ key] by (intro dropWhile_none) simp
  ultimately have "py_strip ?s = b64encode key" by (simp add: py_strip_def is_py_space_def)
  with d show ?thesis using assms by (simp add: kms_key_op_def run_kmstool_def b64decode_b64encode)
qed


text \<open>The service is created only when it can work: \<^verbatim>\<open>create_kms_attestation\<close> returns a service exactly when the flag is on, a key is
  configured and the tool is installed, and a service that is not enabled never runs the tool: its answers do not depend on
  what the tool would do.\<close>

theorem kms_gate:
  shows "(create_kms_attestation cfg env exists \<noteq> None \<longleftrightarrow>
      ENABLE_KMS_ATTESTATION cfg \<and> dget env (lit ''AWS_KMS_KEY_ARN'') \<notin> {None, Some []} \<and> exists (KMSTOOL_PATH cfg))
    \<and> (kms_enabled k \<or> (decrypt_data_key run k key ctx = Inr (False, not_enabled)
      \<and> encrypt_data_key run k key ctx = Inr (False, not_enabled)
      \<and> get_attestation_document run k = Inr (False, not_enabled)
      \<and> generate_data_key fr je run k spec ctx = Inr (False, [(lit ''error'', PBytes not_enabled)])))"
  by (auto simp: create_kms_attestation_def init_kms_def check_availability_def Let_def decrypt_data_key_def encrypt_data_key_def
      kms_key_op_def get_attestation_document_def generate_data_key_def split: option.splits list.splits)

section \<open>A concrete tool\<close>

definition demo_kms :: kms where
  "demo_kms = \<lparr>kms_key_id = lit ''key'', kms_region = lit ''r'', kms_proxy_port = 8000, kmstool_path = lit ''kmstool'', kms_enabled = True\<rparr>"

text \<open>A tool whose ciphertexts are the plaintexts.\<close>

definition toy_kmstool :: runner where
  "toy_kmstool cmd input timeout = ProcDone 0 (map of_nat (last cmd) @ [10]) []"


end
