(* ===== verification/Request_Handler.thy ===== *)
theory Request_Handler
  imports Execute_Service Nitro_Attestation Tdx_Attestation Kms_Attestation
begin

text \<open>
  \<^verbatim>\<open>implementations/request_handler_impl.py\<close>: one function per handler, from the text of a request to the response
  dictionary and the new state of the enclave. A request is an arbitrary JSON value. The attestation back end is the record \<open>att_service\<close>, with
  the three members of the interface the handlers use. What a request draws from outside (clocks, randomness, measured
  durations) is the record \<open>handler_inputs\<close>; its field \<open>hi_others\<close> lists the critical sections of the session store that
  other threads execute just before the n-th one of this request, so every theorem holds under all interleavings of
  threads on the store.
\<close>

section \<open>Environment and state\<close>

record att_service =
  as_generate :: "bytes \<Rightarrow> pyval \<Rightarrow> ca_dir \<Rightarrow> (bool \<times> pyval dict) \<times> ca_dir"
    \<comment> \<open>\<^verbatim>\<open>generate_attestation(user_data=..., nonce=...)\<close>\<close>
  as_execution :: "exec_args \<Rightarrow> ca_dir \<Rightarrow> (bool \<times> pyval dict) res \<times> ca_dir"
    \<comment> \<open>\<^verbatim>\<open>create_execution_attestation\<close> with the seven keyword arguments of the handler\<close>
  as_real :: bool
    \<comment> \<open>\<^verbatim>\<open>is_real_enclave\<close>\<close>

record 'key handler_env =
  he_crypto :: "'key crypto"
  he_cfg :: config
  he_pr :: "nat \<Rightarrow> bool"
  he_fr :: "pystr \<Rightarrow> pystr"
  he_exec :: exec_env
  he_att :: att_service
  he_kms :: "kms option"
  he_nsm_exists :: bool

record enclave =
  en_manager :: manager
  en_executor :: executor
  en_ca :: ca_dir

record handler_inputs =
  hi_gen :: gen_inputs
  hi_now :: "nat \<Rightarrow> time"
  hi_bundle :: bundle_inputs
  hi_time :: time
  hi_urandom :: bytes
  hi_ms :: "nat \<Rightarrow> pystr"
  hi_others :: "nat \<Rightarrow> km_op list"

definition init_enclave :: "config \<Rightarrow> ca_dir \<Rightarrow> enclave" where
  "init_enclave cfg d = \<lparr>en_manager = init_manager cfg, en_executor = init_executor, en_ca = d\<rparr>"

definition interfere :: "'key handler_env \<Rightarrow> handler_inputs \<Rightarrow> nat \<Rightarrow> enclave \<Rightarrow> manager" where
  "interfere env i n en = fold (km_exec (he_crypto env) (he_cfg env) (he_pr env)) (hi_others i n) (en_manager en)"

section \<open>Small handlers\<close>

definition error_response :: "pystr \<Rightarrow> pyval dict" where
  "error_response message = [(lit ''success'', PBool False), (lit ''error'', PStr message)]"

definition parse_request :: "(pystr \<Rightarrow> pystr) \<Rightarrow> pystr \<Rightarrow> pyval" where
  "parse_request fr request_data = (case json_loads fr request_data of Some v \<Rightarrow> v | None \<Rightarrow> PNone)"

definition has_field :: "pyval dict \<Rightarrow> string \<Rightarrow> bool" where
  "has_field request k \<longleftrightarrow> dget request (lit k) \<noteq> None"

definition missing :: "string \<Rightarrow> pystr" where
  "missing field = lit ''Missing required field: '' @ lit field"

definition validate_request :: "pyval dict \<Rightarrow> pystr option" where
  "validate_request request =
     (let operation = dget_or PNone request (lit ''operation'') in
      if \<not> truthy operation then Some (missing ''operation'')
      else if operation = pstr ''generate_rsa_keypair''
      then if \<not> has_field request ''job_id'' then Some (missing ''job_id'') else None
      else if operation = pstr ''execute_script_rsa_hybrid''
      then if \<not> has_field request ''session_id'' then Some (missing ''session_id'')
           else if \<not> has_field request ''encrypted_data'' then Some (missing ''encrypted_data'') else None
      else if operation = pstr ''get_attestation_for_proxy''
      then if \<not> has_field request ''job_id'' then Some (missing ''job_id'') else None
      else if operation = pstr ''get_attestation''
      then if \<not> has_field request ''session_id'' then Some (missing ''session_id'')
           else if has_field request ''user_data''
           then Some (lit ''user_data is not accepted: the enclave attests only its own session key'') else None
      else None)"

definition active :: pyval where
  "active = pstr ''active''"

definition kms_status :: "'key handler_env \<Rightarrow> pyval" where
  "kms_status env = (if he_kms env \<noteq> None then active else pstr ''disabled'')"

definition get_health_status :: "'key handler_env \<Rightarrow> pyval dict" where
  "get_health_status env =
     [(lit ''success'', PBool True), (lit ''data'', PDict [(lit ''status'', pstr ''healthy''),
        (lit ''services'', PDict [(lit ''decrypt_service'', active), (lit ''execute_service'', active),
           (lit ''keypair_manager'', active), (lit ''kms_attestation'', kms_status env)])])]"

definition get_enclave_info :: "'key handler_env \<Rightarrow> pyval dict" where
  "get_enclave_info env =
     [(lit ''success'', PBool True), (lit ''enclave_info'', PDict [
        (lit ''is_nitro_enclave'', PBool (as_real (he_att env))), (lit ''nsm_available'', PBool (he_nsm_exists env)),
        (lit ''attestation_supported'', PBool (as_real (he_att env))),
        (lit ''services'', PDict [(lit ''decrypt_service'', active), (lit ''execute_service'', active), (lit ''keypair_manager'', active),
           (lit ''attestation_service'', active), (lit ''kms_attestation'', kms_status env)]),
        (lit ''pcr_info'', PStr (lit ''PCR values are included in attestation documents. ''
           @ lit ''Compare with published enclave image hash to verify code integrity.''))])]"

text \<open>The call on the KMS service names a method that the service does not have.\<close>

definition handle_attestation :: "'key handler_env \<Rightarrow> pyval dict \<Rightarrow> pyval dict" where
  "handle_attestation env request =
     (if he_kms env = None then error_response (lit ''KMS attestation not available'')
      else case dict_item request (lit ''credentials'') of
             Inl e \<Rightarrow> error_response (lit ''Attestation error: '' @ exn_str e)
           | Inr credentials \<Rightarrow> error_response (lit ''Attestation error: '' @ quoted (lit ''KMSAttestationService'')
                @ lit '' object has no attribute '' @ quoted (lit ''attest_enclave'')))"

section \<open>Sessions\<close>

definition opt_str :: "pystr option \<Rightarrow> pyval" where
  "opt_str s = (case s of Some t \<Rightarrow> PStr t | None \<Rightarrow> PNone)"

definition lookup_public :: "'key handler_env \<Rightarrow> handler_inputs \<Rightarrow> nat \<Rightarrow> pyval \<Rightarrow> enclave \<Rightarrow> pystr option \<times> enclave" where
  "lookup_public env i n session_id en =
     (case Keypair_Manager.get_public_key (he_crypto env) (lit ''PEM'') (hi_now i n) session_id (interfere env i n en) of
        (pk, m) \<Rightarrow> (pk, en\<lparr>en_manager := m\<rparr>))"

definition new_keypair ::
    "'key handler_env \<Rightarrow> handler_inputs \<Rightarrow> nat \<Rightarrow> pyval \<Rightarrow> pyval \<Rightarrow> enclave \<Rightarrow> (bool \<times> pystr) \<times> enclave" where
  "new_keypair env i n job_id key_size en =
     (case Keypair_Manager.generate_keypair (he_crypto env) (he_cfg env) (he_pr env) (hi_gen i) job_id key_size (interfere env i n en) of
        (r, m) \<Rightarrow> (r, en\<lparr>en_manager := m\<rparr>))"

definition handle_generate_keypair :: "'key handler_env \<Rightarrow> handler_inputs \<Rightarrow> pyval dict \<Rightarrow> enclave \<Rightarrow> pyval dict \<times> enclave" where
  "handle_generate_keypair env i request en =
     (case dict_item request (lit ''job_id'') of
        Inl e \<Rightarrow> (error_response (lit ''Keypair generation error: '' @ exn_str e), en)
      | Inr job_id \<Rightarrow>
          (let key_size = dget_or (PInt 2048) request (lit ''key_size'') in
           case new_keypair env i 0 job_id key_size en of
             ((False, msg), en1) \<Rightarrow> (error_response (lit ''Keypair generation failed: '' @ msg), en1)
           | ((True, session_id), en1) \<Rightarrow>
               (case lookup_public env i 1 (PStr session_id) en1 of
                  (public_key, en2) \<Rightarrow>
                    ([(lit ''success'', PBool True), (lit ''session_id'', PStr session_id), (lit ''public_key'', opt_str public_key),
                      (lit ''job_id'', job_id), (lit ''key_size'', key_size)], en2))))"

definition create_session :: "'key handler_env \<Rightarrow> handler_inputs \<Rightarrow> pyval \<Rightarrow> enclave \<Rightarrow> pyval dict \<times> enclave" where
  "create_session env i job_id en = handle_generate_keypair env i [(lit ''job_id'', job_id)] en"

definition get_session :: "'key handler_env \<Rightarrow> handler_inputs \<Rightarrow> pyval \<Rightarrow> enclave \<Rightarrow> pyval dict option \<times> enclave" where
  "get_session env i session_id en =
     (case lookup_public env i 0 session_id en of
        (None, en1) \<Rightarrow> (None, en1)
      | (Some public_key, en1) \<Rightarrow> (Some [(lit ''session_id'', session_id), (lit ''public_key'', PStr public_key)], en1))"

definition cleanup_session :: "'key handler_env \<Rightarrow> handler_inputs \<Rightarrow> nat \<Rightarrow> pyval \<Rightarrow> enclave \<Rightarrow> bool \<times> enclave" where
  "cleanup_session env i n session_id en =
     (case delete_keypair session_id (interfere env i n en) of (b, m) \<Rightarrow> (b, en\<lparr>en_manager := m\<rparr>))"

section \<open>Attestation of session keys\<close>

text \<open>\<^verbatim>\<open>if nonce: nonce = nonce.encode() if isinstance(nonce, str) else nonce\<close>.\<close>

definition request_nonce :: "pyval dict \<Rightarrow> pyval res" where
  "request_nonce request =
     (let nonce = dget_or PNone request (lit ''nonce'') in
      case nonce of PStr (ch # cs) \<Rightarrow> rbind (str_encode (ch # cs)) (\<lambda>b. Inr (PBytes b)) | _ \<Rightarrow> Inr nonce)"

definition session_user_data :: "pystr \<Rightarrow> pyval \<Rightarrow> bytes res" where
  "session_user_data public_key session_id =
     rbind (json_dumps False False (PDict [(lit ''public_key'', PStr public_key), (lit ''session_id'', session_id)])) str_encode"

definition handle_get_attestation :: "'key handler_env \<Rightarrow> handler_inputs \<Rightarrow> pyval dict \<Rightarrow> enclave \<Rightarrow> pyval dict \<times> enclave" where
  "handle_get_attestation env i request en =
     (let failed = (\<lambda>e. error_response (lit ''Attestation error: '' @ exn_str e)) in
      case dict_item request (lit ''session_id'') of
        Inl e \<Rightarrow> (failed e, en)
      | Inr session_id \<Rightarrow>
          (case lookup_public env i 0 session_id en of
             (Some (ch # cs), en1) \<Rightarrow>
               (case rbind (session_user_data (ch # cs) session_id) (\<lambda>u. rbind (request_nonce request) (\<lambda>n. Inr (u, n))) of
                  Inl e \<Rightarrow> (failed e, en1)
                | Inr (user_data, nonce) \<Rightarrow>
                    (case as_generate (he_att env) user_data nonce (en_ca en1) of
                       ((ok, attestation), d) \<Rightarrow>
                         ([(lit ''success'', PBool ok), (lit ''attestation'', if ok then PDict attestation else PNone),
                           (lit ''error'', if ok then PNone else dget_or PNone attestation (lit ''error'')),
                           (lit ''is_real_enclave'', PBool (as_real (he_att env)))], en1\<lparr>en_ca := d\<rparr>)))
           | (_, en1) \<Rightarrow> (error_response (lit ''Unknown session: '' @ py_str (he_pr env) session_id), en1)))"

definition verification_steps :: pyval where
  "verification_steps = PList (map PStr [lit ''1. Base64-decode the attestation document'',
     lit ''2. Parse CBOR and verify COSE_Sign1 signature against AWS Nitro root cert'',
     lit ''3. Extract user_data from the verified attestation'',
     lit ''4. Compute SHA-256 hash of the received public_key'',
     lit ''5. Compare the hash with user_data '' @ [0x2014] @ lit '' they must match'',
     lit ''6. If match: the public key was generated inside a genuine Nitro enclave''])"

definition handle_attestation_for_proxy ::
    "'key handler_env \<Rightarrow> handler_inputs \<Rightarrow> pyval dict \<Rightarrow> enclave \<Rightarrow> pyval dict \<times> enclave" where
  "handle_attestation_for_proxy env i request en =
     (let failed = (\<lambda>e. error_response (lit ''Proxy attestation error: '' @ exn_str e)) in
      case dict_item request (lit ''job_id'') of
        Inl e \<Rightarrow> (failed e, en)
      | Inr job_id \<Rightarrow>
          (let key_size = dget_or (PInt 2048) request (lit ''key_size'') in
           case new_keypair env i 0 job_id key_size en of
             ((False, msg), en1) \<Rightarrow> (error_response (lit ''Keypair generation failed: '' @ msg), en1)
           | ((True, session_id), en1) \<Rightarrow>
               (case lookup_public env i 1 (PStr session_id) en1 of
                  (Some (ch # cs), en2) \<Rightarrow>
                    (case rbind (str_encode (ch # cs)) (\<lambda>k. rbind (request_nonce request) (\<lambda>n. Inr (sha256 k, n))) of
                       Inl e \<Rightarrow> (failed e, en2)
                     | Inr (public_key_hash, nonce) \<Rightarrow>
                         (case as_generate (he_att env) public_key_hash nonce (en_ca en2) of
                            ((ok, attestation), d) \<Rightarrow>
                              ([(lit ''success'', PBool True), (lit ''session_id'', PStr session_id),
                                (lit ''public_key'', PStr (ch # cs)), (lit ''public_key_hash'', PStr (b64encode public_key_hash)),
                                (lit ''job_id'', job_id), (lit ''key_size'', key_size),
                                (lit ''attestation'', if ok then PDict attestation else PNone),
                                (lit ''attestation_available'', PBool ok),
                                (lit ''is_real_enclave'', PBool (as_real (he_att env))),
                                (lit ''timings'', PDict [(lit ''keypair_generation_ms'', PFloat (hi_ms i 0)),
                                   (lit ''user_data_build_ms'', PFloat (hi_ms i 1)), (lit ''nsm_attestation_ms'', PFloat (hi_ms i 2)),
                                   (lit ''total_ms'', PFloat (hi_ms i 3))]),
                                (lit ''verification_steps'', verification_steps)], en2\<lparr>en_ca := d\<rparr>)))
                | (_, en2) \<Rightarrow> (error_response (lit ''Failed to retrieve generated public key''), en2))))"

section \<open>Executing an encrypted bundle\<close>

text \<open>A stage yields its value, or the message of the error response that ends the request.\<close>

type_synonym 'a stage = "(pystr + 'a) \<times> enclave"

definition exec_error :: "pyexn \<Rightarrow> pystr" where
  "exec_error e = lit ''Execution error: '' @ exn_str e"

definition lift_res :: "'a res \<Rightarrow> pystr + 'a" where
  "lift_res r = (case r of Inl e \<Rightarrow> Inl (exec_error e) | Inr v \<Rightarrow> Inr v)"

text \<open>The fields of the request, and the lengths that the log lines evaluate.\<close>

definition execute_fields :: "pyval dict \<Rightarrow> (pyval \<times> pyval \<times> pyval) res" where
  "execute_fields request =
     rbind (dict_item request (lit ''session_id'')) (\<lambda>session_id.
     rbind (dict_item request (lit ''encrypted_data'')) (\<lambda>encrypted_data.
     let encrypted_csv = dget_or PNone request (lit ''encrypted_csv'') in
     rbind (py_len encrypted_data) (\<lambda>_.
     rbind (if truthy encrypted_csv then py_len encrypted_csv else Inr 0) (\<lambda>_.
     Inr (session_id, encrypted_data, encrypted_csv)))))"

definition decrypt_payload ::
    "'key handler_env \<Rightarrow> handler_inputs \<Rightarrow> nat \<Rightarrow> string \<Rightarrow> pyval \<Rightarrow> pyval \<Rightarrow> enclave \<Rightarrow> bytes stage" where
  "decrypt_payload env i n what data session_id en =
     (case decrypt_combined_hybrid_data (he_crypto env) (he_pr env) (hi_now i n) data session_id (interfere env i n en) of
        (r, m) \<Rightarrow>
          (case r of
             Inl e \<Rightarrow> Inl (exec_error e)
           | Inr (True, plain) \<Rightarrow> Inr plain
           | Inr (False, msg) \<Rightarrow>
               (case py_decode msg of
                  Inr t \<Rightarrow> Inl (lit what @ lit '' decryption failed: '' @ t) | Inl e \<Rightarrow> Inl (exec_error e)),
           en\<lparr>en_manager := m\<rparr>))"

definition decrypt_csv ::
    "'key handler_env \<Rightarrow> handler_inputs \<Rightarrow> pyval \<Rightarrow> pyval \<Rightarrow> enclave \<Rightarrow> bytes option stage" where
  "decrypt_csv env i encrypted_csv session_id en =
     (if truthy encrypted_csv
      then case decrypt_payload env i 1 ''CSV'' encrypted_csv session_id en of
             (Inl msg, en1) \<Rightarrow> (Inl msg, en1) | (Inr plain, en1) \<Rightarrow> (Inr (Some plain), en1)
      else (Inr None, en))"

definition atl_nonce :: "pyval dict \<Rightarrow> bytes option res" where
  "atl_nonce request =
     (let v = dget_or PNone request (lit ''atl_nonce'') in
      if \<not> truthy v then Inr None
      else case v of
             PStr s \<Rightarrow> rbind (bytes_fromhex s) (\<lambda>b. Inr (Some b))
           | _ \<Rightarrow> Inl (Exn TypeError (lit ''fromhex() argument must be str, not '' @ type_name v)))"

definition execution_args ::
    "handler_inputs \<Rightarrow> pyval dict \<Rightarrow> pyval \<Rightarrow> pystr \<Rightarrow> bytes \<Rightarrow> bytes option \<Rightarrow> bytes option \<Rightarrow> pystr \<Rightarrow> exec_args" where
  "execution_args i request session_id output_text bundle csv external_nonce manifest_sha256 =
     \<lparr>ea_job_id = session_id, ea_output = output_text, ea_script_bytes = Some bundle, ea_dataset_bytes = csv,
      ea_external_nonce = external_nonce, ea_context_hash = dget_or PNone request (lit ''atl_context_hash''),
      ea_files_manifest_sha256 = Some manifest_sha256, ea_time = hi_time i, ea_urandom = hi_urandom i\<rparr>"

definition response_file :: "out_file \<Rightarrow> pyval" where
  "response_file f = PDict [(lit ''name'', PStr (of_name f)), (lit ''size'', PInt (int (of_size f))), (lit ''sha256'', PStr (of_sha256 f)),
     (lit ''type'', PStr (of_type f)), (lit ''content_b64'', PStr (b64encode (of_content f)))]"

definition execution_response ::
    "'key handler_env \<Rightarrow> handler_inputs \<Rightarrow> pyval \<Rightarrow> pystr \<Rightarrow> out_file list \<Rightarrow> pystr \<Rightarrow> bool \<Rightarrow> bool \<Rightarrow> pyval dict \<Rightarrow> pyval dict" where
  "execution_response env i session_id output_text files manifest_sha256 with_csv ok attestation =
     [(lit ''success'', PBool True), (lit ''output'', PStr output_text), (lit ''files'', PList (map response_file files)),
      (lit ''files_manifest_sha256'', PStr manifest_sha256), (lit ''session_id'', session_id),
      (lit ''enclave_proof'', PDict [(lit ''ran_in_enclave'', PBool (as_real (he_att env))), (lit ''attestation_available'', PBool ok)]),
      (lit ''timing'', PDict ([(lit ''decrypt_zip_ms'', PFloat (hi_ms i 0))]
         @ (if with_csv then [(lit ''decrypt_csv_ms'', PFloat (hi_ms i 1))] else [])
         @ [(lit ''script_execution_ms'', PFloat (hi_ms i 2)), (lit ''attestation_generation_ms'', PFloat (hi_ms i 3))]))]
     @ (if ok then [(lit ''attestation'', PDict attestation)] else [])"

definition attest_execution ::
    "'key handler_env \<Rightarrow> handler_inputs \<Rightarrow> pyval dict \<Rightarrow> pyval \<Rightarrow> bytes \<Rightarrow> bytes option \<Rightarrow> bool \<Rightarrow> pystr \<Rightarrow> out_file list \<Rightarrow> enclave
       \<Rightarrow> pyval dict stage" where
  "attest_execution env i request session_id bundle csv with_csv output_text files en =
     (case rbind (atl_nonce request) (\<lambda>n. rbind (files_manifest_sha256 (build_files_manifest files)) (\<lambda>h. Inr (n, h))) of
        Inl e \<Rightarrow> (Inl (exec_error e), en)
      | Inr (external_nonce, manifest_sha256) \<Rightarrow>
          (case as_execution (he_att env) (execution_args i request session_id output_text bundle csv external_nonce manifest_sha256) (en_ca en) of
             (Inl e, d) \<Rightarrow> (Inl (exec_error e), en\<lparr>en_ca := d\<rparr>)
           | (Inr (ok, attestation), d) \<Rightarrow>
               (Inr (execution_response env i session_id output_text files manifest_sha256 with_csv ok attestation), en\<lparr>en_ca := d\<rparr>)))"

definition run_decrypted ::
    "'key handler_env \<Rightarrow> handler_inputs \<Rightarrow> pyval dict \<Rightarrow> pyval \<Rightarrow> bytes \<Rightarrow> bytes option \<Rightarrow> bool \<Rightarrow> enclave \<Rightarrow> pyval dict stage" where
  "run_decrypted env i request session_id bundle csv with_csv en =
     (case execute_bundle (he_exec env) (he_cfg env) (he_pr env) (hi_bundle i) bundle session_id None csv (en_executor en) of
        ((ok, output_text, files), x) \<Rightarrow>
          (case cleanup_session env i 2 session_id (en\<lparr>en_executor := x\<rparr>) of
             (_, en1) \<Rightarrow>
               (if ok then attest_execution env i request session_id bundle csv with_csv output_text files en1
                else (Inl (lit ''Execution failed: '' @ output_text), en1))))"

definition respond :: "pyval dict stage \<Rightarrow> pyval dict \<times> enclave" where
  "respond s = (case s of (Inl msg, en) \<Rightarrow> (error_response msg, en) | (Inr r, en) \<Rightarrow> (r, en))"

definition handle_execute :: "'key handler_env \<Rightarrow> handler_inputs \<Rightarrow> pyval dict \<Rightarrow> enclave \<Rightarrow> pyval dict \<times> enclave" where
  "handle_execute env i request en = respond
     (case execute_fields request of
        Inl e \<Rightarrow> (Inl (exec_error e), en)
      | Inr (session_id, encrypted_data, encrypted_csv) \<Rightarrow>
          (case decrypt_payload env i 0 ''ZIP'' encrypted_data session_id en of
             (Inl msg, en1) \<Rightarrow> (Inl msg, en1)
           | (Inr bundle, en1) \<Rightarrow>
               (case decrypt_csv env i encrypted_csv session_id en1 of
                  (Inl msg, en2) \<Rightarrow> (Inl msg, en2)
                | (Inr csv, en2) \<Rightarrow> run_decrypted env i request session_id bundle csv (truthy encrypted_csv) en2)))"

definition handle_execution :: "'key handler_env \<Rightarrow> handler_inputs \<Rightarrow> pyval dict \<Rightarrow> enclave \<Rightarrow> pyval dict \<times> enclave" where
  "handle_execution env i request en = handle_execute env i request en"

section \<open>handle_request\<close>

definition dispatch :: "'key handler_env \<Rightarrow> handler_inputs \<Rightarrow> pyval dict \<Rightarrow> enclave \<Rightarrow> pyval dict \<times> enclave" where
  "dispatch env i request en =
     (let operation = dget_or PNone request (lit ''operation'') in
      if operation = pstr ''generate_rsa_keypair'' then handle_generate_keypair env i request en
      else if operation = pstr ''execute_script_rsa_hybrid'' then handle_execute env i request en
      else if operation = pstr ''health_check''
      then ([(lit ''success'', PBool True), (lit ''message'', pstr ''Enclave healthy'')], en)
      else if operation = pstr ''get_attestation'' then handle_get_attestation env i request en
      else if operation = pstr ''get_attestation_for_proxy'' then handle_attestation_for_proxy env i request en
      else if operation = pstr ''get_enclave_info'' then (get_enclave_info env, en)
      else (error_response (lit ''Unknown operation: '' @ py_str (he_pr env) operation), en))"

definition handle_request :: "'key handler_env \<Rightarrow> handler_inputs \<Rightarrow> pystr \<Rightarrow> enclave \<Rightarrow> pyval dict \<times> enclave" where
  "handle_request env i request_data en =
     (case parse_request (he_fr env) request_data of
        PNone \<Rightarrow> (error_response (lit ''Invalid JSON request''), en)
      | PDict request \<Rightarrow>
          (case validate_request request of
             Some msg \<Rightarrow> (error_response msg, en)
           | None \<Rightarrow> dispatch env i request en)
      | v \<Rightarrow> (error_response (lit ''Server error: '' @ exn_str (no_attribute v ''get'')), en))"

end
