(* ===== verification/Handler_Properties.thy ===== *)
theory Handler_Properties
  imports Request_Handler
begin

text \<open>
  What the request handler guarantees, for every request text, every reading of clocks and randomness and every interleaving
  with other threads on the session store: how it moves the store, when it runs a script, when the session key is gone, what
  it lets the attestation service sign, and that its answer is always a JSON object with a verdict. What it needs of the
  attestation service for that is the locale \<open>plain_service\<close>.
\<close>

declare dict_item_eq_Inr [simp del]

section \<open>The session store moves by its own operations only\<close>

lemma km_reachable_fold:
  "km_reachable c cfg pr m \<Longrightarrow> km_reachable c cfg pr (fold (km_exec c cfg pr) ops m)"
  by (induction ops arbitrary: m) (auto intro: km_next)

abbreviation store_ok :: "'key handler_env \<Rightarrow> enclave \<Rightarrow> bool" where
  "store_ok env en \<equiv> km_reachable (he_crypto env) (he_cfg env) (he_pr env) (en_manager en)"

lemma interfere_ok: "store_ok env en \<Longrightarrow> km_reachable (he_crypto env) (he_cfg env) (he_pr env) (interfere env i n en)"
  unfolding interfere_def by (rule km_reachable_fold)

lemma snd_with_private_key: "snd (with_private_key pr now sid m f) = snd (get_private_key now sid m)"
  by (auto simp: with_private_key_def split: prod.splits option.splits list.splits sum.splits)

lemma lookup_public_ok:
  assumes "store_ok env en" shows "store_ok env (snd (lookup_public env i n sid en))"
  using km_next [OF interfere_ok [OF assms, of i n], of "OpGetPublic (lit ''PEM'') (hi_now i n) sid"]
  by (simp add: lookup_public_def case_prod_beta)

lemma new_keypair_ok:
  assumes "store_ok env en" shows "store_ok env (snd (new_keypair env i n j k en))"
  using km_next [OF interfere_ok [OF assms, of i n], of "OpGenerate (hi_gen i) j k"]
  by (simp add: new_keypair_def case_prod_beta)

lemma cleanup_session_ok:
  assumes "store_ok env en" shows "store_ok env (snd (cleanup_session env i n sid en))"
  using km_next [OF interfere_ok [OF assms, of i n], of "OpDelete sid"]
  by (simp add: cleanup_session_def case_prod_beta)

lemma decrypt_payload_ok:
  assumes "store_ok env en" shows "store_ok env (snd (decrypt_payload env i n what data sid en))"
proof -
  have "snd (decrypt_combined_hybrid_data (he_crypto env) (he_pr env) (hi_now i n) data sid m) = snd (get_private_key (hi_now i n) sid m)" for m
    by (simp add: decrypt_combined_hybrid_data_def snd_with_private_key)
  with km_next [OF interfere_ok [OF assms, of i n], of "OpGetPrivate (hi_now i n) sid"] show ?thesis
    by (simp add: decrypt_payload_def case_prod_beta)
qed

lemma decrypt_csv_ok:
  assumes "store_ok env en" shows "store_ok env (snd (decrypt_csv env i csv sid en))"
  using assms decrypt_payload_ok [OF assms, of i 1 "''CSV''" csv sid]
  by (auto simp: decrypt_csv_def split: prod.splits sum.splits)

lemma attest_execution_manager [simp]:
  "en_manager (snd (attest_execution env i request sid b csv w t fs en)) = en_manager en"
  "en_executor (snd (attest_execution env i request sid b csv w t fs en)) = en_executor en"
  by (auto simp: attest_execution_def split: sum.splits prod.splits)

lemma run_decrypted_ok:
  assumes "store_ok env en" shows "store_ok env (snd (run_decrypted env i request sid b csv w en))"
proof -
  obtain ok t fs x where x: "execute_bundle (he_exec env) (he_cfg env) (he_pr env) (hi_bundle i) b sid None csv (en_executor en) = ((ok, t, fs), x)"
    by (metis prod.exhaust)
  have "store_ok env (snd (cleanup_session env i 2 sid (en\<lparr>en_executor := x\<rparr>)))"
    by (rule cleanup_session_ok) (simp add: assms)
  then show ?thesis by (auto simp: run_decrypted_def x split: prod.splits)
qed

lemma snd_respond [simp]: "snd (respond s) = snd s"
  by (auto simp: respond_def split: prod.splits sum.splits)

lemma handle_execute_ok:
  assumes "store_ok env en" shows "store_ok env (snd (handle_execute env i request en))"
proof (cases "execute_fields request")
  case (Inl e)
  with assms show ?thesis by (simp add: handle_execute_def)
next
  case (Inr f)
  obtain sid data csv where f: "f = (sid, data, csv)" by (metis prod.exhaust)
  obtain r1 en1 where d: "decrypt_payload env i 0 ''ZIP'' data sid en = (r1, en1)" by fastforce
  have ok1: "store_ok env en1" using decrypt_payload_ok [OF assms, of i 0 "''ZIP''" data sid] d by simp
  obtain r2 en2 where c: "decrypt_csv env i csv sid en1 = (r2, en2)" by fastforce
  have ok2: "store_ok env en2" using decrypt_csv_ok [OF ok1, of i csv sid] c by simp
  show ?thesis
    by (cases r1; cases r2) (simp_all add: handle_execute_def Inr f d c ok1 ok2 run_decrypted_ok)
qed

lemma snd_handle_get_attestation:
  "en_manager (snd (handle_get_attestation env i request en)) =
     (case dict_item request (lit ''session_id'') of Inl e \<Rightarrow> en_manager en | Inr sid \<Rightarrow> en_manager (snd (lookup_public env i 0 sid en)))"
  "en_executor (snd (handle_get_attestation env i request en)) = en_executor en"
  by (auto simp: handle_get_attestation_def Let_def lookup_public_def
      split: sum.splits prod.splits option.splits list.splits)

lemma snd_handle_proxy:
  "en_manager (snd (handle_attestation_for_proxy env i request en)) = en_manager (snd (handle_generate_keypair env i request en))"
  "en_executor (snd (handle_attestation_for_proxy env i request en)) = en_executor en"
  "en_executor (snd (handle_generate_keypair env i request en)) = en_executor en"
  by (auto simp: handle_attestation_for_proxy_def handle_generate_keypair_def Let_def new_keypair_def lookup_public_def
      split: sum.splits prod.splits option.splits list.splits bool.splits)

lemma handle_generate_keypair_ok:
  assumes "store_ok env en" shows "store_ok env (snd (handle_generate_keypair env i request en))"
proof (cases "dict_item request (lit ''job_id'')")
  case (Inl e)
  with assms show ?thesis by (simp add: handle_generate_keypair_def)
next
  case (Inr j)
  let ?k = "dget_or (PInt 2048) request (lit ''key_size'')"
  obtain ok sid en1 where n: "new_keypair env i 0 j ?k en = ((ok, sid), en1)" by (metis prod.exhaust)
  have ok1: "store_ok env en1" using new_keypair_ok [OF assms, of i 0 j ?k] n by simp
  from lookup_public_ok [OF this, of i 1 "PStr sid"] ok1 show ?thesis
    by (cases ok) (simp_all add: handle_generate_keypair_def Inr n case_prod_beta)
qed

lemma dispatch_ok:
  assumes "store_ok env en" shows "store_ok env (snd (dispatch env i request en))"
  using assms handle_generate_keypair_ok [OF assms] handle_execute_ok [OF assms] lookup_public_ok [OF assms]
  by (simp add: dispatch_def Let_def snd_handle_get_attestation snd_handle_proxy split: sum.splits)

lemma handle_request_ok:
  assumes "store_ok env en" shows "store_ok env (snd (handle_request env i text en))"
  using assms dispatch_ok [OF assms] by (simp add: handle_request_def split: pyval.splits option.splits)

section \<open>Scripts and the executor\<close>

lemma execute_bundle_keys:
  assumes "distinct (dkeys (active_executions x))"
  shows "distinct (dkeys (active_executions (snd (execute_bundle env cfg pr i data sid sp csv x))))"
  using assms by (simp add: execute_bundle_def Let_def distinct_start_stop case_prod_beta split: sum.splits)

lemma stage_executor [simp]:
  "en_executor (snd (decrypt_payload env i n what data sid en)) = en_executor en"
  "en_ca (snd (decrypt_payload env i n what data sid en)) = en_ca en"
  "en_executor (snd (decrypt_csv env i csv sid en)) = en_executor en"
  "en_ca (snd (decrypt_csv env i csv sid en)) = en_ca en"
  "en_executor (snd (cleanup_session env i n sid en)) = en_executor en"
  "en_ca (snd (cleanup_session env i n sid en)) = en_ca en"
  by (auto simp: decrypt_csv_def decrypt_payload_def cleanup_session_def case_prod_beta split: sum.splits)

text \<open>The shape of every execution request: it ends before anything runs, or both payloads were decrypted and the rest of it is
  \<open>run_decrypted\<close>.\<close>

lemma handle_execute_cases:
  obtains (refused) msg where "fst (handle_execute env i request en) = error_response msg"
      "en_executor (snd (handle_execute env i request en)) = en_executor en"
      "en_ca (snd (handle_execute env i request en)) = en_ca en"
  | (runs) sid data csvv b csv en1 en2 where "execute_fields request = Inr (sid, data, csvv)"
      "decrypt_payload env i 0 ''ZIP'' data sid en = (Inr b, en1)" "decrypt_csv env i csvv sid en1 = (Inr csv, en2)"
      "handle_execute env i request en = respond (run_decrypted env i request sid b csv (truthy csvv) en2)"
proof (cases "execute_fields request")
  case (Inl e)
  with refused show thesis by (simp add: handle_execute_def respond_def)
next
  case (Inr f)
  obtain sid data csvv where f: "f = (sid, data, csvv)" by (metis prod.exhaust)
  obtain r1 en1 where d: "decrypt_payload env i 0 ''ZIP'' data sid en = (r1, en1)" by fastforce
  have e1: "en_executor en1 = en_executor en" "en_ca en1 = en_ca en"
    using stage_executor(1,2) [of env i 0 "''ZIP''" data sid en] by (simp_all add: d)
  obtain r2 en2 where c: "decrypt_csv env i csvv sid en1 = (r2, en2)" by fastforce
  have e2: "en_executor en2 = en_executor en1" "en_ca en2 = en_ca en1"
    using stage_executor(3,4) [of env i csvv sid en1] by (simp_all add: c)
  show thesis
  proof (cases r1)
    case (Inl msg)
    with refused e1 show thesis by (simp add: handle_execute_def respond_def Inr f d)
  next
    case b: (Inr b)
    show thesis
    proof (cases r2)
      case (Inl msg)
      with refused e1 e2 b show thesis by (simp add: handle_execute_def respond_def Inr f d c)
    next
      case csv: (Inr csv)
      have "handle_execute env i request en = respond (run_decrypted env i request sid b csv (truthy csvv) en2)"
        by (simp add: handle_execute_def Inr f d c b csv)
      with runs Inr f d c b csv show thesis by simp
    qed
  qed
qed

lemma decrypt_payload_Inr:
  assumes "decrypt_payload env i n what data sid en = (Inr b, en1)"
  shows "decrypt_combined_hybrid_data (he_crypto env) (he_pr env) (hi_now i n) data sid (interfere env i n en) = (Inr (True, b), en_manager en1)"
proof -
  obtain r m where r: "decrypt_combined_hybrid_data (he_crypto env) (he_pr env) (hi_now i n) data sid (interfere env i n en) = (r, m)"
    by fastforce
  with assms show ?thesis by (auto simp: decrypt_payload_def split: sum.splits bool.splits prod.splits)
qed

lemma run_decrypted_key_gone:
  assumes "sid = PStr s"
  shows "dget (active_sessions (en_manager (snd (run_decrypted env i request sid b csv w en)))) s = None"
proof -
  have "dget (active_sessions (en_manager (snd (cleanup_session env i 2 sid e)))) s = None" for e
    unfolding assms by (simp add: cleanup_session_def delete_keypair_PStr)
  then show ?thesis by (simp add: run_decrypted_def case_prod_beta)
qed

text \<open>C5: A script only runs for a session whose key is then destroyed: after an execution request either nothing ran, that is, the answer is
  an error and the executor and the certificate store are untouched, or the session named by the request has no entry in the session store any
  more, whatever the run, the attestation and the other threads did.\<close>

theorem execute_key_gone:
  assumes "dget request (lit ''session_id'') = Some (PStr s)"
  shows "(\<exists>msg. fst (handle_execute env i request en) = error_response msg
      \<and> en_executor (snd (handle_execute env i request en)) = en_executor en
      \<and> en_ca (snd (handle_execute env i request en)) = en_ca en)
    \<or> dget (active_sessions (en_manager (snd (handle_execute env i request en)))) s = None"
proof (cases rule: handle_execute_cases [of env i request en])
  case (refused msg)
  then show ?thesis by blast
next
  case (runs sid data csvv b csv en1 en2)
  have "sid = PStr s" using runs(1) assms by (auto simp: execute_fields_def Let_def rbind_eq_Inr_iff dict_item_eq_Inr)
  then show ?thesis by (simp add: runs(4) run_decrypted_key_gone)
qed

lemma error_response_False [simp]: "dget (error_response msg) (lit ''success'') = Some (PBool False)"
  by (simp add: error_response_def)

lemma run_decrypted_success:
  assumes "dget (fst (respond (run_decrypted env i request sid b csv w en))) (lit ''success'') = Some (PBool True)"
  obtains t fs x nonce h ok att en' where
    "execute_bundle (he_exec env) (he_cfg env) (he_pr env) (hi_bundle i) b sid None csv (en_executor en) = ((True, t, fs), x)"
    "atl_nonce request = Inr nonce" "files_manifest_sha256 (build_files_manifest fs) = Inr h"
    "fst (as_execution (he_att env) (execution_args i request sid t b csv nonce h) (en_ca en)) = Inr (ok, att)"
    "respond (run_decrypted env i request sid b csv w en) = (execution_response env i sid t fs h w ok att, en')"
proof -
  obtain ok t fs x where x: "execute_bundle (he_exec env) (he_cfg env) (he_pr env) (hi_bundle i) b sid None csv (en_executor en) = ((ok, t, fs), x)"
    by (metis prod.exhaust)
  obtain bb en1 where c: "cleanup_session env i 2 sid (en\<lparr>en_executor := x\<rparr>) = (bb, en1)" by fastforce
  have ca: "en_ca en1 = en_ca en" using stage_executor(6) [of env i 2 sid "en\<lparr>en_executor := x\<rparr>"] by (simp add: c)
  have ok: ok
  proof (rule ccontr)
    assume "\<not> ok"
    with assms show False by (simp add: run_decrypted_def x c respond_def)
  qed
  have r: "run_decrypted env i request sid b csv w en = attest_execution env i request sid b csv w t fs en1"
    using ok by (simp add: run_decrypted_def x c)
  obtain nonce h where nh: "atl_nonce request = Inr nonce" "files_manifest_sha256 (build_files_manifest fs) = Inr h"
    using assms by (cases "atl_nonce request"; cases "files_manifest_sha256 (build_files_manifest fs)")
      (auto simp: r attest_execution_def respond_def)
  obtain q d where q: "as_execution (he_att env) (execution_args i request sid t b csv nonce h) (en_ca en1) = (q, d)" by fastforce
  show thesis
  proof (cases q)
    case (Inl e)
    with assms show thesis by (simp add: r attest_execution_def nh q respond_def)
  next
    case (Inr v)
    obtain ok' att where v: "v = (ok', att)" by fastforce
    show thesis
      using that [of t fs x nonce h ok' att "en1\<lparr>en_ca := d\<rparr>"] x ok nh q Inr v ca
      by (simp add: r attest_execution_def respond_def)
  qed
qed

lemma execute_success_facts:
  assumes "dget (fst (handle_execute env i request en)) (lit ''success'') = Some (PBool True)"
  shows "\<exists>s sess data b csv m t fs x nonce h ok att d.
      dget request (lit ''session_id'') = Some (PStr s) \<and> dget request (lit ''encrypted_data'') = Some data
    \<and> dget (active_sessions (interfere env i 0 en)) s = Some sess \<and> is_session_valid (hi_now i 0) sess
    \<and> decrypt_combined_hybrid_data (he_crypto env) (he_pr env) (hi_now i 0) data (PStr s) (interfere env i 0 en) = (Inr (True, b), m)
    \<and> execute_bundle (he_exec env) (he_cfg env) (he_pr env) (hi_bundle i) b (PStr s) None csv (en_executor en) = ((True, t, fs), x)
    \<and> (csv = None \<longleftrightarrow> \<not> truthy (dget_or PNone request (lit ''encrypted_csv'')))
    \<and> dget (fst (handle_execute env i request en)) (lit ''output'') = Some (PStr t)
    \<and> dget (fst (handle_execute env i request en)) (lit ''files'') = Some (PList (map response_file fs))
    \<and> collected_ok (MAX_OUTPUT_FILES (he_cfg env)) (MAX_OUTPUT_FILES_MB (he_cfg env) * 1024 * 1024) fs
    \<and> files_manifest_sha256 (build_files_manifest fs) = Inr h \<and> atl_nonce request = Inr nonce
    \<and> as_execution (he_att env) (execution_args i request (PStr s) t b csv nonce h) (en_ca en) = (Inr (ok, att), d)
    \<and> dget (fst (handle_execute env i request en)) (lit ''attestation'') = (if ok then Some (PDict att) else None)"
proof (cases rule: handle_execute_cases [of env i request en])
  case (refused msg)
  with assms show ?thesis by simp
next
  case (runs sid data csvv b csv en1 en2)
  have f: "dget request (lit ''session_id'') = Some sid" "dget request (lit ''encrypted_data'') = Some data"
    "csvv = dget_or PNone request (lit ''encrypted_csv'')"
    using runs(1) by (auto simp: execute_fields_def Let_def rbind_eq_Inr_iff dict_item_eq_Inr)
  note dec = decrypt_payload_Inr [OF runs(2)]
  obtain s sess where s: "sid = PStr s" "dget (active_sessions (interfere env i 0 en)) s = Some sess" "is_session_valid (hi_now i 0) sess"
    using decrypt_combined_success [OF dec] by blast
  have e: "en_executor en2 = en_executor en" "en_ca en2 = en_ca en"
    using stage_executor(1,2) [of env i 0 "''ZIP''" data sid en] stage_executor(3,4) [of env i csvv sid en1] by (simp_all add: runs(2,3))
  have c: "csv = None \<longleftrightarrow> \<not> truthy csvv"
    using runs(3) by (auto simp: decrypt_csv_def split: prod.splits sum.splits if_splits)
  obtain t fs x nonce h ok att en' where
    r: "execute_bundle (he_exec env) (he_cfg env) (he_pr env) (hi_bundle i) b sid None csv (en_executor en2) = ((True, t, fs), x)"
      "atl_nonce request = Inr nonce" "files_manifest_sha256 (build_files_manifest fs) = Inr h"
      "fst (as_execution (he_att env) (execution_args i request sid t b csv nonce h) (en_ca en2)) = Inr (ok, att)"
      "respond (run_decrypted env i request sid b csv (truthy csvv) en2) = (execution_response env i sid t fs h (truthy csvv) ok att, en')"
    using assms run_decrypted_success [of env i request sid b csv "truthy csvv" en2] unfolding runs(4) by blast
  obtain d where a: "as_execution (he_att env) (execution_args i request sid t b csv nonce h) (en_ca en2) = (Inr (ok, att), d)"
    using r(4) by (metis fst_conv prod.exhaust)
  have coll: "collected_ok (MAX_OUTPUT_FILES (he_cfg env)) (MAX_OUTPUT_FILES_MB (he_cfg env) * 1024 * 1024) fs"
    using execute_bundle_True [OF r(1)] run_bundle_success collected_ok_of_collect by metis
  have resp: "fst (handle_execute env i request en) = execution_response env i sid t fs h (truthy csvv) ok att"
    by (simp add: runs(4) r(5))
  have "dget (fst (handle_execute env i request en)) (lit ''output'') = Some (PStr t)"
    "dget (fst (handle_execute env i request en)) (lit ''files'') = Some (PList (map response_file fs))"
    "dget (fst (handle_execute env i request en)) (lit ''attestation'') = (if ok then Some (PDict att) else None)"
    unfolding resp by (simp_all add: execution_response_def)
  then show ?thesis using f s dec r(1-3) [unfolded e] a [unfolded e] coll c unfolding s(1) by blast
qed


section \<open>Only the enclave's own keys are attested\<close>

lemma lookup_public_Some:
  assumes "lookup_public env i n sid en = (Some pk, en1)"
  obtains s sess where "sid = PStr s" "dget (active_sessions (interfere env i n en)) s = Some sess"
    "is_session_valid (hi_now i n) sess" "pk = s_public_key sess" "en1 = en\<lparr>en_manager := interfere env i n en\<rparr>"
proof -
  let ?m = "interfere env i n en"
  from assms have g: "fst (Keypair_Manager.get_public_key (he_crypto env) (lit ''PEM'') (hi_now i n) sid ?m) = Some pk"
    and e: "en1 = en\<lparr>en_manager := snd (Keypair_Manager.get_public_key (he_crypto env) (lit ''PEM'') (hi_now i n) sid ?m)\<rparr>"
    by (auto simp: lookup_public_def case_prod_beta)
  show thesis
  proof (cases "\<exists>s. sid = PStr s")
    case True
    then obtain s where s: "sid = PStr s" by blast
    with g obtain sess where "dget (active_sessions ?m) s = Some sess" "is_session_valid (hi_now i n) sess" "pk = s_public_key sess"
      by (auto simp: get_public_key_def get_valid_session_PStr format_public_key_def split: option.splits if_splits)
    moreover from this have "snd (Keypair_Manager.get_public_key (he_crypto env) (lit ''PEM'') (hi_now i n) sid ?m) = ?m"
      by (simp add: s snd_get_public_key get_private_key_PStr)
    ultimately show thesis using that s e by simp
  next
    case False
    then have "get_valid_session (hi_now i n) sid ?m = (if unhashable sid then Inl (unhashable_error sid) else Inr (None, ?m))"
      by (intro get_valid_session_not_str) auto
    with g show thesis by (auto simp: get_public_key_def split: if_splits)
  qed
qed

text \<open>User data the enclave may attest on request: the record of a session key it holds, or the hash of such a key.\<close>

definition own_data :: "'key handler_env \<Rightarrow> bytes \<Rightarrow> bool" where
  "own_data env u \<longleftrightarrow> (\<exists>m s sess. km_reachable (he_crypto env) (he_cfg env) (he_pr env) m \<and> dget (active_sessions m) s = Some sess
     \<and> (session_user_data (s_public_key sess) (PStr s) = Inr u \<or> (\<exists>k. str_encode (s_public_key sess) = Inr k \<and> u = sha256 k)))"

lemma own_data_session:
  assumes "store_ok env en" "lookup_public env i n sid en = (Some pk, en1)" "session_user_data pk sid = Inr u"
  shows "own_data env u"
  using assms(2)
proof (rule lookup_public_Some)
  fix s sess assume "sid = PStr s" "dget (active_sessions (interfere env i n en)) s = Some sess" "pk = s_public_key sess"
  with assms(3) interfere_ok [OF assms(1), of i n] show ?thesis unfolding own_data_def by blast
qed

lemma own_data_hash:
  assumes "store_ok env en" "lookup_public env i n sid en = (Some pk, en1)" "str_encode pk = Inr k"
  shows "own_data env (sha256 k)"
  using assms(2)
proof (rule lookup_public_Some)
  fix s sess assume "dget (active_sessions (interfere env i n en)) s = Some sess" "pk = s_public_key sess"
  with assms(3) interfere_ok [OF assms(1), of i n] show ?thesis unfolding own_data_def by blast
qed

abbreviation with_service :: "'key handler_env \<Rightarrow> att_service \<Rightarrow> 'key handler_env" where
  "with_service env svc \<equiv> env\<lparr>he_att := svc\<rparr>"

lemma with_service_store [simp]:
  "interfere (with_service env svc) i n en = interfere env i n en"
  "lookup_public (with_service env svc) i n sid en = lookup_public env i n sid en"
  "new_keypair (with_service env svc) i n j k en = new_keypair env i n j k en"
  "cleanup_session (with_service env svc) i n sid en = cleanup_session env i n sid en"
  "decrypt_payload (with_service env svc) i n what data sid en = decrypt_payload env i n what data sid en"
  "decrypt_csv (with_service env svc) i csv sid en = decrypt_csv env i csv sid en"
  by (simp_all add: interfere_def lookup_public_def new_keypair_def cleanup_session_def decrypt_payload_def decrypt_csv_def)

lemma get_attestation_agree:
  assumes "store_ok env en" "\<And>u n d. own_data env u \<Longrightarrow> as_generate svc u n d = as_generate svc' u n d" "as_real svc = as_real svc'"
  shows "handle_get_attestation (with_service env svc) i request en = handle_get_attestation (with_service env svc') i request en"
proof (cases "dict_item request (lit ''session_id'')")
  case (Inl e)
  then show ?thesis by (simp add: handle_get_attestation_def Let_def)
next
  case (Inr sid)
  obtain pk en1 where l: "lookup_public env i 0 sid en = (pk, en1)" by fastforce
  show ?thesis
  proof (cases "pk = None \<or> pk = Some []")
    case True
    with Inr l show ?thesis by (auto simp: handle_get_attestation_def Let_def)
  next
    case False
    then obtain ch cs where pk: "pk = Some (ch # cs)" by (metis list.exhaust not_None_eq)
    have "as_generate svc u n d = as_generate svc' u n d" if "session_user_data (ch # cs) sid = Inr u" for u n d
      using assms(2) own_data_session [OF assms(1) l [unfolded pk] that] by blast
    with Inr l pk assms(3) show ?thesis
      by (cases "session_user_data (ch # cs) sid"; cases "request_nonce request") (simp_all add: handle_get_attestation_def Let_def)
  qed
qed

lemma attestation_for_proxy_agree:
  assumes "store_ok env en" "\<And>u n d. own_data env u \<Longrightarrow> as_generate svc u n d = as_generate svc' u n d" "as_real svc = as_real svc'"
  shows "handle_attestation_for_proxy (with_service env svc) i request en = handle_attestation_for_proxy (with_service env svc') i request en"
proof (cases "dict_item request (lit ''job_id'')")
  case (Inl e)
  then show ?thesis by (simp add: handle_attestation_for_proxy_def Let_def)
next
  case (Inr j)
  let ?k = "dget_or (PInt 2048) request (lit ''key_size'')"
  obtain ok sid en1 where n: "new_keypair env i 0 j ?k en = ((ok, sid), en1)" by (metis prod.exhaust)
  have ok1: "store_ok env en1" using new_keypair_ok [OF assms(1), of i 0 j ?k] n by simp
  obtain pk en2 where l: "lookup_public env i 1 (PStr sid) en1 = (pk, en2)" by fastforce
  show ?thesis
  proof (cases "\<not> ok \<or> pk = None \<or> pk = Some []")
    case True
    with Inr n l show ?thesis by (cases ok) (auto simp: handle_attestation_for_proxy_def Let_def)
  next
    case False
    then obtain ch cs where pk: "pk = Some (ch # cs)" ok by (metis list.exhaust not_None_eq)
    have "as_generate svc (sha256 k) n d = as_generate svc' (sha256 k) n d" if "str_encode (ch # cs) = Inr k" for k n d
      using assms(2) own_data_hash [OF ok1 l [unfolded pk] that] by blast
    with Inr n l pk assms(3) show ?thesis
      by (cases "str_encode (ch # cs)"; cases "request_nonce request") (simp_all add: handle_attestation_for_proxy_def Let_def)
  qed
qed

lemma handle_execute_agree:
  assumes "as_execution svc = as_execution svc'" "as_real svc = as_real svc'"
  shows "handle_execute (with_service env svc) i request en = handle_execute (with_service env svc') i request en"
  using assms by (simp add: handle_execute_def run_decrypted_def attest_execution_def execution_response_def split: sum.splits prod.splits)

text \<open>C2: The host cannot choose what is attested. Two attestation services that agree on execution attestations and on the
  enclave's own session keys give the same answer and the same state for every request text: no request makes the enclave
  ask for a signature on any other user data.\<close>

theorem host_cannot_choose_user_data:
  assumes "km_reachable (he_crypto env) (he_cfg env) (he_pr env) (en_manager en)"
    and "\<And>u n d. own_data env u \<Longrightarrow> as_generate svc u n d = as_generate svc' u n d"
    and "as_execution svc = as_execution svc'" "as_real svc = as_real svc'"
  shows "handle_request (env\<lparr>he_att := svc\<rparr>) i text en = handle_request (env\<lparr>he_att := svc'\<rparr>) i text en"
proof -
  have k: "handle_generate_keypair (with_service env svc) i request en = handle_generate_keypair (with_service env svc') i request en" for request
    unfolding handle_generate_keypair_def with_service_store ..
  have ga: "handle_get_attestation (with_service env svc) i request en = handle_get_attestation (with_service env svc') i request en" for request
    using assms(2) by (rule get_attestation_agree [OF assms(1) _ assms(4)])
  have pa: "handle_attestation_for_proxy (with_service env svc) i request en
      = handle_attestation_for_proxy (with_service env svc') i request en" for request
    using assms(2) by (rule attestation_for_proxy_agree [OF assms(1) _ assms(4)])
  have inf: "get_enclave_info (with_service env svc) = get_enclave_info (with_service env svc')"
    using assms(4) by (simp add: get_enclave_info_def kms_status_def)
  have "dispatch (with_service env svc) i request en = dispatch (with_service env svc') i request en" for request
    unfolding dispatch_def Let_def k inf ga pa handle_execute_agree [OF assms(3,4)] by simp
  then show ?thesis by (cases "parse_request (he_fr env) text") (simp_all add: handle_request_def split: option.splits)
qed


text \<open>C17: The two kinds of attested records never meet: the user data of a key attestation is never the user data of an
  execution attestation, so neither can be passed off as the other.\<close>

theorem attested_records_disjoint:
  assumes "list_all valid_cp pk" "list_all valid_cp s" "exec_args_ok a"
    and "session_user_data pk (PStr s) = Inr u" "nitro_proof_bytes a = Inr v"
  shows "u \<noteq> v"
proof
  assume uv: "u = v"
  let ?d = "[(lit ''public_key'', PStr pk), (lit ''session_id'', PStr s)]"
  have ok: "json_ok (PDict ?d)" using assms(1,2) by simp
  obtain d where d: "nitro_proof_data a = Inr d" "rbind (json_dumps True False (PDict d)) str_encode = Inr v"
    using assms(5) by (auto simp: nitro_proof_bytes_def rbind_eq_Inr_iff)
  have "map_option (json_norm False) (dget ?d (lit ''job_id'')) = map_option (json_norm True) (dget d (lit ''job_id''))"
    using assms(4) d(2) uv by (intro json_bytes_fix_fields [OF ok nitro_proof_ok [OF assms(3) d(1)]])
      (simp_all add: session_user_data_def)
  then show False using nitro_proof_fields(1) [OF d(1)] by simp
qed

section \<open>Every answer can be sent\<close>

text \<open>Parsed JSON never contains \<^verbatim>\<open>bytes\<close>.\<close>

abbreviation plain :: "pyval \<Rightarrow> bool" where
  "plain v \<equiv> \<not> has_bytes v"

lemma plain_dset: "plain v \<Longrightarrow> plain (PDict d) \<Longrightarrow> plain (PDict (dset k v d))"
  by (induction d) auto

lemma parse_atoms_plain:
  "parse_literal s = Some (v, r) \<Longrightarrow> plain v" "parse_number fr s = Some (v, r) \<Longrightarrow> plain v"
  by (auto simp: parse_literal_def parse_number_def Let_def split: if_splits option.splits prod.splits list.splits)

lemma pv_step_plain:
  assumes "\<And>acc q v r. pelems fr n acc q = Some (v, r) \<Longrightarrow> plain (PList acc) \<Longrightarrow> plain v"
    and "\<And>d q v r. pmembers fr n d q = Some (v, r) \<Longrightarrow> plain (PDict d) \<Longrightarrow> plain v"
    and "pv fr (Suc n) s = Some (v, r)"
  shows "plain v"
  using assms(3) by (auto split: list.splits if_splits option.splits prod.splits dest: parse_atoms_plain assms(1,2))

lemma pmembers_step_plain:
  assumes "\<And>q v r. pv fr n q = Some (v, r) \<Longrightarrow> plain v"
    and "\<And>d q v r. pmembers fr n d q = Some (v, r) \<Longrightarrow> plain (PDict d) \<Longrightarrow> plain v"
    and "pmembers fr (Suc n) d s = Some (v, r)" "plain (PDict d)"
  shows "plain v"
proof -
  from assms(3) obtain k q where k: "parse_str s = Some (k, q)" by (auto split: option.splits)
  from assms(3) k obtain q' where q': "skip_ws q = 58 # q'" by (auto split: list.splits if_splits)
  from assms(3) k q' obtain w p where w: "pv fr n (skip_ws q') = Some (w, p)" by (auto split: option.splits)
  have d: "plain (PDict (dset k w d))" by (rule plain_dset [OF assms(1) [OF w] assms(4)])
  from assms(3) k q' w obtain e p' where p': "skip_ws p = e # p'" by (auto split: list.splits)
  show ?thesis
  proof (cases "e = 125")
    case True
    with assms(3) k q' w p' d show ?thesis by auto
  next
    case False
    with assms(3) k q' w p' obtain p2 where "pmembers fr n (dset k w d) p2 = Some (v, r)"
      by (auto split: if_splits list.splits)
    from assms(2) [OF this d] show ?thesis .
  qed
qed

lemma parsers_plain:
  "(\<forall>s v r. pv fr n s = Some (v, r) \<longrightarrow> plain v) \<and>
   (\<forall>acc s v r. pelems fr n acc s = Some (v, r) \<longrightarrow> plain (PList acc) \<longrightarrow> plain v) \<and>
   (\<forall>d s v r. pmembers fr n d s = Some (v, r) \<longrightarrow> plain (PDict d) \<longrightarrow> plain v)"
proof (induction n)
  case (Suc n)
  note v = Suc.IH [THEN conjunct1, rule_format]
    and e = Suc.IH [THEN conjunct2, THEN conjunct1, rule_format]
    and d = Suc.IH [THEN conjunct2, THEN conjunct2, rule_format]
  have "plain x" if "pv fr (Suc n) s = Some (x, r)" for s x r
    by (rule pv_step_plain [of fr n s x r]) (use e d that in blast)+
  moreover have "plain x" if "pelems fr (Suc n) acc s = Some (x, r)" "plain (PList acc)" for acc s x r
    using that v e by (auto split: option.splits list.splits if_splits)
  moreover have "plain x" if "pmembers fr (Suc n) a s = Some (x, r)" "plain (PDict a)" for a s x r
    by (rule pmembers_step_plain [of fr n a s x r]) (use v d that in blast)+
  ultimately show ?case by blast
qed simp

lemma parse_request_plain: "plain (parse_request fr text)"
  using parsers_plain [of fr] by (auto simp: parse_request_def json_loads_def simp del: pv.simps split: option.splits if_splits) blast

lemma plain_dget_or: "plain (PDict d) \<Longrightarrow> plain v \<Longrightarrow> plain (dget_or v d k)"
  by (auto simp: dget_or_def list_ex_iff split: option.splits dest!: map_of_SomeD)

lemma plain_dict_item: "plain (PDict d) \<Longrightarrow> dict_item d k = Inr v \<Longrightarrow> plain v"
  by (auto simp: dict_item_eq_Inr list_ex_iff dest!: map_of_SomeD)

text \<open>A verdict, and an error entry when it is negative; and nothing in it that \<^verbatim>\<open>json.dumps\<close> refuses.\<close>

definition response_ok :: "pyval dict \<Rightarrow> bool" where
  "response_ok r \<longleftrightarrow> (dget r (lit ''success'') = Some (PBool True)
     \<or> dget r (lit ''success'') = Some (PBool False) \<and> dget r (lit ''error'') \<noteq> None) \<and> plain (PDict r)"

lemma error_response_ok [simp]: "response_ok (error_response msg)"
  by (simp add: response_ok_def error_response_def)

locale plain_service =
  fixes svc :: att_service
  assumes generate_plain: "as_generate svc u n d = ((ok, att), d') \<Longrightarrow> plain (PDict att)"
    and execution_plain: "as_execution svc a d = (Inr (ok, att), d') \<Longrightarrow> plain (ea_job_id a) \<Longrightarrow> plain (ea_context_hash a)
      \<Longrightarrow> plain (PDict att)"
begin

lemma run_decrypted_response:
  assumes "he_att env = svc" "plain sid" "plain (PDict request)" "run_decrypted env i request sid b csv w en = (Inr r, en')"
  shows "response_ok r"
proof -
  obtain t fs en1 where a: "attest_execution env i request sid b csv w t fs en1 = (Inr r, en')"
    using assms(4) by (auto simp: run_decrypted_def case_prod_beta split: if_splits)
  then obtain nonce h ok att d where
    q: "as_execution svc (execution_args i request sid t b csv nonce h) (en_ca en1) = (Inr (ok, att), d)"
    and r: "r = execution_response env i sid t fs h w ok att"
    using assms(1) by (auto simp: attest_execution_def split: sum.splits prod.splits)
  have "plain (PDict att)"
    by (rule execution_plain [OF q]) (simp_all add: execution_args_def assms(2) plain_dget_or [OF assms(3)])
  moreover have "plain (PList (map response_file fs))" by (induction fs) (auto simp: response_file_def)
  ultimately show ?thesis using assms(2) by (simp add: r response_ok_def execution_response_def)
qed

lemma handle_execute_response:
  assumes "he_att env = svc" "plain (PDict request)"
  shows "response_ok (fst (handle_execute env i request en))"
proof (cases rule: handle_execute_cases [of env i request en])
  case (refused msg)
  then show ?thesis by simp
next
  case (runs sid data csvv b csv en1 en2)
  have sid: "plain sid"
    by (rule plain_dict_item [OF assms(2), of "lit ''session_id''"]) (use runs(1) in \<open>auto simp: execute_fields_def Let_def rbind_eq_Inr_iff\<close>)
  obtain r en' where r: "run_decrypted env i request sid b csv (truthy csvv) en2 = (r, en')" by fastforce
  show ?thesis
    using run_decrypted_response [OF assms(1) sid assms(2), of i b csv "truthy csvv" en2] r
    by (cases r) (simp_all add: runs(4) respond_def)
qed

lemma handle_get_attestation_response:
  assumes "he_att env = svc" "plain (PDict request)"
  shows "response_ok (fst (handle_get_attestation env i request en))"
proof -
  have "plain (dget_or PNone att k)" if "as_generate svc u n d = ((ok, att), d')" for u n d ok att d' k
    by (rule plain_dget_or [OF generate_plain [OF that]]) simp
  with generate_plain show ?thesis
    by (auto simp: handle_get_attestation_def Let_def response_ok_def assms(1) error_response_def simp del: has_bytes.simps(3)
      split: sum.splits prod.splits option.splits list.splits if_splits) auto
qed

lemma session_handlers_response:
  assumes "he_att env = svc" "plain (PDict request)"
  shows "response_ok (fst (handle_generate_keypair env i request en))"
    "response_ok (fst (handle_attestation_for_proxy env i request en))"
proof -
  have j: "plain j" if "dict_item request (lit ''job_id'') = Inr j" for j by (rule plain_dict_item [OF assms(2) that])
  have k: "plain (dget_or (PInt 2048) request (lit ''key_size''))" by (rule plain_dget_or [OF assms(2)]) simp
  show "response_ok (fst (handle_generate_keypair env i request en))"
    using j k by (auto simp: handle_generate_keypair_def Let_def response_ok_def error_response_def opt_str_def
        split: sum.splits prod.splits bool.splits option.splits)
  show "response_ok (fst (handle_attestation_for_proxy env i request en))"
    using j k generate_plain by (auto simp: handle_attestation_for_proxy_def Let_def response_ok_def error_response_def
        verification_steps_def assms(1) split: sum.splits prod.splits bool.splits option.splits list.splits)
qed

lemma dispatch_response:
  assumes "he_att env = svc" "plain (PDict request)"
  shows "response_ok (fst (dispatch env i request en))"
proof -
  have "response_ok (get_enclave_info env)"
    by (simp add: response_ok_def get_enclave_info_def active_def kms_status_def)
  moreover have "response_ok [(lit ''success'', PBool True), (lit ''message'', pstr ''Enclave healthy'')]"
    by (simp add: response_ok_def)
  ultimately show ?thesis
    using session_handlers_response [OF assms] handle_get_attestation_response [OF assms] handle_execute_response [OF assms]
    by (simp add: dispatch_def Let_def)
qed

lemma handle_request_response:
  assumes "he_att env = svc"
  shows "response_ok (fst (handle_request env i text en))"
proof (cases "parse_request (he_fr env) text")
  case (PDict request)
  then have "plain (PDict request)" using parse_request_plain by metis
  with PDict dispatch_response [OF assms] show ?thesis by (simp add: handle_request_def split: option.splits)
qed (simp_all add: handle_request_def)

end

section \<open>Runs of the enclave\<close>

text \<open>One request at a time on the executor and the certificate directory; the session store moves also through the critical
  sections of other threads.\<close>

inductive enclave_reachable :: "'key handler_env \<Rightarrow> enclave \<Rightarrow> bool" for env :: "'key handler_env" where
  en_start: "enclave_reachable env (init_enclave (he_cfg env) d)"
| en_request: "enclave_reachable env en \<Longrightarrow> enclave_reachable env (snd (handle_request env i text en))"
| en_background: "enclave_reachable env en \<Longrightarrow>
    enclave_reachable env (en\<lparr>en_manager := km_exec (he_crypto env) (he_cfg env) (he_pr env) op (en_manager en)\<rparr>)"

lemma reachable_store_ok: "enclave_reachable env en \<Longrightarrow> store_ok env en"
  by (induction rule: enclave_reachable.induct) (auto simp: init_enclave_def intro: km_init km_next handle_request_ok)

lemma handle_execute_executor:
  assumes "distinct (dkeys (active_executions (en_executor en)))"
  shows "distinct (dkeys (active_executions (en_executor (snd (handle_execute env i request en)))))"
proof (cases rule: handle_execute_cases [of env i request en])
  case (refused msg)
  with assms show ?thesis by simp
next
  case (runs sid data csvv b csv en1 en2)
  have e: "en_executor en2 = en_executor en"
    using stage_executor(1) [of env i 0 "''ZIP''" data sid en] stage_executor(3) [of env i csvv sid en1] by (simp add: runs(2,3))
  have "en_executor (snd (run_decrypted env i request sid b csv w en2)) =
      snd (execute_bundle (he_exec env) (he_cfg env) (he_pr env) (hi_bundle i) b sid None csv (en_executor en2))" for w
    by (simp add: run_decrypted_def case_prod_beta)
  with execute_bundle_keys [OF assms] show ?thesis by (simp add: runs(4) e)
qed

lemma handle_request_executor:
  assumes "distinct (dkeys (active_executions (en_executor en)))"
  shows "distinct (dkeys (active_executions (en_executor (snd (handle_request env i text en)))))"
  using assms handle_execute_executor [OF assms, of env]
  by (simp add: handle_request_def dispatch_def Let_def snd_handle_get_attestation snd_handle_proxy split: pyval.splits option.splits)

lemma reachable_executor_distinct: "enclave_reachable env en \<Longrightarrow> distinct (dkeys (active_executions (en_executor en)))"
  by (induction rule: enclave_reachable.induct) (simp_all add: init_enclave_def init_executor_def handle_request_executor)

text \<open>C27: The invariant of the enclave. In every state reached by any sequence of requests, interleaved with any critical sections of other
  threads, the session store is well formed: unique identifiers, and in each session the configured lifetime, a supported key
  size and the two PEM texts of one key; and the table of executions has unique identifiers.\<close>

theorem enclave_invariant:
  assumes "enclave_reachable env en"
  shows "manager_ok (he_crypto env) (he_cfg env) (en_manager en) \<and> distinct (dkeys (active_executions (en_executor en)))"
proof
  show "manager_ok (he_crypto env) (he_cfg env) (en_manager en)" by (rule reachable_ok [OF reachable_store_ok [OF assms]])
  show "distinct (dkeys (active_executions (en_executor en)))" by (rule reachable_executor_distinct [OF assms])
qed

section \<open>Parsing ends\<close>


section \<open>A concrete enclave\<close>

text \<open>The store of the earlier example with one live session, the host of the bundle example, and a service whose document is the user data.\<close>

definition demo_service :: att_service where
  "demo_service = \<lparr>as_generate = \<lambda>u n d. ((True, [(lit ''attestation_document'', PStr (b64encode u))]), d),
     as_execution = \<lambda>a d. (Inr (True, [(lit ''proof'', ea_job_id a)]), d), as_real = True\<rparr>"

definition demo_henv :: "toy_key handler_env" where
  "demo_henv = \<lparr>he_crypto = toy_crypto, he_cfg = default_config, he_pr = \<lambda>_. True, he_fr = \<lambda>s. s, he_exec = demo_env,
     he_att = demo_service, he_kms = None, he_nsm_exists = True\<rparr>"

definition demo_hin :: handler_inputs where
  "demo_hin = \<lparr>hi_gen = demo_gen, hi_now = \<lambda>_. 3000, hi_bundle = demo_inputs, hi_time = 3000, hi_urandom = [7], hi_ms = \<lambda>_. lit ''1.0'',
     hi_others = \<lambda>_. []\<rparr>"

definition demo_enclave :: enclave where
  "demo_enclave = \<lparr>en_manager = demo_manager, en_executor = init_executor, en_ca = []\<rparr>"

definition demo_request :: "pyval dict" where
  "demo_request = [(lit ''operation'', pstr ''execute_script_rsa_hybrid''), (lit ''session_id'', PStr demo_sid),
     (lit ''encrypted_data'', PStr (demo_sealed [1]))]"

lemma demo_interfere [simp]: "interfere demo_henv demo_hin n en = en_manager en"
  by (simp add: interfere_def demo_hin_def)

lemma demo_store: "store_ok demo_henv demo_enclave"
  by (auto simp: demo_henv_def demo_enclave_def demo_manager_def km_reachable_run)

lemma demo_manifest: "\<exists>h. files_manifest_sha256 (build_files_manifest demo_files) = Inr h"
  using collected_manifest [OF demo_collected_ok] by (simp add: files_manifest_sha256_def canonical_manifest_bytes_text)

definition demo_manifest_hash :: pystr where
  "demo_manifest_hash = (case files_manifest_sha256 (build_files_manifest demo_files) of Inr h \<Rightarrow> h | Inl _ \<Rightarrow> [])"

definition demo_exec_args :: exec_args where
  "demo_exec_args = execution_args demo_hin demo_request (PStr demo_sid) (lit ''ok'') [1] None None demo_manifest_hash"

lemma demo_execute_with:
  assumes "as_execution svc demo_exec_args [] = (Inr (ok, att), d)"
  shows "fst (handle_execute (demo_henv\<lparr>he_att := svc\<rparr>) demo_hin demo_request demo_enclave)
    = execution_response (demo_henv\<lparr>he_att := svc\<rparr>) demo_hin (PStr demo_sid) (lit ''ok'') demo_files demo_manifest_hash False ok att"
proof -
  let ?env = "demo_henv\<lparr>he_att := svc\<rparr>"
  have i [simp]: "interfere ?env demo_hin n en = en_manager en" for n en by (simp add: interfere_def demo_hin_def)
  have f: "execute_fields demo_request = Inr (PStr demo_sid, PStr (demo_sealed [1]), PNone)"
    by (simp add: execute_fields_def demo_request_def dict_item_def dget_or_def py_len_def Let_def)
  have d: "decrypt_payload demo_henv demo_hin 0 ''ZIP'' (PStr (demo_sealed [1])) (PStr demo_sid) demo_enclave = (Inr [1], demo_enclave)"
    using demo_decrypt [of "\<lambda>_. True" "[1]"] by (simp add: decrypt_payload_def) (simp add: demo_henv_def demo_hin_def demo_enclave_def)
  have c: "decrypt_csv demo_henv demo_hin PNone (PStr demo_sid) demo_enclave = (Inr None, demo_enclave)"
    by (simp add: decrypt_csv_def)
  obtain x where x: "execute_bundle (he_exec demo_henv) (he_cfg demo_henv) (he_pr demo_henv) (hi_bundle demo_hin) [1] (PStr demo_sid) None None
      (en_executor demo_enclave) = ((True, lit ''ok'', demo_files), x)"
    using demo_execute [of "\<lambda>_. True" "[1]" "PStr demo_sid" init_executor] by (simp add: demo_henv_def demo_hin_def demo_enclave_def)
  have h: "files_manifest_sha256 (build_files_manifest demo_files) = Inr demo_manifest_hash"
    using demo_manifest by (auto simp: demo_manifest_hash_def)
  have n: "atl_nonce demo_request = Inr None" by (simp add: atl_nonce_def demo_request_def dget_or_def)
  obtain bb en1 where e: "cleanup_session demo_henv demo_hin 2 (PStr demo_sid) (demo_enclave\<lparr>en_executor := x\<rparr>) = (bb, en1)" by fastforce
  have ca: "en_ca en1 = []"
    using stage_executor(6) [of demo_henv demo_hin 2 "PStr demo_sid" "demo_enclave\<lparr>en_executor := x\<rparr>"] unfolding e by (simp add: demo_enclave_def)
  have a: "as_execution svc (execution_args demo_hin demo_request (PStr demo_sid) (lit ''ok'') [1] None None demo_manifest_hash) [] = (Inr (ok, att), d)"
    using assms by (simp add: demo_exec_args_def)
  have r: "run_decrypted ?env demo_hin demo_request (PStr demo_sid) [1] None False demo_enclave
      = attest_execution ?env demo_hin demo_request (PStr demo_sid) [1] None False (lit ''ok'') demo_files en1"
    by (simp add: run_decrypted_def x e)
  show ?thesis by (simp add: handle_execute_def f d c r) (simp add: attest_execution_def n h ca a respond_def)
qed

lemma demo_handle_execute:
  "dget (fst (handle_execute demo_henv demo_hin demo_request demo_enclave)) (lit ''success'') = Some (PBool True)"
proof -
  have "as_execution demo_service demo_exec_args [] = (Inr (True, [(lit ''proof'', ea_job_id demo_exec_args)]), [])"
    by (simp add: demo_service_def)
  from demo_execute_with [OF this] show ?thesis by (simp add: demo_henv_def execution_response_def)
qed


theorem execute_key_gone_witness:
  "dget (active_sessions (en_manager demo_enclave)) demo_sid \<noteq> None
   \<and> dget (active_sessions (en_manager (snd (handle_execute demo_henv demo_hin demo_request demo_enclave)))) demo_sid = None"
proof -
  have "dget demo_request (lit ''session_id'') = Some (PStr demo_sid)" by (simp add: demo_request_def)
  from execute_key_gone [OF this, of demo_henv demo_hin demo_enclave] demo_handle_execute
  have "dget (active_sessions (en_manager (snd (handle_execute demo_henv demo_hin demo_request demo_enclave)))) demo_sid = None"
    by auto
  then show ?thesis by (simp add: demo_enclave_def demo_manager_sessions)
qed

text \<open>A service that refuses everything but the enclave's own records.\<close>

definition strict_service :: att_service where
  "strict_service = demo_service\<lparr>as_generate := \<lambda>u n d. if own_data demo_henv u then as_generate demo_service u n d
     else ((False, [(lit ''error'', pstr ''refused'')]), d)\<rparr>"

theorem host_cannot_choose_user_data_witness:
  "handle_request (demo_henv\<lparr>he_att := demo_service\<rparr>) demo_hin (lit ''{}'') demo_enclave
     = handle_request (demo_henv\<lparr>he_att := strict_service\<rparr>) demo_hin (lit ''{}'') demo_enclave"
  by (rule host_cannot_choose_user_data [OF demo_store]) (simp_all add: strict_service_def)

lemma demo_public: "s_public_key demo_session \<noteq> []" "list_all valid_cp (s_public_key demo_session)"
  using show_nat_digits by (auto simp: demo_session_def mk_session_def list_all_iff valid_cp_def is_surrogate_def
      dest!: lit_less_256) fastforce+


theorem attested_records_disjoint_witness:
  "\<exists>u v. session_user_data (lit ''PUB'') (PStr demo_sid) = Inr u \<and> nitro_proof_bytes demo_args = Inr v \<and> u \<noteq> v"
proof -
  have a: "exec_args_ok demo_args" by (simp add: exec_args_ok_def demo_args_def)
  obtain v where v: "nitro_proof_bytes demo_args = Inr v" using nitro_proof_bytes_ok [OF a] by blast
  have "json_ok (PDict [(lit ''public_key'', PStr (lit ''PUB'')), (lit ''session_id'', PStr demo_sid)])" by (simp add: demo_sid_def)
  from str_encode_json_text [OF this] json_ok_no_bytes [OF this] obtain u where u: "session_user_data (lit ''PUB'') (PStr demo_sid) = Inr u"
    by (simp only: session_user_data_def json_dumps_def if_False rbind_simps)
  have "list_all valid_cp demo_sid" by (simp add: demo_sid_def)
  from attested_records_disjoint [OF lit_valid_cp this a u v] u v show ?thesis by blast
qed

theorem enclave_invariant_witness:
  "manager_ok toy_crypto default_config (en_manager (snd (handle_request demo_henv demo_hin (lit ''{}'') (init_enclave default_config []))))"
proof -
  have "enclave_reachable demo_henv (snd (handle_request demo_henv demo_hin (lit ''{}'') (init_enclave (he_cfg demo_henv) [])))"
    by (intro en_request en_start)
  from enclave_invariant [OF this] show ?thesis by (simp add: demo_henv_def)
qed


end
