(* ===== verification/Enclave_Factory.thy ===== *)
theory Enclave_Factory
  imports Handler_Properties
begin

text \<open>
  \<^verbatim>\<open>factory.py\<close> and \<^verbatim>\<open>main.py\<close>: the two back ends as values of the handler's interface, the choice between them, and the wiring of the
  service stack. The record \<open>host\<close> holds what the constructors ask of the machine. The handler calls
  \<^verbatim>\<open>create_execution_attestation\<close> with the keyword arguments of the Nitro class; the TDX class has no parameter \<^verbatim>\<open>external_nonce\<close>, so
  the call raises before its body starts.
\<close>

record ('k, 'c) host =
  h_cbor :: cbor_lib
  h_pki :: "('k, 'c) pki"
  h_nsm :: nsm_io
  h_local :: local_inputs
  h_exists :: "pystr \<Rightarrow> bool"
  h_open_nsm :: "int res"
  h_run :: runner
  h_tdquote_default :: pystr
  h_environ :: "pystr dict"

section \<open>The back ends\<close>

definition nitro_service :: "('k, 'c) host \<Rightarrow> config \<Rightarrow> nitro \<Rightarrow> att_service" where
  "nitro_service h cfg st =
     (let generate = (\<lambda>u n d. nitro_generate_attestation (h_cbor h) (h_pki h) (h_nsm h) cfg (h_local h) st u n None d) in
      \<lparr>as_generate = \<lambda>u n d. generate (Some u) n d,
       as_execution = \<lambda>a d. (case nitro_create_execution_attestation generate a d of (r, d') \<Rightarrow> (Inr r, d')),
       as_real = nitro_is_real_enclave st\<rparr>)"

definition unexpected_keyword :: pyexn where
  "unexpected_keyword = Exn TypeError (lit ''create_execution_attestation() got an unexpected keyword argument ''
     @ quoted (lit ''external_nonce''))"

definition tdx_service :: "('k, 'c) host \<Rightarrow> tdx \<Rightarrow> att_service" where
  "tdx_service h st =
     (let genuine = tdx_is_real_enclave (h_exists h) in
      \<lparr>as_generate = \<lambda>u n d. (tdx_generate_attestation (h_run h) genuine st (Some u) n None, d),
       as_execution = \<lambda>a d. (Inl unexpected_keyword, d),
       as_real = genuine\<rparr>)"

lemma service_simps [simp]:
  "as_generate (nitro_service h cfg st) u n d = nitro_generate_attestation (h_cbor h) (h_pki h) (h_nsm h) cfg (h_local h) st (Some u) n None d"
  "as_execution (nitro_service h cfg st) a d = (case nitro_create_execution_attestation
     (\<lambda>u n d. nitro_generate_attestation (h_cbor h) (h_pki h) (h_nsm h) cfg (h_local h) st u n None d) a d of (r, d') \<Rightarrow> (Inr r, d'))"
  "as_generate (tdx_service h st') u n d = (tdx_generate_attestation (h_run h) (tdx_is_real_enclave (h_exists h)) st' (Some u) n None, d)"
  "as_execution (tdx_service h st') a d = (Inl unexpected_keyword, d)"
  by (simp_all add: nitro_service_def tdx_service_def Let_def)

section \<open>The factory\<close>

datatype backend = NitroBackend | TdxBackend

definition attestation_backends :: "backend dict" where
  "attestation_backends = [(lit ''nitro'', NitroBackend), (lit ''tdx'', TdxBackend)]"

definition DEFAULT_ATTESTATION_BACKEND :: pystr where
  "DEFAULT_ATTESTATION_BACKEND = lit ''nitro''"

definition resolve_backend :: "pystr dict \<Rightarrow> pystr option \<Rightarrow> pystr" where
  "resolve_backend env backend =
     lower_ascii (py_strip (case backend of Some (ch # cs) \<Rightarrow> ch # cs | _ \<Rightarrow> getenv env ''ENCLAVE_BACKEND'' DEFAULT_ATTESTATION_BACKEND))"

definition create_attestation_service ::
    "(nat \<Rightarrow> bool) \<Rightarrow> config \<Rightarrow> ('k, 'c) host \<Rightarrow> pystr option \<Rightarrow> att_service res" where
  "create_attestation_service pr cfg h backend =
     (let resolved = resolve_backend (h_environ h) backend in
      case dget attestation_backends resolved of
        None \<Rightarrow> Inl (Exn ValueError (lit ''Unknown attestation backend '' @ repr_str pr resolved @ lit ''; expected one of ''
                 @ py_repr pr (PList (map PStr (sort (dkeys attestation_backends))))))
      | Some NitroBackend \<Rightarrow>
          rbind (init_nitro (h_exists h (lit ''/dev/nsm'')) (h_open_nsm h)) (\<lambda>st. Inr (nitro_service h cfg st))
      | Some TdxBackend \<Rightarrow>
          rbind (init_tdx pr (h_environ h) (h_tdquote_default h) None) (\<lambda>st. Inr (tdx_service h st)))"

definition create_enclave_services ::
    "'key crypto \<Rightarrow> (nat \<Rightarrow> bool) \<Rightarrow> (pystr \<Rightarrow> pystr) \<Rightarrow> config \<Rightarrow> exec_env \<Rightarrow> ('k, 'c) host \<Rightarrow> kms option \<Rightarrow> pystr option \<Rightarrow> ca_dir
       \<Rightarrow> ('key handler_env \<times> enclave) res" where
  "create_enclave_services c pr fr cfg xe h kms_attestation backend d =
     rbind (create_attestation_service pr cfg h backend) (\<lambda>svc.
     Inr (\<lparr>he_crypto = c, he_cfg = cfg, he_pr = pr, he_fr = fr, he_exec = xe, he_att = svc, he_kms = kms_attestation,
           he_nsm_exists = h_exists h (lit ''/dev/nsm'')\<rparr>, init_enclave cfg d))"

text \<open>\<^verbatim>\<open>main\<close> of \<^verbatim>\<open>main.py\<close> up to the start of the server. The configuration and the timeout of the quote helper are read when the
  modules are imported; \<open>chown\<close> and \<open>chmod\<close> say how the two calls on the device end, and \<open>dev\<close> are its owner, group and
  mode before them.\<close>

definition main_services ::
    "'key crypto \<Rightarrow> (nat \<Rightarrow> bool) \<Rightarrow> (pystr \<Rightarrow> pystr) \<Rightarrow> exec_env \<Rightarrow> ('k, 'c) host \<Rightarrow> unit res \<Rightarrow> unit res \<Rightarrow> perms option \<Rightarrow> ca_dir
       \<Rightarrow> (perms option \<times> 'key handler_env \<times> enclave) res" where
  "main_services c pr fr xe h chown chmod dev d =
     rbind (load_config pr (h_environ h)) (\<lambda>cfg.
     rbind (TDQUOTE_TIMEOUT_SECONDS pr (h_environ h)) (\<lambda>_.
     rbind (if h_exists h (lit ''/dev/nsm'') then rbind chown (\<lambda>_. rbind chmod (\<lambda>_. Inr (protect_nsm dev))) else Inr dev) (\<lambda>dev'.
     rbind (create_enclave_services c pr fr cfg xe h (create_kms_attestation cfg (h_environ h) (h_exists h)) None d) (\<lambda>(env, en).
     Inr (dev', env, en)))))"

text \<open>\<^verbatim>\<open>main\<close> of \<^verbatim>\<open>main_tdx.py\<close>: the TDX back end on a TCP address, without KMS.\<close>

definition main_tdx_services ::
    "'key crypto \<Rightarrow> (nat \<Rightarrow> bool) \<Rightarrow> (pystr \<Rightarrow> pystr) \<Rightarrow> exec_env \<Rightarrow> ('k, 'c) host \<Rightarrow> ca_dir
       \<Rightarrow> (pystr \<times> int \<times> 'key handler_env \<times> enclave) res" where
  "main_tdx_services c pr fr xe h d =
     rbind (load_config pr (h_environ h)) (\<lambda>cfg.
     rbind (TDQUOTE_TIMEOUT_SECONDS pr (h_environ h)) (\<lambda>_.
     rbind (py_int pr (getenv (h_environ h) ''TDX_AGENT_PORT'' (lit ''5005''))) (\<lambda>port.
     rbind (create_enclave_services c pr fr cfg xe h None (Some (lit ''tdx'')) d) (\<lambda>(env, en).
     Inr (getenv (h_environ h) ''TDX_AGENT_HOST'' (lit ''127.0.0.1''), port, env, en)))))"

section \<open>Both back ends serve the handler\<close>

lemma plain_hash_or [simp]: "plain (hash_or PNone PStr b)" "plain (hash_or (PStr []) PStr b)"
  by (simp_all add: hash_or_def split: option.splits list.splits)

lemma generate_local_plain:
  "generate_local_attestation lib p i u n k mid pcrs d = ((ok, att), d') \<Longrightarrow> plain (PDict att)"
  by (auto simp: generate_local_attestation_def Let_def split: prod.splits sum.splits)

lemma generate_nsm_plain: "generate_nsm_attestation lib io st u n k = (ok, att) \<Longrightarrow> plain (PDict att)"
proof -
  have "plain (PDict (snd (nsm_failure code msg)))" "plain (PDict (snd (nsm_success u n q)))" for code msg q
    by (simp_all add: nsm_failure_def nsm_success_def how_to_verify_def)
  then have "plain (PDict (snd (generate_nsm_attestation lib io st u n k)))"
    unfolding generate_nsm_attestation_def
    by (simp del: has_bytes.simps split: sum.splits pyexn.splits exn_kind.splits prod.splits bool.splits cbor.splits)
  then show "generate_nsm_attestation lib io st u n k = (ok, att) \<Longrightarrow> plain (PDict att)" by (metis snd_conv)
qed

lemma nitro_generate_plain:
  "nitro_generate_attestation lib p io cfg li st u n k d = ((ok, att), d') \<Longrightarrow> plain (PDict att)"
  by (auto simp: nitro_generate_attestation_def nsm_failure_def split: if_splits dest: generate_local_plain generate_nsm_plain)

lemma nitro_execution_plain:
  assumes "nitro_create_execution_attestation g a d = ((ok, att), d')" "plain (ea_job_id a)" "plain (ea_context_hash a)"
    and g: "\<And>u n d ok att d'. g u n d = ((ok, att), d') \<Longrightarrow> plain (PDict att)"
  shows "plain (PDict att)"
proof (cases "nitro_proof_data a")
  case (Inl e)
  with assms(1) show ?thesis by (auto simp: nitro_create_execution_attestation_def)
next
  case pd: (Inr pd)
  show ?thesis
  proof (cases "nitro_proof_bytes a")
    case (Inl e)
    with assms(1) pd show ?thesis by (auto simp: nitro_create_execution_attestation_def)
  next
    case (Inr bs)
    obtain ok' att' d2 where q: "g (Some bs) (PBytes (nitro_nonce a)) d = ((ok', att'), d2)" by (metis prod.exhaust)
    have v: "plain nitro_verification_guide" by (simp add: nitro_verification_guide_def)
    obtain ob where "str_encode (ea_output a) = Inr ob" "dget pd (lit ''output_hash'') = Some (PStr (sha256_hex ob))"
      using nitro_proof_fields(2) [OF pd] by blast
    then have o: "plain (dget_or PNone pd (lit ''output_hash''))" "plain (dget_or PNone pd (lit ''timestamp''))"
      using nitro_proof_fields(7) [OF pd] by (simp_all add: dget_or_def)
    show ?thesis
    proof (cases ok')
      case True
      with assms(1) pd Inr q have "att = [(lit ''attestation'', PDict att'),
          (lit ''proof'', PDict [(lit ''job_id'', ea_job_id a), (lit ''output_hash'', dget_or PNone pd (lit ''output_hash'')),
             (lit ''timestamp'', dget_or PNone pd (lit ''timestamp'')), (lit ''nonce'', PStr (b64encode (nitro_nonce a))),
             (lit ''nonce_source'', if has_external_nonce a then pstr ''sth'' else pstr ''random''),
             (lit ''context_hash'', ea_context_hash a),
             (lit ''files_manifest_sha256'', case ea_files_manifest_sha256 a of Some h \<Rightarrow> PStr h | None \<Rightarrow> PNone)]),
          (lit ''verification_guide'', nitro_verification_guide)]"
        by (simp add: nitro_create_execution_attestation_def)
      with g [OF q] o v assms(2,3) show ?thesis by (simp split: option.splits)
    next
      case False
      with assms(1) pd Inr q g [OF q] show ?thesis by (simp add: nitro_create_execution_attestation_def)
    qed
  qed
qed

interpretation nitro_plain: plain_service "nitro_service h cfg st" for h cfg st
proof (unfold_locales, goal_cases)
  case (1 u n d ok att d')
  then show ?case by (intro nitro_generate_plain) simp
next
  case (2 a d ok att d')
  then have "nitro_create_execution_attestation (\<lambda>u n d. nitro_generate_attestation (h_cbor h) (h_pki h) (h_nsm h) cfg (h_local h) st u n None d) a d
      = ((ok, att), d')" by (simp split: prod.splits)
  from nitro_execution_plain [OF this 2(2,3)] show ?case using nitro_generate_plain by blast
qed

interpretation tdx_plain: plain_service "tdx_service h st" for h st
proof (unfold_locales, goal_cases)
  case (1 u n d ok att d')
  then show ?case by (auto simp: tdx_generate_attestation_def tdx_failure_def tdx_document_def split: sum.splits)
qed simp

lemma create_attestation_service_cases:
  assumes "create_attestation_service pr cfg h backend = Inr svc"
  obtains (nitro) st where "resolve_backend (h_environ h) backend = lit ''nitro''" "svc = nitro_service h cfg st"
  | (tdx) st where "resolve_backend (h_environ h) backend = lit ''tdx''" "svc = tdx_service h st"
  using assms by (auto simp: create_attestation_service_def Let_def attestation_backends_def rbind_eq_Inr_iff split: if_splits)

lemma stack_response_ok:
  assumes "create_enclave_services c pr fr cfg xe h k backend d = Inr (env, en0)"
  shows "response_ok (fst (handle_request env i text en))"
proof -
  obtain svc where s: "create_attestation_service pr cfg h backend = Inr svc" "he_att env = svc"
    using assms by (auto simp: create_enclave_services_def rbind_eq_Inr_iff)
  from s(1) show ?thesis
  proof (cases rule: create_attestation_service_cases)
    case (nitro st)
    with s(2) show ?thesis by (intro nitro_plain.handle_request_response) simp
  next
    case (tdx st)
    with s(2) show ?thesis by (intro tdx_plain.handle_request_response) simp
  qed
qed

text \<open>C9: Every request is answered: the stack that the factory wires, on either back end, answers every request text, well formed or not, with a
  dictionary that holds a verdict, an error entry when the verdict is negative, and nothing that JSON cannot carry.\<close>

theorem every_request_answered:
  assumes "create_enclave_services c pr fr cfg xe h k backend d = Inr (env, en0)"
  shows "response_ok (fst (handle_request env i text en))"
  by (rule stack_response_ok [OF assms])

lemma tdx_run_fails:
  assumes "he_att env = tdx_service h st"
  obtains msg where "fst (run_decrypted env i request sid b csv w en) = Inl msg"
proof -
  have "\<exists>msg. fst (run_decrypted env i request sid b csv w en) = Inl msg"
    by (auto simp: run_decrypted_def attest_execution_def assms split: prod.splits sum.splits)
  with that show thesis by blast
qed

text \<open>C33: On the TDX back end no execution request ever succeeds: the handler passes a keyword argument that the TDX method does not accept.
  The error comes after the work: unless the executor is untouched, the script has had its run and the key of the session is gone.\<close>

theorem tdx_execution_never_succeeds:
  assumes "create_enclave_services c pr fr cfg xe h k backend d = Inr (env, en0)"
    and "resolve_backend (h_environ h) backend = lit ''tdx''" "dget request (lit ''session_id'') = Some (PStr s)"
  shows "dget (fst (handle_execute env i request en)) (lit ''success'') = Some (PBool False)
    \<and> (en_executor (snd (handle_execute env i request en)) = en_executor en
      \<or> dget (active_sessions (en_manager (snd (handle_execute env i request en)))) s = None)"
proof -
  obtain svc where s: "create_attestation_service pr cfg h backend = Inr svc" "he_att env = svc"
    using assms(1) by (auto simp: create_enclave_services_def rbind_eq_Inr_iff)
  obtain st where svc: "svc = tdx_service h st"
    using s(1) assms(2) by (cases rule: create_attestation_service_cases) auto
  show ?thesis
  proof (cases rule: handle_execute_cases [of env i request en])
    case (refused msg)
    then show ?thesis by simp
  next
    case (runs sid data csvv b csv en1 en2)
    have sid: "sid = PStr s" using runs(1) assms(3) by (auto simp: execute_fields_def Let_def rbind_eq_Inr_iff dict_item_eq_Inr)
    obtain msg where "fst (run_decrypted env i request sid b csv (truthy csvv) en2) = Inl msg"
      using tdx_run_fails s(2) svc by metis
    then obtain en' where r: "run_decrypted env i request sid b csv (truthy csvv) en2 = (Inl msg, en')" by (metis prod.collapse)
    with run_decrypted_key_gone [OF sid, of env i request b csv "truthy csvv" en2] show ?thesis by (simp add: runs(4) respond_def)
  qed
qed

text \<open>C11: The scripts of a started enclave cannot reach the security module. When \<^verbatim>\<open>main\<close> has started the services as root on a machine
  that has the device, and a bundle is handed over under the configuration the services run with, the child that runs the script drops
  to the configured user, cannot become root again and may not open the device, whatever its permissions were before.\<close>

theorem main_isolates_scripts:
  assumes "main_services c pr fr xe h chown chmod (Some p) d = Inr (dev, env, en)" "h_exists h (lit ''/dev/nsm'')"
    and "cr_uid cr = 0" "SCRIPT_UID (he_cfg env) \<noteq> 0"
    and "as_script_user (he_cfg env) (cr_uid cr) own paths = Inr (ps, dropping)"
  shows "load_config pr (h_environ h) = Inr (he_cfg env)
    \<and> (\<exists>q cr'. dev = Some q \<and> child_creds (he_cfg env) dropping cr = Inr cr' \<and> cr_uid cr' = SCRIPT_UID (he_cfg env)
        \<and> sys_setuid 0 cr' = Inl eperm \<and> \<not> may_open_rdwr cr' q)"
proof -
  have "load_config pr (h_environ h) = Inr (he_cfg env)" "dev = protect_nsm (Some p)"
    using assms(1,2) by (auto simp: main_services_def create_enclave_services_def rbind_eq_Inr_iff)
  with script_confined [OF assms(3-5), of p] show ?thesis by (auto simp: protect_nsm_def)
qed

section \<open>Concrete stacks\<close>

text \<open>A machine without either device.\<close>

definition demo_host :: "pystr dict \<Rightarrow> (bytes, bytes) host" where
  "demo_host environ = \<lparr>h_cbor = json_cbor, h_pki = toy_pki, h_nsm = toy_device (\<lambda>r. r), h_local = demo_local, h_exists = \<lambda>_. False,
     h_open_nsm = Inl (Exn OSError (lit ''no device'')), h_run = toy_tdquote, h_tdquote_default = lit ''/opt/tdquote'', h_environ = environ\<rparr>"

lemma demo_resolve:
  "resolve_backend [] None = lit ''nitro''" "resolve_backend [] (Some (lit ''TDX '')) = lit ''tdx''"
  by (simp_all add: resolve_backend_def getenv_def dget_or_def DEFAULT_ATTESTATION_BACKEND_def py_strip_def is_py_space_def lower_ascii_def lit_def)

lemma demo_nitro_stack:
  "\<exists>env en. create_enclave_services toy_crypto (\<lambda>_. True) (\<lambda>s. s) default_config demo_env (demo_host []) None None [] = Inr (env, en)
     \<and> he_cfg env = default_config \<and> he_fr env = (\<lambda>s. s)"
proof -
  have "h_environ (demo_host []) = []" "h_exists (demo_host []) p = False" for p by (simp_all add: demo_host_def)
  then show ?thesis
    by (simp add: create_enclave_services_def create_attestation_service_def demo_resolve attestation_backends_def init_nitro_def Let_def)
qed

lemma demo_timeout: "TDQUOTE_TIMEOUT_SECONDS (\<lambda>_. True) [] = Inr 60"
proof -
  have "lit ''60'' = show_int 60" by (simp add: show_int_def show_nat.simps lit_def)
  then show ?thesis by (simp add: TDQUOTE_TIMEOUT_SECONDS_def getenv_def dget_or_def py_int_show_int)
qed

lemma demo_tdx_stack:
  "\<exists>env en. create_enclave_services toy_crypto (\<lambda>_. True) (\<lambda>s. s) default_config demo_env (demo_host []) None (Some (lit ''TDX '')) [] = Inr (env, en)"
proof -
  have e: "h_environ (demo_host []) = []" by (simp add: demo_host_def)
  have "init_tdx (\<lambda>_. True) [] b None = Inr \<lparr>tdquote_bin = b, tdquote_timeout = 60\<rparr>" for b
    by (simp add: init_tdx_def demo_timeout getenv_def dget_or_def)
  with e show ?thesis
    by (simp add: create_enclave_services_def create_attestation_service_def demo_resolve attestation_backends_def Let_def)
qed

theorem every_request_answered_witness:
  "\<exists>env en. create_enclave_services toy_crypto (\<lambda>_. True) (\<lambda>s. s) default_config demo_env (demo_host []) None None [] = Inr (env, en)
     \<and> response_ok (fst (handle_request env demo_hin (lit ''[1, 2'') en))"
proof -
  obtain env en where s: "create_enclave_services toy_crypto (\<lambda>_. True) (\<lambda>s. s) default_config demo_env (demo_host []) None None [] = Inr (env, en)"
    using demo_nitro_stack by blast
  from every_request_answered [OF this] s show ?thesis by blast
qed

theorem tdx_execution_never_succeeds_witness:
  "\<exists>env en. create_enclave_services toy_crypto (\<lambda>_. True) (\<lambda>s. s) default_config demo_env (demo_host []) None (Some (lit ''TDX '')) [] = Inr (env, en)
     \<and> dget (fst (handle_execute env demo_hin demo_request demo_enclave)) (lit ''success'') = Some (PBool False)"
proof -
  obtain env en where s: "create_enclave_services toy_crypto (\<lambda>_. True) (\<lambda>s. s) default_config demo_env (demo_host []) None (Some (lit ''TDX '')) [] = Inr (env, en)"
    using demo_tdx_stack by blast
  have "resolve_backend (h_environ (demo_host [])) (Some (lit ''TDX '')) = lit ''tdx''" by (simp add: demo_resolve(2) demo_host_def)
  from tdx_execution_never_succeeds [OF s this, of demo_request demo_sid] s show ?thesis by (auto simp: demo_request_def)
qed

text \<open>A machine with the device, which anybody may open before the start.\<close>

definition nsm_machine :: "(bytes, bytes) host" where
  "nsm_machine = (demo_host [])\<lparr>h_exists := \<lambda>_. True, h_open_nsm := Inr 3\<rparr>"

lemma demo_main:
  "\<exists>env en. main_services toy_crypto (\<lambda>_. True) (\<lambda>s. s) demo_env nsm_machine (Inr ()) (Inr ()) dev [] = Inr (protect_nsm dev, env, en)
     \<and> he_cfg env = default_config"
proof -
  have h: "h_environ nsm_machine = []" "h_exists nsm_machine p" "h_open_nsm nsm_machine = Inr 3" for p
    by (simp_all add: nsm_machine_def demo_host_def)
  have k: "create_kms_attestation cfg [] ex = None" for cfg ex by (simp add: create_kms_attestation_def)
  show ?thesis
    by (simp add: main_services_def h load_config_default demo_timeout k create_enclave_services_def create_attestation_service_def demo_resolve
        attestation_backends_def init_nitro_def open_nsm_device_def Let_def)
qed

theorem main_isolates_scripts_witness:
  "\<exists>dev env en q cr'. main_services toy_crypto (\<lambda>_. True) (\<lambda>s. s) demo_env nsm_machine (Inr ()) (Inr ())
       (Some \<lparr>pm_owner = 65534, pm_group = 65534, pm_mode = 438\<rparr>) [] = Inr (dev, env, en)
     \<and> dev = Some q \<and> child_creds default_config True root_creds = Inr cr' \<and> cr_uid cr' = 65534 \<and> \<not> may_open_rdwr cr' q"
proof -
  let ?p = "\<lparr>pm_owner = 65534, pm_group = 65534, pm_mode = 438\<rparr>"
  obtain env en where m: "main_services toy_crypto (\<lambda>_. True) (\<lambda>s. s) demo_env nsm_machine (Inr ()) (Inr ()) (Some ?p) []
      = Inr (protect_nsm (Some ?p), env, en)" and c: "he_cfg env = default_config"
    using demo_main by blast
  have "h_exists nsm_machine (lit ''/dev/nsm'')" "cr_uid root_creds = 0" "SCRIPT_UID (he_cfg env) \<noteq> 0" "SCRIPT_UID (he_cfg env) = 65534"
    by (simp_all add: nsm_machine_def root_creds_def c default_config_def)
  moreover have "as_script_user (he_cfg env) (cr_uid root_creds) (\<lambda>_. Inr ()) [(lit ''/tmp/d'', FDir demo_tree)]
      = Inr (map lit [''/tmp/d'', ''/tmp/d/lib'', ''/tmp/d/main.py'', ''/tmp/d/lib/a.txt''], True)"
    using demo_handover by (simp add: c root_creds_def)
  ultimately show ?thesis using main_isolates_scripts [OF m] m c by metis
qed

end
