(* ===== verification/Json_Prefix.thy ===== *)
theory Json_Prefix
  imports Py_Value
begin

text \<open>
  What the parser and the UTF-8 decoder do when more input arrives. A JSON object that is complete stays the value of the text so far, so an
  object is never followed by anything but white space in a longer text that parses as well. The server relies on this when it
  tries to parse what it has received after each chunk of a request without a length prefix.
\<close>

section \<open>Strings\<close>

lemma take_u_append: "take_u s = Some (u, r) \<Longrightarrow> take_u (s @ x) = Some (u, r @ x)"
  by (auto simp: take_u_def split: list.splits)

text \<open>Only a lone high surrogate at the end of the input may still become part of a pair.\<close>

lemma parse_unicode_append:
  assumes "parse_unicode s = Some (u, r)" "r \<noteq> []" "r \<noteq> [92]"
  shows "parse_unicode (s @ x) = Some (u, r @ x)"
proof -
  obtain w q where w: "take_u s = Some (w, q)" using assms(1) by (auto simp: parse_unicode_def split: option.splits)
  note w' = take_u_append [OF w, of x]
  show ?thesis
  proof (cases "is_high_surrogate w \<and> starts_with q [92, 117]")
    case True
    then obtain q' where q: "q = 92 # 117 # q'" by (auto simp: starts_with_iff)
    with assms(1) w True obtain w2 q2 where w2: "take_u q' = Some (w2, q2)"
      by (auto simp: parse_unicode_def starts_with_def split: option.splits)
    with assms(1) w w' True q take_u_append [OF w2, of x] show ?thesis
      by (auto simp: parse_unicode_def starts_with_def split: if_splits)
  next
    case False
    then have r: "r = q" using assms(1) w by (auto simp: parse_unicode_def split: if_splits)
    have "starts_with q [92, 117]" if "starts_with (q @ x) [92, 117]"
      using that assms(2,3) by (cases q; cases "tl q") (auto simp: starts_with_def r)
    then have "\<not> (is_high_surrogate w \<and> starts_with (q @ x) [92, 117])" using False by blast
    with r assms(1) w w' False show ?thesis by (auto simp: parse_unicode_def split: if_splits)
  qed
qed

lemma parse_escape_append:
  assumes "parse_escape s = Some (u, r)" "r \<noteq> []" "r \<noteq> [92]"
  shows "parse_escape (s @ x) = Some (u, r @ x)"
  using assms by (auto simp: parse_escape_def parse_unicode_append split: list.splits if_splits)

lemma parse_str_append: "parse_str s = Some (t, r) \<Longrightarrow> parse_str (s @ x) = Some (t, r @ x)"
proof (induction s arbitrary: t rule: parse_str.induct)
  case (2 c s)
  show ?case
  proof (cases "c = 92")
    case True
    with "2.prems" obtain v q t' where q: "parse_escape s = Some (v, q)" "parse_str q = Some (t', r)" "t = v # t'"
      by (auto split: option.splits)
    then have "q \<noteq> []" "q \<noteq> [92]" by (auto simp: parse_escape_def)
    with parse_escape_append [OF q(1), of x] "2.IH"(1) [OF _ True q(1) refl q(2)] True q(3) show ?thesis by simp
  next
    case False
    with "2.prems" "2.IH"(2) show ?thesis by (auto split: if_splits)
  qed
qed simp

section \<open>Numbers and literals\<close>

abbreviation goes_on :: "pystr \<Rightarrow> bool" where
  "goes_on r \<equiv> r \<noteq> [] \<and> num_end r"

lemma dropWhile_goes_on:
  "dropWhile P s \<noteq> [] \<Longrightarrow> takeWhile P (s @ x) = takeWhile P s \<and> dropWhile P (s @ x) = dropWhile P s @ x"
  by (induction s) auto

lemma parse_int_part_append:
  "parse_int_part s = Some (ds, r) \<Longrightarrow> r \<noteq> [] \<Longrightarrow> parse_int_part (s @ x) = Some (ds, r @ x)"
  using dropWhile_goes_on [of is_digit s x] by (auto simp: parse_int_part_def split: list.splits if_splits)

lemma parse_frac_append:
  assumes "parse_frac s = (f, r)" "r \<noteq> []" "f \<noteq> [] \<or> hd s \<noteq> 46"
  shows "parse_frac (s @ x) = (f, r @ x)"
proof (cases s)
  case (Cons c s')
  show ?thesis
  proof (cases "c = 46")
    case True
    with assms Cons obtain d q where q: "s' = d # q" "is_digit d" by (auto simp: parse_frac_def split: list.splits if_splits)
    with assms True Cons dropWhile_goes_on [of is_digit "d # q" x] show ?thesis by (auto simp: parse_frac_def)
  next
    case False
    with assms Cons show ?thesis by (auto simp: parse_frac_def split: list.splits if_splits)
  qed
qed (use assms in \<open>auto simp: parse_frac_def\<close>)

lemma parse_exp_append:
  assumes "parse_exp s = (e, r)" "r \<noteq> []" "e \<noteq> [] \<or> hd s \<notin> {101, 69}"
  shows "parse_exp (s @ x) = (e, r @ x)"
proof (cases s)
  case (Cons c s')
  show ?thesis
  proof (cases "c = 101 \<or> c = 69")
    case True
    with assms Cons obtain sgn ds where ds: "(case s' of d # r' \<Rightarrow> (if d = 43 \<or> d = 45 then ([d], r') else ([], s')) | [] \<Rightarrow> ([], s')) = (sgn, ds)"
      "takeWhile is_digit ds \<noteq> []" "e = c # sgn @ takeWhile is_digit ds" "r = dropWhile is_digit ds"
      by (auto simp: parse_exp_def Let_def split: prod.splits if_splits)
    have "s' \<noteq> []" using ds(1,2) by auto
    with ds(1) have "(case s' @ x of d # r' \<Rightarrow> (if d = 43 \<or> d = 45 then ([d], r') else ([], s' @ x)) | [] \<Rightarrow> ([], s' @ x)) = (sgn, ds @ x)"
      by (auto split: list.splits if_splits)
    with True Cons ds dropWhile_goes_on [of is_digit ds x] assms(2) show ?thesis by (auto simp: parse_exp_def)
  next
    case False
    with assms Cons show ?thesis by (auto simp: parse_exp_def)
  qed
qed (use assms in \<open>auto simp: parse_exp_def\<close>)

lemma num_end_hd: "goes_on r \<Longrightarrow> hd r \<noteq> 46 \<and> hd r \<notin> {101, 69}"
  by (cases r) (auto simp: num_end_def)

lemma parse_frac_id: "parse_frac s = ([], r) \<Longrightarrow> r = s"
  by (auto simp: parse_frac_def split: list.splits if_splits)

lemma parse_exp_id: "parse_exp s = ([], r) \<Longrightarrow> r = s"
  by (auto simp: parse_exp_def Let_def split: list.splits if_splits prod.splits)

lemma parse_number_append:
  assumes "parse_number fr s = Some (v, r)" "goes_on r"
  shows "parse_number fr (s @ x) = Some (v, r @ x)"
proof -
  define sign where "sign = (\<lambda>s :: pystr. case s of c # q \<Rightarrow> (if c = 45 then (True, q) else (False, s)) | [] \<Rightarrow> (False, s))"
  obtain neg s0 where n: "sign s = (neg, s0)" by fastforce
  obtain ds s1 where i: "parse_int_part s0 = Some (ds, s1)"
    using assms n by (auto simp: parse_number_def Let_def sign_def split: option.splits)
  then have "s0 \<noteq> []" by (auto simp: parse_int_part_def)
  with n have n': "sign (s @ x) = (neg, s0 @ x)" by (auto simp: sign_def split: list.splits if_splits)
  obtain f s2 where f: "parse_frac s1 = (f, s2)" by fastforce
  obtain e s3 where e: "parse_exp s2 = (e, s3)" by fastforce
  have v: "if f = [] \<and> e = [] then r = s1 else r = s3"
    using assms(1) n i f e by (auto simp: parse_number_def Let_def sign_def split: if_splits)
  have s3: "goes_on s3" using v assms(2) f e by (auto dest: parse_frac_id parse_exp_id split: if_splits)
  have s2: "s2 \<noteq> []" "e \<noteq> [] \<or> hd s2 \<notin> {101, 69}"
    using s3 e parse_exp_id [of s2 s3] num_end_hd [OF s3] by (auto simp: parse_exp_def [of "[]"])
  have s1: "s1 \<noteq> []" using f s2(1) by (auto simp: parse_frac_def)
  have h1: "f \<noteq> [] \<or> hd s1 \<noteq> 46"
  proof (cases "f = []")
    case True
    then have "s2 = s1" using f parse_frac_id by blast
    show ?thesis
    proof (cases "e = []")
      case True
      then show ?thesis using \<open>s2 = s1\<close> e num_end_hd [OF s3] parse_exp_id by auto
    next
      case False
      then show ?thesis using \<open>s2 = s1\<close> e s1 by (cases s1) (auto simp: parse_exp_def split: if_splits)
    qed
  qed simp
  have "parse_int_part (s0 @ x) = Some (ds, s1 @ x)" "parse_frac (s1 @ x) = (f, s2 @ x)" "parse_exp (s2 @ x) = (e, s3 @ x)"
    using parse_int_part_append [OF i s1] parse_frac_append [OF f s2(1) h1] parse_exp_append [OF e _ s2(2)] s3 by auto
  then show ?thesis using assms(1) n n' i f e v by (auto simp: parse_number_def Let_def sign_def split: if_splits)
qed

lemma parse_literal_append: "parse_literal s = Some (v, r) \<Longrightarrow> parse_literal (s @ x) = Some (v, r @ x)"
  by (auto simp: parse_literal_def starts_with_iff lit_Cons split: if_splits)

lemma parse_literal_number:
  assumes "parse_number fr s = Some (v, r)"
  shows "parse_literal (s @ x) = None"
proof -
  have "(\<exists>c q. s = c # q \<and> is_digit c) \<or> (\<exists>c q. s = 45 # c # q \<and> is_digit c)"
    using assms by (auto simp: parse_number_def parse_int_part_def Let_def split: list.splits if_splits option.splits)
  then show ?thesis by (auto simp: parse_literal_def starts_with_def lit_Cons)
qed

section \<open>Values\<close>

lemma skip_ws_append: "skip_ws s \<noteq> [] \<Longrightarrow> skip_ws (s @ x) = skip_ws s @ x"
  by (simp add: skip_ws_def dropWhile_goes_on)

lemma skip_ws_Nil_append: "skip_ws s = [] \<Longrightarrow> skip_ws (s @ x) = skip_ws x"
  by (simp add: skip_ws_def dropWhile_append3)

text \<open>What follows a value inside a list or an object ends a number.\<close>

lemma delimiter_goes_on: "skip_ws r = d # r' \<Longrightarrow> d \<in> {44, 93, 125} \<Longrightarrow> goes_on r"
  by (cases r) (auto simp: skip_ws_def num_end_def is_json_ws_def split: if_splits)

definition self_ending :: "pystr \<Rightarrow> bool" where
  "self_ending s \<longleftrightarrow> (case s of c # _ \<Rightarrow> c \<in> {34, 91, 123} | [] \<Rightarrow> False)"

lemma pv_step_append:
  assumes elems: "\<And>acc q v r. pelems fr n acc q = Some (v, r) \<Longrightarrow> pelems fr n acc (q @ x) = Some (v, r @ x)"
    and membs: "\<And>d q v r. pmembers fr n d q = Some (v, r) \<Longrightarrow> pmembers fr n d (q @ x) = Some (v, r @ x)"
    and res: "pv fr (Suc n) s = Some (v, r)" and follow: "self_ending s \<or> goes_on r"
  shows "pv fr (Suc n) (s @ x) = Some (v, r @ x)"
proof -
  from res obtain c q where s: "s = c # q" by (auto split: list.splits)
  consider "c = 34" | "c = 91" | "c = 123" | "c \<noteq> 34" "c \<noteq> 91" "c \<noteq> 123" by blast
  then show ?thesis
  proof cases
    case 1
    with res s show ?thesis by (auto dest: parse_str_append [of _ _ _ x])
  next
    case 2
    with res s obtain d q' where q: "skip_ws q = d # q'" by (auto split: list.splits)
    then have "skip_ws (q @ x) = d # q' @ x" using skip_ws_append [of q x] by simp
    with res s 2 q show ?thesis using elems [of "[]" "d # q'" v r] by (auto split: if_splits)
  next
    case 3
    with res s obtain d q' where q: "skip_ws q = d # q'" by (auto split: list.splits)
    then have "skip_ws (q @ x) = d # q' @ x" using skip_ws_append [of q x] by simp
    with res s 3 q show ?thesis using membs [of "[]" q' v r] by (auto split: if_splits)
  next
    case 4
    then have "goes_on r" using follow s by (simp add: self_ending_def)
    with res s 4 show ?thesis
      using parse_literal_append [of s v r x] parse_number_append [of fr s v r x] parse_literal_number [of fr s v r x]
      by (auto split: option.splits)
  qed
qed

lemma pelems_step_append:
  assumes val: "\<And>q v r. pv fr n q = Some (v, r) \<Longrightarrow> self_ending q \<or> goes_on r \<Longrightarrow> pv fr n (q @ x) = Some (v, r @ x)"
    and elems: "\<And>acc q v r. pelems fr n acc q = Some (v, r) \<Longrightarrow> pelems fr n acc (q @ x) = Some (v, r @ x)"
    and res: "pelems fr (Suc n) acc s = Some (v, r)"
  shows "pelems fr (Suc n) acc (s @ x) = Some (v, r @ x)"
proof -
  from res obtain w q where w: "pv fr n s = Some (w, q)" by (auto split: option.splits)
  from res w obtain d q' where q': "skip_ws q = d # q'" "d \<in> {44, 93}" by (auto split: list.splits if_splits)
  have v: "pv fr n (s @ x) = Some (w, q @ x)" using delimiter_goes_on [OF q'(1)] q'(2) by (intro val w) auto
  have e: "skip_ws (q @ x) = d # q' @ x" using skip_ws_append [of q x] q'(1) by simp
  show ?thesis
  proof (cases "d = 93")
    case True
    with res w q' v e show ?thesis by simp
  next
    case False
    with res w q' have p: "pelems fr n (acc @ [w]) (skip_ws q') = Some (v, r)" by auto
    then have "skip_ws q' \<noteq> []" by (cases n; cases "n - 1") auto
    with elems [OF p] False res w q' v e show ?thesis by (simp add: skip_ws_append)
  qed
qed

lemma pmembers_step_append:
  assumes val: "\<And>q v r. pv fr n q = Some (v, r) \<Longrightarrow> self_ending q \<or> goes_on r \<Longrightarrow> pv fr n (q @ x) = Some (v, r @ x)"
    and membs: "\<And>d q v r. pmembers fr n d q = Some (v, r) \<Longrightarrow> pmembers fr n d (q @ x) = Some (v, r @ x)"
    and res: "pmembers fr (Suc n) d s = Some (v, r)"
  shows "pmembers fr (Suc n) d (s @ x) = Some (v, r @ x)"
proof -
  from res obtain k q where k: "parse_str s = Some (k, q)" by (auto split: option.splits)
  from res k obtain q' where q': "skip_ws q = 58 # q'" by (auto split: list.splits if_splits)
  from res k q' obtain w p where w: "pv fr n (skip_ws q') = Some (w, p)" by (auto split: option.splits)
  from res k q' w obtain e p' where p': "skip_ws p = e # p'" "e \<in> {44, 125}" by (auto split: list.splits if_splits)
  have "skip_ws q' \<noteq> []" using w by (cases n) auto
  then have v: "pv fr n (skip_ws (q' @ x)) = Some (w, p @ x)"
    using delimiter_goes_on [OF p'(1)] p'(2) val [OF w] by (auto simp: skip_ws_append)
  note m = parse_str_append [OF k, of x] skip_ws_append [of q x] skip_ws_append [of p x]
  show ?thesis
  proof (cases "e = 125")
    case True
    with res k q' w p' m v show ?thesis by simp
  next
    case False
    with res k q' w p' obtain p2 where
      p2: "skip_ws p' = 34 # p2" "pmembers fr n (dset k w d) p2 = Some (v, r)"
      by (auto split: if_splits list.splits)
    with False res k q' w p' m v membs [OF p2(2)] skip_ws_append [of p' x] show ?thesis by simp
  qed
qed

lemma parsers_append:
  "(\<forall>s v r. pv fr n s = Some (v, r) \<longrightarrow> self_ending s \<or> goes_on r \<longrightarrow> pv fr n (s @ x) = Some (v, r @ x)) \<and>
   (\<forall>acc s v r. pelems fr n acc s = Some (v, r) \<longrightarrow> pelems fr n acc (s @ x) = Some (v, r @ x)) \<and>
   (\<forall>d s v r. pmembers fr n d s = Some (v, r) \<longrightarrow> pmembers fr n d (s @ x) = Some (v, r @ x))"
proof (induction n)
  case (Suc n)
  note v = Suc.IH [THEN conjunct1, rule_format]
    and e = Suc.IH [THEN conjunct2, THEN conjunct1, rule_format]
    and d = Suc.IH [THEN conjunct2, THEN conjunct2, rule_format]
  have "pv fr (Suc n) (s @ x) = Some (w, r @ x)" if "pv fr (Suc n) s = Some (w, r)" "self_ending s \<or> goes_on r" for s w r
    by (rule pv_step_append [of fr n x s w r]) (use e d that in blast)+
  moreover have "pelems fr (Suc n) acc (s @ x) = Some (w, r @ x)" if "pelems fr (Suc n) acc s = Some (w, r)" for acc s w r
    by (rule pelems_step_append [of fr n x acc s w r]) (use v e that in blast)+
  moreover have "pmembers fr (Suc n) a (s @ x) = Some (w, r @ x)" if "pmembers fr (Suc n) a s = Some (w, r)" for a s w r
    by (rule pmembers_step_append [of fr n x a s w r]) (use v d that in blast)+
  ultimately show ?case by blast
qed simp

lemma pv_append:
  assumes "pv fr (Suc (2 * length s)) s = Some (v, r)" "self_ending s"
  shows "pv fr (Suc (2 * length (s @ x))) (s @ x) = Some (v, r @ x)"
proof -
  have "pv fr (Suc (2 * length (s @ x))) s = Some (v, r)"
    using pv_fuel [of s "Suc (2 * length (s @ x))" fr] assms(1) by (simp del: pv.simps)
  with parsers_append [of fr "Suc (2 * length (s @ x))" x] assms(2) show ?thesis by blast
qed

text \<open>Two texts that both parse, one a prefix of the other and an object, differ in white space only.\<close>

lemma json_object_prefix:
  assumes "json_loads fr (123 # s) = Some v" "json_loads fr ((123 # s) @ x) = Some w"
  shows "skip_ws x = [] \<and> w = v"
proof -
  have h: "skip_ws (123 # s) = 123 # s" "\<not> starts_with (123 # s) [0xFEFF]" for s
    by (simp_all add: skip_ws_def is_json_ws_def starts_with_def)
  obtain r where r: "pv fr (Suc (2 * length (123 # s))) (123 # s) = Some (v, r)" "skip_ws r = []"
    using assms(1) by (simp only: json_loads_def h if_False) (auto split: option.splits if_splits simp del: pv.simps)
  have "self_ending (123 # s)" by (simp add: self_ending_def)
  from pv_append [OF r(1) this, of x] assms(2) have "skip_ws (r @ x) = [] \<and> w = v"
    using h(1) [of "s @ x"] h(2) [of "s @ x"] unfolding append_Cons
    by (simp only: json_loads_def if_False) (auto split: option.splits if_splits simp del: pv.simps)
  with skip_ws_Nil_append [OF r(2), of x] show ?thesis by simp
qed

section \<open>UTF-8\<close>

lemma append_fun: "(@) (v # z) = (\<lambda>y. v # z @ y)"
  by (simp add: fun_eq_iff)

lemma utf8_dec_append: "utf8_dec a = Some p \<Longrightarrow> utf8_dec (a @ b) = map_option ((@) p) (utf8_dec b)"
proof (induction a arbitrary: p rule: utf8_dec.induct)
  case 1
  then show ?case by (cases "utf8_dec b") auto
next
  case (2 a r)
  consider "a < 0x80" | "0xC2 \<le> a" "a \<le> 0xDF" | "0xE0 \<le> a" "a \<le> 0xEF" | "0xF0 \<le> a" "a \<le> 0xF4"
    using "2.prems" by (auto split: if_splits)
  then show ?case
  proof cases
    case 1
    with "2.prems" obtain q where "utf8_dec r = Some q" "p = a # q" by auto
    with "2.IH"(1) 1 show ?thesis by (simp add: option.map_comp comp_def append_fun)
  next
    case 2
    with "2.prems" obtain c r1 q where "r = c # r1" "is_cont c" "utf8_dec r1 = Some q" "p = ((a - 0xC0) * 64 + (c - 128)) # q"
      by (auto split: list.splits if_splits)
    with "2.IH"(2) 2 show ?thesis by (simp add: option.map_comp comp_def append_fun)
  next
    case 3
    with "2.prems" obtain c d r1 where r: "r = c # d # r1" by (auto split: list.splits)
    with 3 "2.prems" "2.IH"(3) show ?thesis by (auto simp: Let_def option.map_comp comp_def append_fun split: if_splits)
  next
    case 4
    with "2.prems" obtain c d e r1 where r: "r = c # d # e # r1" by (auto split: list.splits)
    with 4 "2.prems" "2.IH"(4) show ?thesis by (auto simp: Let_def option.map_comp comp_def append_fun split: if_splits)
  qed
qed

lemma py_decode_append:
  assumes "py_decode b = Inr p" "py_decode (b @ b') = Inr s"
  obtains x where "s = p @ x" "py_decode b' = Inr x"
  using assms utf8_dec_append [of "map unat b" p "map unat b'"] that
  by (auto simp: py_decode_def bytes_decode_def split: option.splits)

end
