(* ===== verification/Enclave_Server.thy ===== *)
theory Enclave_Server
  imports Enclave_Factory Json_Prefix
begin

text \<open>
  \<^verbatim>\<open>server/server.py\<close>: how a request is read from a connection and an answer written to it. A connection is the list of what its \<^verbatim>\<open>recv\<close> calls will see:
  segments of bytes, cut by the network as it likes, or an exception (\<^verbatim>\<open>socket.timeout\<close> is \<open>SocketTimeout\<close>); after them the peer has closed. Writing is the
  argument \<open>send\<close>, which says how \<^verbatim>\<open>sendall\<close> ends. The accept loop, one thread per connection, is the sequence of
  \<open>handle_client\<close> runs; the interleaving of threads on the session store is inside \<open>handle_request\<close>.
\<close>

section \<open>Receiving\<close>

datatype segment = Seg bytes | Fail pyexn

type_synonym conn = "segment list"

text \<open>\<^verbatim>\<open>sock.recv(n)\<close> for positive n: at most n bytes of the next segment; nothing means that the peer closed.\<close>

fun sock_recv :: "nat \<Rightarrow> conn \<Rightarrow> bytes res \<times> conn" where
  "sock_recv n [] = (Inr [], [])"
| "sock_recv n (Fail e # c) = (Inl e, c)"
| "sock_recv n (Seg b # c) = (if length b \<le> n then (Inr b, c) else (Inr (take n b), Seg (drop n b) # c))"

lemma sock_recv_length: "sock_recv n c = (Inr b, c') \<Longrightarrow> length b \<le> n"
  by (cases "(n, c)" rule: sock_recv.cases) (auto split: if_splits)

function recv_exact_loop :: "nat \<Rightarrow> bytes \<Rightarrow> conn \<Rightarrow> bytes option res \<times> conn" where
  "recv_exact_loop n buf c =
     (if length buf < n
      then case sock_recv (n - length buf) c of
             (Inl e, c') \<Rightarrow> (Inl e, c')
           | (Inr chunk, c') \<Rightarrow> (if chunk = [] then (Inr None, c') else recv_exact_loop n (buf @ chunk) c')
      else (Inr (Some buf), c))"
  by pat_completeness auto
termination
  by (relation "measure (\<lambda>(n, buf, c). n - length buf)") (auto simp: neq_Nil_conv)

declare recv_exact_loop.simps [simp del]

definition recv_exact :: "nat \<Rightarrow> conn \<Rightarrow> bytes option res \<times> conn" where
  "recv_exact n c = recv_exact_loop n [] c"

text \<open>The loop for requests without a length prefix. A chunk that ends in a closing brace is followed by a test whether everything so far is
  valid UTF-8 and JSON.\<close>

definition complete_json :: "(pystr \<Rightarrow> pystr) \<Rightarrow> bytes \<Rightarrow> pystr option" where
  "complete_json fr data =
     (case py_decode data of Inr s \<Rightarrow> (if json_loads fr s \<noteq> None then Some s else None) | Inl _ \<Rightarrow> None)"

function recv_raw_loop :: "(pystr \<Rightarrow> pystr) \<Rightarrow> nat \<Rightarrow> bytes \<Rightarrow> conn \<Rightarrow> pystr res \<times> conn" where
  "recv_raw_loop fr max_size data c =
     (if length data < max_size
      then case sock_recv (min 65536 (max_size - length data)) c of
             (Inl e, c') \<Rightarrow> (Inl e, c')
           | (Inr chunk, c') \<Rightarrow>
               (if chunk = [] then (py_decode data, c')
                else case (if ends_with chunk [125] then complete_json fr (data @ chunk) else None) of
                       Some s \<Rightarrow> (Inr s, c')
                     | None \<Rightarrow> recv_raw_loop fr max_size (data @ chunk) c')
      else (py_decode data, c))"
  by pat_completeness auto
termination
  by (relation "measure (\<lambda>(fr, m, data, c). m - length data)") (auto simp: neq_Nil_conv)

declare recv_raw_loop.simps [simp del]

definition recv_raw_json :: "(pystr \<Rightarrow> pystr) \<Rightarrow> config \<Rightarrow> bytes \<Rightarrow> conn \<Rightarrow> pystr res \<times> conn" where
  "recv_raw_json fr cfg initial c = recv_raw_loop fr (nat (MAX_REQUEST_SIZE cfg)) initial c"

section \<open>Sending\<close>

definition HEADER_SIZE :: nat where "HEADER_SIZE = 4"

definition is_socket_error :: "pyexn \<Rightarrow> bool" where
  "is_socket_error e \<longleftrightarrow> exn_class e = OSError \<or> exn_class e = SocketTimeout"

text \<open>\<^verbatim>\<open>json.dumps(response).encode('utf-8')\<close>, and the length in front. \<^verbatim>\<open>struct.pack('!I', n)\<close> raises for a length of 4 GiB or more.\<close>

definition json_payload :: "pyval dict \<Rightarrow> bytes res" where
  "json_payload response = rbind (json_dumps False False (PDict response)) str_encode"

definition add_header :: "bytes \<Rightarrow> bytes res" where
  "add_header payload =
     (if length payload < 2 ^ 32 then Inr (be_bytes 4 (length payload) @ payload)
      else Inl (Exn OtherError (lit ''argument out of range'')))"

text \<open>\<open>Inr sent\<close> is what \<^verbatim>\<open>sendall\<close> was given; socket errors end in a log line; any other exception leaves the method.\<close>

definition send_bytes :: "(bytes \<Rightarrow> unit res) \<Rightarrow> bytes res \<Rightarrow> bytes option res" where
  "send_bytes send r =
     (case rbind r (\<lambda>bs. rbind (send bs) (\<lambda>_. Inr bs)) of
        Inr bs \<Rightarrow> Inr (Some bs)
      | Inl e \<Rightarrow> if is_socket_error e then Inr None else Inl e)"

definition send_response :: "(bytes \<Rightarrow> unit res) \<Rightarrow> pyval dict \<Rightarrow> bytes option res" where
  "send_response send response = send_bytes send (rbind (json_payload response) add_header)"

definition send_response_raw :: "(bytes \<Rightarrow> unit res) \<Rightarrow> pyval dict \<Rightarrow> bytes option res" where
  "send_response_raw send response = send_bytes send (json_payload response)"

definition send_error :: "(bytes \<Rightarrow> unit res) \<Rightarrow> string \<Rightarrow> bytes option res" where
  "send_error send msg = send_response send [(lit ''success'', PBool False), (lit ''error'', pstr msg)]"

section \<open>A connection\<close>

text \<open>Either the request text and whether it was framed, or what was sent instead of reading one.\<close>

datatype received = Request pystr bool | NoRequest "bytes option res"

definition recv_request :: "(pystr \<Rightarrow> pystr) \<Rightarrow> config \<Rightarrow> (bytes \<Rightarrow> unit res) \<Rightarrow> conn \<Rightarrow> received" where
  "recv_request fr cfg send c =
     (let caught = (\<lambda>e. NoRequest (send_error send (if exn_class e = SocketTimeout then ''Request timeout'' else ''Server error''))) in
      case recv_exact HEADER_SIZE c of
        (Inl e, _) \<Rightarrow> caught e
      | (Inr None, _) \<Rightarrow> NoRequest (Inr None)
      | (Inr (Some first_bytes), c1) \<Rightarrow>
          (if take 1 first_bytes = [0x7B]
           then case recv_raw_json fr cfg first_bytes c1 of
                  (Inl e, _) \<Rightarrow> caught e
                | (Inr s, _) \<Rightarrow> Request s False
           else let msg_len = be_nat first_bytes in
             if msg_len = 0 \<or> int msg_len > MAX_REQUEST_SIZE cfg
             then NoRequest (send_error send ''Invalid message length'')
             else case recv_exact msg_len c1 of
                    (Inl e, _) \<Rightarrow> caught e
                  | (Inr None, _) \<Rightarrow> NoRequest (send_error send ''Incomplete message'')
                  | (Inr (Some body), _) \<Rightarrow> (case py_decode body of Inl e \<Rightarrow> caught e | Inr s \<Rightarrow> Request s True)))"

definition handle_client ::
    "'key handler_env \<Rightarrow> handler_inputs \<Rightarrow> (bytes \<Rightarrow> unit res) \<Rightarrow> conn \<Rightarrow> enclave \<Rightarrow> bytes option res \<times> enclave" where
  "handle_client env i send c en =
     (case recv_request (he_fr env) (he_cfg env) send c of
        NoRequest r \<Rightarrow> (r, en)
      | Request text use_framing \<Rightarrow>
          (case handle_request env i text en of
             (response, en') \<Rightarrow> (if use_framing then send_response send response else send_response_raw send response, en')))"

text \<open>\<^verbatim>\<open>_handle_client_safe\<close>: an exception that is left ends in a log line; the socket is closed in any case.\<close>

definition handle_client_safe ::
    "'key handler_env \<Rightarrow> handler_inputs \<Rightarrow> (bytes \<Rightarrow> unit res) \<Rightarrow> conn \<Rightarrow> enclave \<Rightarrow> bytes option \<times> enclave" where
  "handle_client_safe env i send c en =
     (case handle_client env i send c en of (r, en') \<Rightarrow> (case r of Inr sent \<Rightarrow> sent | Inl _ \<Rightarrow> None, en'))"

section \<open>Reading exactly n bytes\<close>

fun conn_bytes :: "conn \<Rightarrow> bytes" where
  "conn_bytes [] = []"
| "conn_bytes (Seg b # c) = b @ conn_bytes c"
| "conn_bytes (Fail e # c) = conn_bytes c"

text \<open>A connection without failures and without empty segments (which would mean the end of the stream).\<close>

definition clean :: "conn \<Rightarrow> bool" where
  "clean c \<longleftrightarrow> list_all (\<lambda>s. case s of Seg b \<Rightarrow> b \<noteq> [] | Fail _ \<Rightarrow> False) c"

lemma clean_recv:
  assumes "clean c" "0 < n"
  shows "\<exists>b c'. sock_recv n c = (Inr b, c') \<and> clean c' \<and> conn_bytes c = b @ conn_bytes c' \<and> length b \<le> n \<and> (b = [] \<longleftrightarrow> conn_bytes c = [])"
proof (cases c)
  case (Cons s c2)
  then obtain b where "s = Seg b" "b \<noteq> []" using assms(1) by (cases s) (auto simp: clean_def)
  with assms Cons show ?thesis by (cases "length b \<le> n") (auto simp: clean_def)
qed (simp add: clean_def)

lemma recv_exact_loop_clean:
  assumes "clean c" "length buf \<le> n"
  shows "\<exists>c'. clean c' \<and> (if n \<le> length buf + length (conn_bytes c)
     then recv_exact_loop n buf c = (Inr (Some (buf @ take (n - length buf) (conn_bytes c))), c')
        \<and> conn_bytes c' = drop (n - length buf) (conn_bytes c)
     else recv_exact_loop n buf c = (Inr None, c'))"
  using assms
proof (induction n buf c rule: recv_exact_loop.induct)
  case (1 n buf c)
  show ?case
  proof (cases "length buf < n")
    case False
    with "1.prems" show ?thesis by (intro exI [of _ c]) (simp add: recv_exact_loop.simps)
  next
    case True
    obtain b c1 where b: "sock_recv (n - length buf) c = (Inr b, c1)" "clean c1" "conn_bytes c = b @ conn_bytes c1"
      "length b \<le> n - length buf" "b = [] \<longleftrightarrow> conn_bytes c = []"
      using clean_recv [OF "1.prems"(1), of "n - length buf"] True by auto
    show ?thesis
    proof (cases "b = []")
      case True
      with b \<open>length buf < n\<close> show ?thesis by (intro exI [of _ c1]) (simp add: recv_exact_loop.simps [of n buf])
    next
      case False
      have l: "length (buf @ b) \<le> n" using b(4) True by simp
      obtain c' where "clean c'" "if n \<le> length (buf @ b) + length (conn_bytes c1)
          then recv_exact_loop n (buf @ b) c1 = (Inr (Some ((buf @ b) @ take (n - length (buf @ b)) (conn_bytes c1))), c')
            \<and> conn_bytes c' = drop (n - length (buf @ b)) (conn_bytes c1)
          else recv_exact_loop n (buf @ b) c1 = (Inr None, c')"
        using "1.IH" [OF True b(1) [symmetric] refl False b(2) l] by blast
      with b False True show ?thesis
        by (intro exI [of _ c']) (simp add: recv_exact_loop.simps [of n buf] min_def split: if_splits)
    qed
  qed
qed

text \<open>\<^verbatim>\<open>_recv_exact\<close> is exact whatever the network does: for every way to cut a stream into segments it returns the first n bytes and
  leaves exactly the rest, and when the peer closes before n bytes it returns nothing.\<close>

theorem recv_exact_spec:
  assumes "clean c"
  shows "if n \<le> length (conn_bytes c)
    then \<exists>c'. recv_exact n c = (Inr (Some (take n (conn_bytes c))), c') \<and> clean c' \<and> conn_bytes c' = drop n (conn_bytes c)
    else \<exists>c'. recv_exact n c = (Inr None, c')"
  using recv_exact_loop_clean [OF assms, of "[]" n] by (auto simp: recv_exact_def)

section \<open>Size limits\<close>

lemma recv_exact_loop_length:
  "recv_exact_loop n buf c = (Inr (Some b), c') \<Longrightarrow> length buf \<le> n \<Longrightarrow> length b = n"
proof (induction n buf c rule: recv_exact_loop.induct)
  case (1 n buf c)
  show ?case
  proof (cases "length buf < n")
    case False
    with "1.prems" show ?thesis by (simp add: recv_exact_loop.simps)
  next
    case True
    obtain r c1 where r: "sock_recv (n - length buf) c = (r, c1)" by fastforce
    with "1.prems"(1) True obtain chunk where ch: "r = Inr chunk" "chunk \<noteq> []" "recv_exact_loop n (buf @ chunk) c1 = (Inr (Some b), c')"
      by (auto simp: recv_exact_loop.simps [of n buf] split: sum.splits if_splits)
    have "length (buf @ chunk) \<le> n" using sock_recv_length [OF r [unfolded ch(1)]] True by simp
    from "1.IH" [OF True r [symmetric] ch(1,2) ch(3) this] show ?thesis .
  qed
qed

lemma recv_raw_loop_bound:
  "recv_raw_loop fr m data c = (Inr s, c') \<Longrightarrow> length data \<le> m \<Longrightarrow> \<exists>body. py_decode body = Inr s \<and> length body \<le> m"
proof (induction fr m data c rule: recv_raw_loop.induct)
  case (1 fr m data c)
  show ?case
  proof (cases "length data < m")
    case False
    with "1.prems" show ?thesis by (auto simp: recv_raw_loop.simps)
  next
    case True
    obtain r c1 where r: "sock_recv (min 65536 (m - length data)) c = (r, c1)" by fastforce
    show ?thesis
    proof (cases r)
      case (Inl e)
      with "1.prems"(1) True r show ?thesis by (simp add: recv_raw_loop.simps [of fr m data])
    next
      case (Inr chunk)
      have l: "length (data @ chunk) \<le> m" using sock_recv_length [OF r [unfolded Inr]] True by auto
      let ?t = "if ends_with chunk [125] then complete_json fr (data @ chunk) else None"
      consider "chunk = []" | s' where "chunk \<noteq> []" "?t = Some s'" | "chunk \<noteq> []" "?t = None" by (cases ?t) auto
      then show ?thesis
      proof cases
        case 1
        with "1.prems" True r Inr show ?thesis by (auto simp: recv_raw_loop.simps [of fr m data])
      next
        case (2 s')
        with "1.prems"(1) True r Inr have "s = s'" by (simp add: recv_raw_loop.simps [of fr m data])
        moreover have "py_decode (data @ chunk) = Inr s'"
          using 2(2) by (auto simp: complete_json_def split: if_splits sum.splits)
        ultimately show ?thesis using l by blast
      next
        case 3
        with "1.prems"(1) True r Inr have "recv_raw_loop fr m (data @ chunk) c1 = (Inr s, c')"
          by (simp add: recv_raw_loop.simps [of fr m data])
        from "1.IH" [OF True r [symmetric] Inr 3(1,2) this l] show ?thesis .
      qed
    qed
  qed
qed

text \<open>C28: No request is larger than the configured limit: whatever the peer sends, framed or raw, in whatever pieces, the text that reaches the
  handler decodes from at most \<^verbatim>\<open>MAX_REQUEST_SIZE\<close> bytes.\<close>

theorem request_size_bounded:
  assumes "recv_request fr cfg send c = Request s use_framing" "4 \<le> MAX_REQUEST_SIZE cfg"
  shows "\<exists>body. py_decode body = Inr s \<and> int (length body) \<le> MAX_REQUEST_SIZE cfg"
proof -
  obtain r c1 where r: "recv_exact HEADER_SIZE c = (r, c1)" by fastforce
  with assms(1) obtain first where first: "r = Inr (Some first)"
    by (auto simp: recv_request_def Let_def split: sum.splits option.splits)
  have l: "length first = 4"
    using r recv_exact_loop_length [of 4 "[]" c first c1] by (simp add: first recv_exact_def HEADER_SIZE_def)
  show ?thesis
  proof (cases "take 1 first = [0x7B]")
    case True
    with assms(1) r first obtain c2 where "recv_raw_json fr cfg first c1 = (Inr s, c2)"
      by (auto simp: recv_request_def Let_def split: sum.splits prod.splits)
    with recv_raw_loop_bound [of fr "nat (MAX_REQUEST_SIZE cfg)" first c1 s c2] l assms(2) show ?thesis
      by (auto simp: recv_raw_json_def nat_le_iff le_nat_iff)
  next
    case False
    obtain q c2 where q: "recv_exact (be_nat first) c1 = (q, c2)" by fastforce
    from assms(1) r first False q obtain body where b: "q = Inr (Some body)" "py_decode body = Inr s" "int (be_nat first) \<le> MAX_REQUEST_SIZE cfg"
      by (auto simp: recv_request_def Let_def split: sum.splits option.splits if_splits)
    have "length body = be_nat first"
      using q recv_exact_loop_length [of "be_nat first" "[]" c1 body c2] by (simp add: b recv_exact_def)
    with b show ?thesis by auto
  qed
qed

section \<open>Framed exchanges\<close>

text \<open>The limit is below \<^verbatim>\<open>0x7B000000\<close>, so the first byte of a length header is never an opening brace.\<close>

lemma header_not_brace:
  assumes "n < 0x7B000000"
  shows "take 1 (be_bytes 4 n) \<noteq> [0x7B]"
proof
  assume "take 1 (be_bytes 4 n) = [0x7B]"
  moreover have "(4 :: nat) = Suc (Suc (Suc (Suc 0)))" by simp
  then have "be_bytes 4 n = [of_nat (n div 256 div 256 div 256 mod 256), of_nat (n div 256 div 256 mod 256),
      of_nat (n div 256 mod 256), of_nat (n mod 256)]"
    by (simp only: be_bytes.simps append.simps)
  ultimately have "(of_nat (n div 256 div 256 div 256 mod 256) :: byte) = 0x7B" by (simp del: be_bytes.simps)
  then have "unat (of_nat (n div 256 div 256 div 256 mod 256) :: byte) = 0x7B" by simp
  moreover have "n div 256 div 256 div 256 < 0x7B" using assms by (simp add: div_mult2_eq [symmetric] less_mult_imp_div_less)
  ultimately show False by (simp add: unat_of_nat_byte)
qed

lemma recv_framed:
  assumes "clean c" "conn_bytes c = be_bytes 4 (length body) @ body @ rest"
    and "body \<noteq> []" "int (length body) \<le> MAX_REQUEST_SIZE cfg" "MAX_REQUEST_SIZE cfg < 0x7B000000"
    and "py_decode body = Inr text"
  shows "recv_request fr cfg send c = Request text True"
proof -
  have n: "length body < 0x7B000000" using assms(4,5) by linarith
  obtain c1 where c1: "recv_exact 4 c = (Inr (Some (be_bytes 4 (length body))), c1)" "clean c1" "conn_bytes c1 = body @ rest"
    using recv_exact_loop_clean [OF assms(1), of "[]" 4] assms(2) by (auto simp: recv_exact_def simp del: be_bytes.simps)
  obtain c2 where c2: "recv_exact (length body) c1 = (Inr (Some body), c2)"
    using recv_exact_loop_clean [OF c1(2), of "[]" "length body"] c1(3) by (auto simp: recv_exact_def)
  have "be_nat (be_bytes 4 (length body)) = length body" using n by (intro be_nat_be_bytes) simp
  with c1(1) c2 header_not_brace [OF n] assms(3,4,6) show ?thesis
    by (simp add: recv_request_def HEADER_SIZE_def Let_def del: be_bytes.simps)
qed

text \<open>Answers print as ASCII when the texts of their floats are ASCII.\<close>

fun ascii_floats :: "pyval \<Rightarrow> bool" where
  "ascii_floats (PFloat f) = list_all (\<lambda>c. c < 128) f"
| "ascii_floats (PList xs) = list_all ascii_floats xs"
| "ascii_floats (PDict d) = list_all (\<lambda>(k, v). ascii_floats v) d"
| "ascii_floats _ = True"

lemma json_text_ascii_floats: "ascii_floats v \<Longrightarrow> \<forall>c \<in> set (json_text so cp v). c < 128"
proof (induction so cp v rule: json_text.induct)
  case (7 so cp xs)
  then have "\<And>x c. x \<in> set xs \<Longrightarrow> c \<in> set (json_text so cp x) \<Longrightarrow> c < 128" by (auto simp: list_all_iff)
  then show ?case by (auto dest!: join_with_set seps_ascii)
next
  case (8 so cp d)
  then have "\<And>k v c. (k, v) \<in> set d \<Longrightarrow> c \<in> set (json_text so cp v) \<Longrightarrow> c < 128" by (force simp: list_all_iff)
  then show ?case using json_str_ascii by (auto dest!: join_with_set seps_ascii)
qed (auto simp: show_int_ascii json_str_ascii lit_Cons float_text_def list_all_iff)

lemma json_payload_ok:
  assumes "plain (PDict r)" "ascii_floats (PDict r)"
  shows "json_payload r = Inr (map of_nat (json_text False False (PDict r)))"
proof -
  have "str_encode (json_text False False (PDict r)) = Inr (map of_nat (json_text False False (PDict r)))"
    using json_text_ascii_floats [OF assms(2), of False False] by (intro str_encode_ascii) blast
  with assms(1) show ?thesis by (simp add: json_payload_def json_dumps_def del: json_text.simps has_bytes.simps)
qed

lemma send_response_ok:
  assumes "plain (PDict r)" "ascii_floats (PDict r)" "\<And>bs. send bs = Inr ()" "length (json_text False False (PDict r)) < 2 ^ 32"
  shows "send_response send r = Inr (Some (be_bytes 4 (length (json_text False False (PDict r))) @ map of_nat (json_text False False (PDict r))))"
  using json_payload_ok [OF assms(1,2)] assms(3,4)
  by (simp add: send_response_def send_bytes_def add_header_def del: json_text.simps be_bytes.simps has_bytes.simps)

text \<open>C6: A framed request gets a framed answer. For every stack the factory wires, every way the network cuts the bytes of a length-prefixed UTF-8 request
  within the size limit, and a peer that reads its answer, the server sends exactly one frame: four bytes of length and then the JSON text of
  what \<^verbatim>\<open>handle_request\<close> returned for this very text, which is an object with a verdict.\<close>

theorem framed_exchange:
  assumes "create_enclave_services cr pr fr cfg xe h k backend d = Inr (env, en0)"
    and "clean c" "conn_bytes c = be_bytes 4 (length body) @ body @ rest" "py_decode body = Inr text"
    and "body \<noteq> []" "int (length body) \<le> MAX_REQUEST_SIZE cfg" "MAX_REQUEST_SIZE cfg < 0x7B000000"
    and "\<And>bs. send bs = Inr ()" "ascii_floats (PDict (fst (handle_request env i text en)))"
    and "length (json_text False False (PDict (fst (handle_request env i text en)))) < 2 ^ 32"
  shows "\<exists>sent. handle_client_safe env i send c en = (Some sent, snd (handle_request env i text en))
    \<and> be_nat (take 4 sent) = length (drop 4 sent)
    \<and> drop 4 sent = map of_nat (json_text False False (PDict (fst (handle_request env i text en))))
    \<and> response_ok (fst (handle_request env i text en))"
proof -
  have s: "he_cfg env = cfg" using assms(1) by (auto simp: create_enclave_services_def rbind_eq_Inr_iff)
  have ok: "response_ok (fst (handle_request env i text en))" by (rule stack_response_ok [OF assms(1)])
  obtain r en' where r: "handle_request env i text en = (r, en')" by fastforce
  have "recv_request (he_fr env) (he_cfg env) send c = Request text True"
    using assms(2-7) s by (intro recv_framed) simp_all
  moreover have p: "plain (PDict r)" using ok r by (simp add: response_ok_def del: has_bytes.simps)
  ultimately have "handle_client_safe env i send c en
      = (Some (be_bytes 4 (length (json_text False False (PDict r))) @ map of_nat (json_text False False (PDict r))), en')"
    using send_response_ok [OF p] assms(8-10) r
    by (simp add: handle_client_safe_def handle_client_def del: json_text.simps be_bytes.simps has_bytes.simps ascii_floats.simps)
  moreover have "be_nat (be_bytes 4 (length (json_text False False (PDict r)))) = length (json_text False False (PDict r))"
    using assms(10) r by (intro be_nat_be_bytes) simp
  ultimately show ?thesis using ok r by (simp del: json_text.simps be_bytes.simps)
qed

section \<open>Requests without a length prefix\<close>

lemma ws_last: "skip_ws x = [] \<Longrightarrow> x \<noteq> [] \<Longrightarrow> last x \<noteq> 125"
  by (auto simp: skip_ws_def is_json_ws_def dest!: last_in_set)

text \<open>While the bytes arrive, no proper prefix of an object is taken for the whole request.\<close>

lemma complete_json_whole:
  assumes "complete_json fr b = Some p" "py_decode (b @ b') = Inr text" "text = 123 # t" "last text = 125" "json_loads fr text \<noteq> None"
  shows "p = text"
proof -
  have p: "py_decode b = Inr p" "json_loads fr p \<noteq> None"
    using assms(1) by (auto simp: complete_json_def split: sum.splits if_splits)
  obtain x where x: "text = p @ x" by (rule py_decode_append [OF p(1) assms(2)])
  have "p \<noteq> []" using p(2) by (auto simp: json_loads_def skip_ws_def starts_with_def)
  with x assms(3) obtain t' where t': "p = 123 # t'" by (cases p) auto
  with p(2) assms(5) x json_object_prefix [of fr t' _ x] have "skip_ws x = []" by auto
  with ws_last [of x] assms(4) x show ?thesis by (cases "x = []") auto
qed

lemma recv_raw_loop_whole:
  assumes "clean c" "py_decode (data @ conn_bytes c) = Inr text" "length (data @ conn_bytes c) \<le> m"
    and "text = 123 # t" "last text = 125" "json_loads fr text \<noteq> None"
  shows "fst (recv_raw_loop fr m data c) = Inr text"
  using assms
proof (induction fr m data c rule: recv_raw_loop.induct)
  case (1 fr m data c)
  show ?case
  proof (cases "length data < m")
    case False
    with "1.prems"(3) have "length (conn_bytes c) = 0" unfolding length_append by linarith
    then have "conn_bytes c = []" by simp
    with False "1.prems"(2) show ?thesis by (simp add: recv_raw_loop.simps)
  next
    case True
    then obtain b c1 where b: "sock_recv (min 65536 (m - length data)) c = (Inr b, c1)" "clean c1" "conn_bytes c = b @ conn_bytes c1"
      "b = [] \<longleftrightarrow> conn_bytes c = []"
      using clean_recv [OF "1.prems"(1), of "min 65536 (m - length data)"] by auto
    have d: "py_decode ((data @ b) @ conn_bytes c1) = Inr text" using "1.prems"(2) b(3) by simp
    let ?t = "if ends_with b [125] then complete_json fr (data @ b) else None"
    consider "b = []" | p where "b \<noteq> []" "?t = Some p" | "b \<noteq> []" "?t = None" by (cases ?t) auto
    then show ?thesis
    proof cases
      case 1
      with True b "1.prems"(2) show ?thesis by (simp add: recv_raw_loop.simps [of fr m data])
    next
      case (2 p)
      then have "p = text" using complete_json_whole [OF _ d "1.prems"(4-6)] by (auto split: if_splits)
      with True b 2 show ?thesis by (simp add: recv_raw_loop.simps [of fr m data])
    next
      case 3
      have "fst (recv_raw_loop fr m (data @ b) c1) = Inr text"
        using "1.prems"(3) b(3) by (intro "1.IH" [OF True b(1) [symmetric] refl 3 b(2) d _ "1.prems"(4-6)]) simp
      with True b 3 show ?thesis by (simp add: recv_raw_loop.simps [of fr m data])
    qed
  qed
qed

lemma decode_brace: "py_decode (0x7B # bs) = Inr text \<Longrightarrow> \<exists>t. text = 123 # t"
  by (auto simp: py_decode_def bytes_decode_def split: option.splits)

lemma recv_raw:
  assumes "clean c" "conn_bytes c = 0x7B # bs" "py_decode (0x7B # bs) = Inr text"
    and "4 \<le> length (0x7B # bs)" "int (length (0x7B # bs)) \<le> MAX_REQUEST_SIZE cfg"
    and "last text = 125" "json_loads fr text \<noteq> None"
  shows "recv_request fr cfg send c = Request text False"
proof -
  let ?body = "0x7B # bs"
  obtain c1 where c1: "recv_exact 4 c = (Inr (Some (take 4 ?body)), c1)" "clean c1" "conn_bytes c1 = drop 4 ?body"
    using recv_exact_loop_clean [OF assms(1), of "[]" 4] assms(2,4) by (auto simp: recv_exact_def)
  obtain t where t: "text = 123 # t" using decode_brace [OF assms(3)] by blast
  have w: "take 4 ?body @ conn_bytes c1 = ?body" using c1(3) by (metis append_take_drop_id)
  have "fst (recv_raw_loop fr (nat (MAX_REQUEST_SIZE cfg)) (take 4 ?body) c1) = Inr text"
  proof (rule recv_raw_loop_whole [OF c1(2) _ _ t assms(6,7)])
    show "py_decode (take 4 ?body @ conn_bytes c1) = Inr text" unfolding w by (rule assms(3))
    show "length (take 4 ?body @ conn_bytes c1) \<le> nat (MAX_REQUEST_SIZE cfg)" unfolding w using assms(5) by (simp add: le_nat_iff)
  qed
  then obtain c2 where "recv_raw_json fr cfg (take 4 ?body) c1 = (Inr text, c2)"
    by (metis recv_raw_json_def prod.collapse)
  moreover have "take 1 (take 4 ?body) = [0x7B]" by simp
  ultimately show ?thesis using c1(1) by (simp add: recv_request_def HEADER_SIZE_def Let_def del: take_Suc_Cons)
qed

lemma raw_served:
  assumes "create_enclave_services cr pr fr cfg xe h k backend d = Inr (env, en0)"
    and "clean c" "conn_bytes c = 0x7B # bs" "py_decode (0x7B # bs) = Inr text"
    and "4 \<le> length (0x7B # bs)" "int (length (0x7B # bs)) \<le> MAX_REQUEST_SIZE cfg"
    and "last text = 125" "json_loads fr text \<noteq> None"
    and "\<And>bs. send bs = Inr ()" "ascii_floats (PDict (fst (handle_request env i text en)))"
  shows "handle_client_safe env i send c en
      = (Some (map of_nat (json_text False False (PDict (fst (handle_request env i text en))))), snd (handle_request env i text en))
    \<and> response_ok (fst (handle_request env i text en))"
proof -
  obtain r en' where r: "handle_request env i text en = (r, en')" by fastforce
  have ok: "response_ok (fst (handle_request env i text en))" by (rule stack_response_ok [OF assms(1)])
  have s: "he_fr env = fr" "he_cfg env = cfg"
    using assms(1) by (auto simp: create_enclave_services_def rbind_eq_Inr_iff)
  have "recv_request (he_fr env) (he_cfg env) send c = Request text False"
    using assms(2-8) s by (intro recv_raw) simp_all
  moreover have p: "plain (PDict r)" using ok r by (simp add: response_ok_def del: has_bytes.simps)
  ultimately show ?thesis
    using json_payload_ok [OF p] assms(9,10) r ok
    by (simp add: handle_client_safe_def handle_client_def send_response_raw_def send_bytes_def
        del: json_text.simps has_bytes.simps ascii_floats.simps)
qed

text \<open>C7: A raw JSON request gets a raw JSON answer. For every stack the factory wires, every way the network cuts the bytes of a JSON object
  that ends in its closing brace, has at least four bytes and is within the size limit, and a peer that reads its answer, the server takes
  exactly the whole object as the request, never a piece of it, and sends the JSON text of what \<^verbatim>\<open>handle_request\<close> returned for it.\<close>

theorem raw_exchange:
  assumes "create_enclave_services cr pr fr cfg xe h k backend d = Inr (env, en0)"
    and "clean c" "conn_bytes c = 0x7B # bs" "py_decode (0x7B # bs) = Inr text"
    and "4 \<le> length (0x7B # bs)" "int (length (0x7B # bs)) \<le> MAX_REQUEST_SIZE cfg"
    and "last text = 125" "json_loads fr text \<noteq> None"
    and "\<And>bs. send bs = Inr ()" "ascii_floats (PDict (fst (handle_request env i text en)))"
  shows "handle_client_safe env i send c en
      = (Some (map of_nat (json_text False False (PDict (fst (handle_request env i text en))))), snd (handle_request env i text en))
    \<and> response_ok (fst (handle_request env i text en))"
  by (rule raw_served [OF assms])

section \<open>A concrete connection\<close>

text \<open>The header and the request \<^verbatim>\<open>{}\<close>, cut after the third byte.\<close>

definition demo_conn :: conn where
  "demo_conn = [Seg [0, 0, 0], Seg [2, 0x7B, 0x7D]]"

lemma demo_header: "be_bytes 4 (Suc (Suc 0)) = [0, 0, 0, 2]"
proof -
  have "(4 :: nat) = Suc (Suc (Suc (Suc 0)))" by simp
  then show ?thesis by (simp only: be_bytes.simps append.simps) simp
qed

lemma demo_conn_facts: "clean demo_conn" "conn_bytes demo_conn = be_bytes 4 (length [0x7B, 0x7D :: byte]) @ [0x7B, 0x7D] @ []"
  by (simp_all add: clean_def demo_conn_def demo_header)

lemma demo_body: "py_decode [0x7B, 0x7D] = Inr (lit ''{}'')"
  by (simp add: py_decode_def bytes_decode_def lit_def)

theorem recv_exact_spec_witness: "\<exists>c'. recv_exact 4 demo_conn = (Inr (Some [0, 0, 0, 2]), c') \<and> conn_bytes c' = [0x7B, 0x7D]"
  using recv_exact_spec [OF demo_conn_facts(1), of 4] by (auto simp: demo_conn_def)

lemma demo_recv: "recv_request (\<lambda>s. s) default_config send demo_conn = Request (lit ''{}'') True"
  by (rule recv_framed [OF demo_conn_facts]) (simp_all add: demo_body default_config_def)

theorem request_size_bounded_witness:
  "\<exists>body. py_decode body = Inr (lit ''{}'') \<and> int (length body) \<le> MAX_REQUEST_SIZE default_config"
  by (rule request_size_bounded [OF demo_recv [of "\<lambda>_. Inr ()"]]) (simp add: default_config_def)

lemma demo_empty_request:
  assumes "he_fr env = (\<lambda>s. s)"
  shows "handle_request env i (lit ''{}'') en = (error_response (missing ''operation''), en)"
proof -
  have "json_loads (\<lambda>s. s) (json_text False False (PDict [])) = Some (json_norm False (PDict []))"
    by (rule json_loads_text) simp
  moreover have "json_text False False (PDict []) = lit ''{}''" by (simp add: dict_items_def lit_def)
  ultimately have "json_loads (\<lambda>s. s) (lit ''{}'') = Some (PDict [])" by (simp add: dict_items_def)
  then show ?thesis by (simp add: handle_request_def parse_request_def assms validate_request_def dget_or_def)
qed

theorem framed_exchange_witness:
  "\<exists>env en sent. create_enclave_services toy_crypto (\<lambda>_. True) (\<lambda>s. s) default_config demo_env (demo_host []) None None [] = Inr (env, en)
     \<and> fst (handle_client_safe env demo_hin (\<lambda>_. Inr ()) demo_conn en) = Some sent \<and> be_nat (take 4 sent) = length (drop 4 sent)"
proof -
  obtain env en where s: "create_enclave_services toy_crypto (\<lambda>_. True) (\<lambda>s. s) default_config demo_env (demo_host []) None None [] = Inr (env, en)"
    and fr: "he_fr env = (\<lambda>s. s)"
    using demo_nitro_stack by blast
  have r: "fst (handle_request env demo_hin (lit ''{}'') en) = error_response (missing ''operation'')"
    by (simp add: demo_empty_request [OF fr])
  have a: "ascii_floats (PDict (fst (handle_request env demo_hin (lit ''{}'') en)))" by (simp add: r error_response_def)
  have l: "length (json_text False False (PDict (fst (handle_request env demo_hin (lit ''{}'') en)))) < 2 ^ 32"
    unfolding r by (simp add: error_response_def missing_def dict_items_def json_str_def json_esc_def lit_def key_sep_def item_sep_def)
  have m: "int (length [0x7B, 0x7D :: byte]) \<le> MAX_REQUEST_SIZE default_config" "MAX_REQUEST_SIZE default_config < 0x7B000000"
    by (simp_all add: default_config_def)
  have "\<exists>sent. handle_client_safe env demo_hin (\<lambda>_. Inr ()) demo_conn en = (Some sent, snd (handle_request env demo_hin (lit ''{}'') en))
      \<and> be_nat (take 4 sent) = length (drop 4 sent)
      \<and> drop 4 sent = map of_nat (json_text False False (PDict (fst (handle_request env demo_hin (lit ''{}'') en))))
      \<and> response_ok (fst (handle_request env demo_hin (lit ''{}'') en))"
    by (rule framed_exchange [OF s demo_conn_facts demo_body _ m _ a l]) simp_all
  with s show ?thesis by fastforce
qed

text \<open>The object with three blanks, cut before the third byte.\<close>

definition raw_conn :: conn where
  "raw_conn = [Seg [0x7B, 0x20], Seg [0x20, 0x20, 0x7D]]"

lemma raw_text:
  "py_decode (0x7B # [0x20, 0x20, 0x20, 0x7D]) = Inr (lit ''{   }'')" "json_loads (\<lambda>s. s) (lit ''{   }'') = Some (PDict [])"
proof -
  show "py_decode (0x7B # [0x20, 0x20, 0x20, 0x7D]) = Inr (lit ''{   }'')" by (simp add: py_decode_def bytes_decode_def lit_def)
  have "pv (\<lambda>s. s) (Suc n) [123, 32, 32, 32, 125] = Some (PDict [], [])" for n by (simp add: skip_ws_def is_json_ws_def)
  from this [of 10] show "json_loads (\<lambda>s. s) (lit ''{   }'') = Some (PDict [])"
    by (simp add: json_loads_def lit_def starts_with_def skip_ws_def is_json_ws_def del: pv.simps)
qed

theorem raw_exchange_witness:
  "\<exists>env en sent. create_enclave_services toy_crypto (\<lambda>_. True) (\<lambda>s. s) default_config demo_env (demo_host []) None None [] = Inr (env, en)
     \<and> fst (handle_client_safe env demo_hin (\<lambda>_. Inr ()) raw_conn en) = Some sent
     \<and> sent = map of_nat (json_text False False (PDict (error_response (missing ''operation''))))"
proof -
  obtain env en where s: "create_enclave_services toy_crypto (\<lambda>_. True) (\<lambda>s. s) default_config demo_env (demo_host []) None None [] = Inr (env, en)"
    and fr: "he_fr env = (\<lambda>s. s)"
    using demo_nitro_stack by blast
  have r: "handle_request env demo_hin (lit ''{   }'') en = (error_response (missing ''operation''), en)"
    by (simp add: handle_request_def parse_request_def fr raw_text(2) validate_request_def dget_or_def)
  have a: "ascii_floats (PDict (fst (handle_request env demo_hin (lit ''{   }'') en)))" by (simp add: r error_response_def)
  have c: "clean raw_conn" "conn_bytes raw_conn = 0x7B # [0x20, 0x20, 0x20, 0x7D]" by (simp_all add: clean_def raw_conn_def)
  have m: "4 \<le> length (0x7B # [0x20, 0x20, 0x20, 0x7D :: byte])"
    "int (length (0x7B # [0x20, 0x20, 0x20, 0x7D :: byte])) \<le> MAX_REQUEST_SIZE default_config"
    "last (lit ''{   }'') = 125" "json_loads (\<lambda>s. s) (lit ''{   }'') \<noteq> None"
    by (simp_all add: default_config_def raw_text(2)) (simp add: lit_def)
  from raw_exchange [OF s c raw_text(1) m, of "\<lambda>_. Inr ()" demo_hin en] a s show ?thesis
    by (simp add: r del: json_text.simps)
qed

end
