(* ===== verification/Server_Loop.thy ===== *)
theory Server_Loop
  imports Enclave_Server
begin

text \<open>
  \<^verbatim>\<open>EnclaveServer.start\<close> and its threads as a step relation: connections are accepted, each is handled by a thread of its own, and the threads share
  one enclave. A served connection is one step; what the other threads do to the session store in between is part of that step
  (\<open>hi_others\<close> of the handler's inputs) or a step of its own. The invariant of the enclave holds in every reachable state, and no
  connection keeps another from being served.
\<close>

text \<open>The server while \<^verbatim>\<open>start\<close> runs: the connections whose threads have not finished, what was sent on the finished ones, and the enclave
  they share. \<^verbatim>\<open>accept\<close> may return a connection or raise, in which case the loop goes on; any thread may be the next to handle its
  request; the session store also moves through single critical sections of threads that are still running.\<close>

record server =
  sv_threads :: "conn list"
  sv_sent :: "bytes option list"
  sv_enclave :: enclave

definition start_server :: "unit res \<Rightarrow> enclave \<Rightarrow> server option" where
  "start_server bound en =
     (case bound of Inl e \<Rightarrow> None | Inr _ \<Rightarrow> Some \<lparr>sv_threads = [], sv_sent = [], sv_enclave = en\<rparr>)"

inductive server_step :: "'key handler_env \<Rightarrow> server \<Rightarrow> server \<Rightarrow> bool" for env :: "'key handler_env" where
  sv_accept: "server_step env s (s\<lparr>sv_threads := sv_threads s @ [c]\<rparr>)"
| sv_accept_raises: "server_step env s s"
| sv_serve: "sv_threads s = cs @ c # ds \<Longrightarrow> handle_client_safe env i send c (sv_enclave s) = (sent, en) \<Longrightarrow>
    server_step env s (s\<lparr>sv_threads := cs @ ds, sv_sent := sv_sent s @ [sent], sv_enclave := en\<rparr>)"
| sv_store: "server_step env s (s\<lparr>sv_enclave := (sv_enclave s)\<lparr>en_manager :=
    km_exec (he_crypto env) (he_cfg env) (he_pr env) op (en_manager (sv_enclave s))\<rparr>\<rparr>)"

inductive_cases server_stepE: "server_step env s s'"

lemma handle_client_safe_reachable:
  assumes "handle_client_safe env i send c en = (sent, en')" "enclave_reachable env en"
  shows "enclave_reachable env en'"
  using assms en_request [OF assms(2)]
  by (auto simp: handle_client_safe_def handle_client_def split: received.splits prod.splits sum.splits) (metis snd_conv)+

lemma server_step_reachable:
  "server_step env s s' \<Longrightarrow> enclave_reachable env (sv_enclave s) \<Longrightarrow> enclave_reachable env (sv_enclave s')"
  by (erule server_stepE) (auto intro: handle_client_safe_reachable en_background)

lemma server_run_reachable:
  "(server_step env)\<^sup>*\<^sup>* s s' \<Longrightarrow> enclave_reachable env (sv_enclave s) \<Longrightarrow> enclave_reachable env (sv_enclave s')"
  by (induction rule: rtranclp_induct) (auto intro: server_step_reachable)

lemma server_drains:
  "\<exists>s'. (server_step env)\<^sup>*\<^sup>* s s' \<and> sv_threads s' = [] \<and> length (sv_sent s') = length (sv_sent s) + length (sv_threads s)"
proof (induction "sv_threads s" arbitrary: s)
  case Nil
  then show ?case by (intro exI [of _ s]) simp
next
  case (Cons c cs)
  obtain sent en where h: "handle_client_safe env demo_hin (\<lambda>_. Inr ()) c (sv_enclave s) = (sent, en)" by (metis surj_pair)
  let ?s = "s\<lparr>sv_threads := cs, sv_sent := sv_sent s @ [sent], sv_enclave := en\<rparr>"
  have step: "server_step env s ?s" using sv_serve [of s "[]" c cs, OF _ h] Cons.hyps(2) by simp
  obtain s' where "(server_step env)\<^sup>*\<^sup>* ?s s'" "sv_threads s' = []" "length (sv_sent s') = length (sv_sent ?s) + length (sv_threads ?s)"
    using Cons.hyps(1) [of ?s] by auto
  with step Cons.hyps(2) [symmetric] show ?case by (intro exI [of _ s']) (simp add: converse_rtranclp_into_rtranclp)
qed



end
