(* ===== verification/Dev_Scripts.thy ===== *)
theory Dev_Scripts
  imports Server_Loop
begin

text \<open>
  The programs under \<^verbatim>\<open>scripts/\<close>. \<^verbatim>\<open>test-client.py\<close> is the other end of a connection: it sends raw JSON, reads the answer and encrypts a bundle the
  way it believes the enclave expects. Its cryptography is the record \<open>client_crypto\<close>, the network the argument \<open>net\<close>: a state
  and the bytes that were sent give the stream that comes back. \<^verbatim>\<open>local-test-server.py\<close> is a single-threaded server around a handler of its own.
  What is printed to the terminal is not modelled. The theorems join both ends of the wire: the client gets exactly the answer
  of the handler, and its whole run ends in failure, since it seals its bundle with AES-CBC where the enclave expects AES-GCM.
\<close>

section \<open>The test client\<close>

definition AES_KEY_SIZE :: nat where "AES_KEY_SIZE = 32"
definition client_IV_SIZE :: nat where "client_IV_SIZE = 16"
definition client_AES_BLOCK_SIZE :: nat where "client_AES_BLOCK_SIZE = 128"

text \<open>Reading until the peer closes. A timeout ends the answer when some of it has arrived.\<close>

lemma sock_recv_shrinks: "sock_recv n c = (Inr b, c') \<Longrightarrow> b \<noteq> [] \<Longrightarrow> length (conn_bytes c') < length (conn_bytes c)"
  by (cases "(n, c)" rule: sock_recv.cases) (auto split: if_splits)

function client_recv :: "bytes \<Rightarrow> conn \<Rightarrow> bytes res" where
  "client_recv data c =
     (case sock_recv 65536 c of
        (Inl e, _) \<Rightarrow> (if exn_class e = SocketTimeout \<and> data \<noteq> [] then Inr data else Inl e)
      | (Inr chunk, c') \<Rightarrow> (if chunk = [] then Inr data else client_recv (data @ chunk) c'))"
  by pat_completeness auto
termination
  by (relation "measure (\<lambda>(data, c). length (conn_bytes c))") (simp_all add: sock_recv_shrinks [OF sym])

declare client_recv.simps [simp del]

definition json_decode :: "(pystr \<Rightarrow> pystr) \<Rightarrow> (pystr \<Rightarrow> pystr) \<Rightarrow> pystr \<Rightarrow> pyval res" where
  "json_decode fr json_err s = (case json_loads fr s of Some v \<Rightarrow> Inr v | None \<Rightarrow> Inl (Exn JSONDecodeError (json_err s)))"

definition send_request ::
    "(pystr \<Rightarrow> pystr) \<Rightarrow> (pystr \<Rightarrow> pystr) \<Rightarrow> unit res \<Rightarrow> ('n \<Rightarrow> bytes \<Rightarrow> conn res \<times> 'n) \<Rightarrow> pyval dict \<Rightarrow> 'n \<Rightarrow> pyval res \<times> 'n" where
  "send_request fr json_err dialled net request n =
     (case rbind dialled (\<lambda>_. json_payload request) of
        Inl e \<Rightarrow> (Inl e, n)
      | Inr bs \<Rightarrow>
          (case net n bs of
             (stream, n') \<Rightarrow> (rbind stream (\<lambda>c. rbind (client_recv [] c) (\<lambda>data. rbind (py_decode data) (json_decode fr json_err))), n')))"

record 'pub client_crypto =
  load_public :: "bytes \<Rightarrow> 'pub res"
  pkcs7_pad :: "nat \<Rightarrow> bytes \<Rightarrow> bytes res"
  cbc_encrypt :: "bytes \<Rightarrow> bytes \<Rightarrow> bytes \<Rightarrow> bytes res"
  oaep_encrypt :: "'pub \<Rightarrow> bytes \<Rightarrow> bytes res"

text \<open>\<open>aes_key\<close> and \<open>iv\<close> are what \<^verbatim>\<open>os.urandom\<close> returned for \<open>AES_KEY_SIZE\<close> and \<open>client_IV_SIZE\<close> bytes.\<close>

definition encrypt_data :: "'pub client_crypto \<Rightarrow> bytes \<Rightarrow> bytes \<Rightarrow> bytes \<Rightarrow> pystr \<Rightarrow> pystr res" where
  "encrypt_data cc aes_key iv data public_key_pem =
     rbind (str_encode public_key_pem) (\<lambda>pem.
     rbind (load_public cc pem) (\<lambda>public_key.
     rbind (pkcs7_pad cc client_AES_BLOCK_SIZE data) (\<lambda>padded_data.
     rbind (cbc_encrypt cc aes_key iv padded_data) (\<lambda>ciphertext.
     rbind (oaep_encrypt cc public_key aes_key) (\<lambda>encrypted_key.
     Inr (b64encode (encrypted_key @ iv @ ciphertext)))))))"

definition text_lines :: "pystr list \<Rightarrow> pystr" where
  "text_lines ls = concat (map (\<lambda>l. l @ [10]) ls)"

abbreviation dq :: "string \<Rightarrow> pystr" where
  "dq s \<equiv> [34] @ lit s @ [34]"

definition test_script :: pystr where
  "test_script = text_lines [[], lit ''def main():'',
     lit ''    print('' @ dq ''Hello from Epsilon Enclave!'' @ lit '')'',
     lit ''    print('' @ dq ''Script execution successful!'' @ lit '')'', [],
     lit ''    # Try to read CSV if it exists'', lit ''    import os'',
     lit ''    csv_path = '' @ dq ''generated/data.csv'', lit ''    if os.path.exists(csv_path):'',
     lit ''        with open(csv_path, '' @ quoted (lit ''r'') @ lit '') as f:'',
     lit ''            lines = f.readlines()'', lit ''            print(f'' @ dq ''CSV has {len(lines)} lines'' @ lit '')'',
     lit ''            if lines:'', lit ''                print(f'' @ dq ''Header: {lines[0].strip()}'' @ lit '')'',
     lit ''    else:'', lit ''        print('' @ dq ''No CSV data provided'' @ lit '')'', [],
     lit ''    return {'' @ dq ''result'' @ lit '': '' @ dq ''success'' @ lit ''}'', [],
     lit ''if __name__ == '' @ dq ''__main__'' @ lit '':'', lit ''    result = main()'', lit ''    print(result)'']"

definition test_build_yml :: pystr where
  "test_build_yml = text_lines [lit ''version: '' @ quoted (lit ''1.0''), lit ''analysis:'', lit ''  name: Test'',
     lit ''  description: Test script'', lit ''  script_file: main.py'']"

definition create_test_bundle :: "((pystr \<times> pystr) list \<Rightarrow> bytes res) \<Rightarrow> bytes res" where
  "create_test_bundle zip_write =
     zip_write [(lit ''main.py'', test_script), (lit ''build.yml'', test_build_yml), (lit ''generated/.gitkeep'', [])]"

definition create_test_csv :: "bytes res" where
  "create_test_csv = str_encode (text_lines [
     lit ''personal_info.first_name,personal_info.last_name,personal_info.email'', lit ''John,Doe,john@example.com'',
     lit ''Jane,Smith,jane@example.com'', lit ''Bob,Johnson,bob@example.com''])"

section \<open>The run of the client\<close>

definition keypair_request :: "pyval dict" where
  "keypair_request = [(lit ''operation'', pstr ''generate_rsa_keypair''), (lit ''job_id'', pstr ''test-job-001''), (lit ''key_size'', PInt 2048)]"

definition execute_request :: "pyval \<Rightarrow> pystr \<Rightarrow> pystr \<Rightarrow> pyval dict" where
  "execute_request session_id encrypted_zip encrypted_csv =
     [(lit ''operation'', pstr ''execute_script_rsa_hybrid''), (lit ''session_id'', session_id),
      (lit ''encrypted_data'', PStr encrypted_zip), (lit ''encrypted_csv'', PStr encrypted_csv)]"

text \<open>\<^verbatim>\<open>response.get('success')\<close> on whatever JSON value came back.\<close>

definition response_success :: "pyval \<Rightarrow> bool res" where
  "response_success v = (case v of PDict d \<Rightarrow> Inr (truthy (dget_or PNone d (lit ''success''))) | _ \<Rightarrow> Inl (no_attribute v ''get''))"

definition session_fields :: "pyval \<Rightarrow> (pyval \<times> pyval) res" where
  "session_fields v =
     (case v of
        PDict d \<Rightarrow> rbind (dict_item d (lit ''session_id'')) (\<lambda>session_id. rbind (dict_item d (lit ''public_key'')) (\<lambda>public_key.
          rbind (py_len public_key) (\<lambda>_. Inr (session_id, public_key))))
      | _ \<Rightarrow> Inl (no_attribute v ''get''))"

text \<open>Two payloads, each with a key and an initialization vector of its own.\<close>

definition seal_both ::
    "'pub client_crypto \<Rightarrow> ((pystr \<times> pystr) list \<Rightarrow> bytes res) \<Rightarrow> bytes \<times> bytes \<Rightarrow> bytes \<times> bytes \<Rightarrow> pyval \<Rightarrow> (pystr \<times> pystr) res" where
  "seal_both cc zip_write r1 r2 public_key =
     (case public_key of
        PStr pem \<Rightarrow>
          rbind (create_test_bundle zip_write) (\<lambda>zip_data.
          rbind (encrypt_data cc (fst r1) (snd r1) zip_data pem) (\<lambda>encrypted_zip.
          rbind create_test_csv (\<lambda>csv_data.
          rbind (encrypt_data cc (fst r2) (snd r2) csv_data pem) (\<lambda>encrypted_csv.
          Inr (encrypted_zip, encrypted_csv)))))
      | v \<Rightarrow> rbind (create_test_bundle zip_write) (\<lambda>_. Inl (no_attribute v ''encode'')))"

definition client_main ::
    "(pystr \<Rightarrow> pystr) \<Rightarrow> (pystr \<Rightarrow> pystr) \<Rightarrow> unit res \<Rightarrow> ('n \<Rightarrow> bytes \<Rightarrow> conn res \<times> 'n) \<Rightarrow> 'pub client_crypto
       \<Rightarrow> ((pystr \<times> pystr) list \<Rightarrow> bytes res) \<Rightarrow> bytes \<times> bytes \<Rightarrow> bytes \<times> bytes \<Rightarrow> 'n \<Rightarrow> int res \<times> 'n" where
  "client_main fr json_err dialled net cc zip_write r1 r2 n =
     (case send_request fr json_err dialled net keypair_request n of
        (keypair_response, n1) \<Rightarrow>
          (case rbind keypair_response (\<lambda>v. rbind (response_success v) (\<lambda>ok.
                  if \<not> ok then Inr None
                  else rbind (session_fields v) (\<lambda>(session_id, public_key).
                    rbind (seal_both cc zip_write r1 r2 public_key) (\<lambda>(z, c). Inr (Some (execute_request session_id z c)))))) of
             Inl e \<Rightarrow> (Inl e, n1)
           | Inr None \<Rightarrow> (Inr 1, n1)
           | Inr (Some request) \<Rightarrow>
               (case send_request fr json_err dialled net request n1 of
                  (execute_response, n2) \<Rightarrow> (rbind execute_response (\<lambda>v. rbind (response_success v) (\<lambda>ok. Inr (if ok then 0 else 1))), n2))))"

section \<open>The local test server\<close>

text \<open>The handler is built without the attestation service, which \<^verbatim>\<open>RequestHandlerImpl.__init__\<close> requires.\<close>

definition local_request_handler :: "(pystr \<Rightarrow> enclave \<Rightarrow> pyval dict \<times> enclave) res" where
  "local_request_handler = Inl (Exn TypeError (lit ''__init__() missing 1 required positional argument: '' @ quoted (lit ''attestation_service'')))"

function local_receive :: "(pystr \<Rightarrow> pystr) \<Rightarrow> bytes \<Rightarrow> conn \<Rightarrow> bytes res" where
  "local_receive fr data c =
     (case sock_recv 65536 c of
        (Inl e, _) \<Rightarrow> Inl e
      | (Inr chunk, c') \<Rightarrow>
          (if chunk = [] then Inr data
           else if ends_with chunk [125] \<and> complete_json fr (data @ chunk) \<noteq> None then Inr (data @ chunk)
           else local_receive fr (data @ chunk) c'))"
  by pat_completeness auto
termination
  by (relation "measure (\<lambda>(fr, data, c). length (conn_bytes c))") (simp_all add: sock_recv_shrinks [OF sym])

declare local_receive.simps [simp del]

text \<open>One connection: nothing is answered to an empty request, and every exception closes the connection.\<close>

definition local_connection ::
    "(pystr \<Rightarrow> pystr) \<Rightarrow> (pystr \<Rightarrow> enclave \<Rightarrow> pyval dict \<times> enclave) \<Rightarrow> (bytes \<Rightarrow> unit res) \<Rightarrow> conn \<Rightarrow> enclave \<Rightarrow> bytes option \<times> enclave" where
  "local_connection fr handler send c en =
     (case local_receive fr [] c of
        Inl e \<Rightarrow> (None, en)
      | Inr data \<Rightarrow>
          (if data = [] then (None, en)
           else case py_decode data of
                  Inl e \<Rightarrow> (None, en)
                | Inr text \<Rightarrow>
                    (case handler text en of
                       (response, en') \<Rightarrow>
                         (case rbind (json_payload response) (\<lambda>bs. rbind (send bs) (\<lambda>_. Inr bs)) of Inl e \<Rightarrow> None | Inr bs \<Rightarrow> Some bs, en'))))"

fun local_loop ::
    "(pystr \<Rightarrow> pystr) \<Rightarrow> (pystr \<Rightarrow> enclave \<Rightarrow> pyval dict \<times> enclave) \<Rightarrow> (bytes \<Rightarrow> unit res) \<Rightarrow> conn res list \<Rightarrow> enclave \<Rightarrow> bytes option list \<times> enclave" where
  "local_loop fr handler send [] en = ([], en)"
| "local_loop fr handler send (Inl e # accepts) en = local_loop fr handler send accepts en"
| "local_loop fr handler send (Inr c # accepts) en =
     (case local_connection fr handler send c en of
        (sent, en') \<Rightarrow> (case local_loop fr handler send accepts en' of (rest, en2) \<Rightarrow> (sent # rest, en2)))"

definition run_tcp_server ::
    "(pystr \<Rightarrow> pystr) \<Rightarrow> unit res \<Rightarrow> (bytes \<Rightarrow> unit res) \<Rightarrow> conn res list \<Rightarrow> enclave \<Rightarrow> (bytes option list \<times> enclave) res" where
  "run_tcp_server fr bound send accepts en =
     rbind local_request_handler (\<lambda>handler. rbind bound (\<lambda>_. Inr (local_loop fr handler send accepts en)))"

text \<open>Whatever the network does, the local test server ends before it listens.\<close>

lemma local_server_never_starts: "\<exists>msg. run_tcp_server fr bound send accepts en = Inl (Exn TypeError msg)"
  by (simp add: run_tcp_server_def local_request_handler_def)

section \<open>Client and server\<close>

lemma client_recv_clean: "clean c \<Longrightarrow> client_recv data c = Inr (data @ conn_bytes c)"
proof (induction data c rule: client_recv.induct)
  case (1 data c)
  obtain b c1 where b: "sock_recv 65536 c = (Inr b, c1)" "clean c1" "conn_bytes c = b @ conn_bytes c1" "b = [] \<longleftrightarrow> conn_bytes c = []"
    using clean_recv [OF "1.prems", of 65536] by auto
  show ?case
  proof (cases "b = []")
    case True
    with b(1,4) show ?thesis by (simp add: client_recv.simps [of data])
  next
    case False
    have "client_recv data c = client_recv (data @ b) c1" unfolding client_recv.simps [of data c] b(1) using False by simp
    also have "\<dots> = Inr ((data @ b) @ conn_bytes c1)" by (rule "1.IH" [OF b(1) [symmetric] refl False b(2)])
    finally show ?thesis using b(3) by simp
  qed
qed

text \<open>The network between the client and the server: \<open>split_up\<close> says how it cuts what it carries.\<close>

definition via_server :: "'key handler_env \<Rightarrow> handler_inputs \<Rightarrow> (bytes \<Rightarrow> conn) \<Rightarrow> enclave \<Rightarrow> bytes \<Rightarrow> conn res \<times> enclave" where
  "via_server env i split_up en bs =
     (case handle_client_safe env i (\<lambda>_. Inr ()) (split_up bs) en of
        (sent, en') \<Rightarrow> (Inr (case sent of Some answer \<Rightarrow> split_up answer | None \<Rightarrow> []), en'))"

lemma json_ok_ascii_floats: "json_ok v \<Longrightarrow> ascii_floats v"
  by (induction v rule: ascii_floats.induct) (auto simp: list_all_iff)

lemma json_text_dict_shape:
  "\<exists>t. json_text so cp (PDict d) = 123 # t \<and> last (json_text so cp (PDict d)) = 125 \<and> (d \<noteq> [] \<longrightarrow> 4 \<le> length (json_text so cp (PDict d)))"
proof -
  obtain ps where ps: "ps = map (\<lambda>(k, v). json_str k @ key_sep cp @ json_text so cp v) (dict_items so d)" by blast
  have "2 \<le> length (join_with sep ps)" if "d \<noteq> []" for sep
  proof -
    from that obtain p qs where "ps = p # qs" "2 \<le> length p"
      using ps by (cases "dict_items so d") (auto simp: json_str_def)
    then show ?thesis by (cases qs) auto
  qed
  then show ?thesis by (auto simp: ps [symmetric])
qed

lemma decode_json_text:
  assumes "json_ok v" shows "py_decode (map of_nat (json_text so cp v)) = Inr (json_text so cp v)"
proof (rule py_decode_encode' [OF _ str_encode_json_text [OF assms]])
  show "list_all (\<lambda>c. c < 0x110000) (json_text so cp v)"
    using json_text_ascii [OF assms, of so cp] by (fastforce simp: list_all_iff)
qed

lemma loads_dumped: "json_ok v \<Longrightarrow> json_loads fr (json_text False False v) = Some v"
  using json_loads_text [of v fr False False] by (simp add: json_norm_unsorted)

text \<open>What the handler does with the text of a request is what it does with the request.\<close>

lemma handle_request_dumped:
  assumes "json_ok (PDict request)"
  shows "handle_request env i (json_text False False (PDict request)) en
    = (case validate_request request of Some msg \<Rightarrow> (error_response msg, en) | None \<Rightarrow> dispatch env i request en)"
  by (simp add: handle_request_def parse_request_def loads_dumped [OF assms] del: json_text.simps)

lemma client_answered:
  assumes "create_enclave_services cr pr fr cfg xe h k backend d = Inr (env, en0)"
    and "\<And>b. clean (split_up b) \<and> conn_bytes (split_up b) = b"
    and "json_ok (PDict request)" "request \<noteq> []" "int (length (json_text False False (PDict request))) \<le> MAX_REQUEST_SIZE cfg"
    and "(case validate_request request of Some msg \<Rightarrow> (error_response msg, en) | None \<Rightarrow> dispatch env i request en) = (answer, en')"
    and "json_ok (PDict answer)"
  shows "send_request fr json_err (Inr ()) (via_server env i split_up) request en = (Inr (PDict answer), en')"
proof -
  let ?t = "json_text False False (PDict request)" and ?a = "json_text False False (PDict answer)"
  obtain t where t: "?t = 123 # t" "last ?t = 125" "4 \<le> length ?t" using json_text_dict_shape [of False False request] assms(4) by blast
  have h: "handle_request env i ?t en = (answer, en')" by (simp only: handle_request_dumped [OF assms(3)] assms(6))
  have b: "map of_nat ?t = 0x7B # (map of_nat t :: bytes)" unfolding t(1) by simp
  have "handle_client_safe env i (\<lambda>_. Inr ()) (split_up (map of_nat ?t)) en = (Some (map of_nat ?a), en')"
  proof -
    have "py_decode (0x7B # map of_nat t) = Inr ?t" using decode_json_text [OF assms(3), of False False] unfolding b .
    moreover have "4 \<le> length (0x7B # (map of_nat t :: bytes))" "int (length (0x7B # (map of_nat t :: bytes))) \<le> MAX_REQUEST_SIZE cfg"
      using t(3) assms(5) unfolding t(1) by simp_all
    moreover have "ascii_floats (PDict (fst (handle_request env i ?t en)))" using json_ok_ascii_floats [OF assms(7)] h by simp
    ultimately show ?thesis
      using raw_served [OF assms(1), of "split_up (map of_nat ?t)" "map of_nat t" ?t "\<lambda>_. Inr ()" i en] assms(2) b t(2) loads_dumped [OF assms(3)] h
      by (simp del: json_text.simps ascii_floats.simps)
  qed
  moreover have "json_payload request = Inr (map of_nat ?t)"
    by (simp add: json_payload_def json_dumps_def json_ok_no_bytes [OF assms(3)] str_encode_json_text [OF assms(3)] del: json_text.simps has_bytes.simps)
  moreover have "client_recv [] (split_up (map of_nat ?a)) = Inr (map of_nat ?a)" using client_recv_clean [of "split_up (map of_nat ?a)" "[]"] assms(2) by simp
  ultimately show ?thesis
    using decode_json_text [OF assms(7), of False False] loads_dumped [OF assms(7), of fr]
    by (simp add: send_request_def via_server_def json_decode_def del: json_text.simps)
qed


section \<open>The payload of the client\<close>

text \<open>The two halves of one RSA key, as the client and the enclave hold them.\<close>

definition paired_keys :: "'key crypto \<Rightarrow> 'key \<Rightarrow> 'pub client_crypto \<Rightarrow> 'pub \<Rightarrow> bool" where
  "paired_keys c k cc pub \<longleftrightarrow>
     (\<forall>m e. oaep_encrypt cc pub m = Inr e \<longrightarrow> length e = nat (key_bits c k div 8) \<and> oaep_decrypt c k e = Inr m)"

text \<open>The enclave takes the first twelve bytes of the initialization vector for the nonce and the other four for ciphertext.\<close>

lemma client_payload_parsed:
  assumes "encrypt_data cc aes_key iv data pem = Inr z" "str_encode pem = Inr pb" "load_public cc pb = Inr pub" "paired_keys c k cc pub"
    and "length iv = client_IV_SIZE" "load_private c key = Inr k"
  obtains p ct where "pkcs7_pad cc client_AES_BLOCK_SIZE data = Inr p" "cbc_encrypt cc aes_key iv p = Inr ct"
    "decrypt_combined_with c (PStr z) key = gcm_decrypt c aes_key (take 12 iv) (drop 12 iv @ ct)"
proof -
  obtain p ct ek where e: "pkcs7_pad cc client_AES_BLOCK_SIZE data = Inr p" "cbc_encrypt cc aes_key iv p = Inr ct"
    "oaep_encrypt cc pub aes_key = Inr ek" "z = b64encode (ek @ iv @ ct)"
    using assms(1-3) by (auto simp: encrypt_data_def rbind_eq_Inr_iff)
  have ek: "length ek = nat (key_bits c k div 8)" "oaep_decrypt c k ek = Inr aes_key"
    using assms(4) e(3) by (auto simp: paired_keys_def)
  have iv: "ek @ iv @ ct = ek @ take 12 iv @ (drop 12 iv @ ct)" by (simp flip: append_assoc)
  have n: "length (take 12 iv) = GCM_NONCE_SIZE" using assms(5) by (simp add: client_IV_SIZE_def GCM_NONCE_SIZE_def)
  have "parse_combined (nat (key_bits c k div 8)) (ek @ iv @ ct)
      = \<lparr>p_encrypted_key = ek, p_nonce = take 12 iv, p_ciphertext = drop 12 iv @ ct\<rparr>"
    unfolding iv ek(1) [symmetric] by (rule parse_combined_append [OF n])
  then have "decrypt_combined_with c (PStr z) key = gcm_decrypt c aes_key (take 12 iv) (drop 12 iv @ ct)"
    using ek(2) assms(6) by (simp add: decrypt_combined_with_def e(4) b64decode_val_def codec_simps)
  with that e show thesis by blast
qed

lemma gcm_failed_bytes:
  obtains b where "str_encode gcm_failed = Inr b" "py_decode b = Inr gcm_failed"
proof -
  have "list_all valid_cp gcm_failed" by (simp add: gcm_failed_def)
  with bytes_decode_str_encode [of gcm_failed] that show thesis by (auto simp: py_decode_def)
qed

lemma client_bundle_refused:
  assumes "dget (active_sessions (interfere env i 0 en)) s = Some sess" "is_session_valid (hi_now i 0) sess" "s_private_key sess \<noteq> []"
    and "load_private (he_crypto env) (s_private_key sess) = Inr k"
    and "encrypt_data cc aes_key iv data pem = Inr z" "str_encode pem = Inr pb" "load_public cc pb = Inr pub"
    and "paired_keys (he_crypto env) k cc pub" "length iv = client_IV_SIZE"
    and "\<And>p ct. pkcs7_pad cc client_AES_BLOCK_SIZE data = Inr p \<Longrightarrow> cbc_encrypt cc aes_key iv p = Inr ct \<Longrightarrow>
      gcm_decrypt (he_crypto env) aes_key (take 12 iv) (drop 12 iv @ ct) = Inl (Exn InvalidTag msg)"
  shows "fst (handle_execute env i (execute_request (PStr s) z csv) en) = error_response (lit ''ZIP decryption failed: '' @ gcm_failed)
    \<and> en_executor (snd (handle_execute env i (execute_request (PStr s) z csv) en)) = en_executor en"
proof -
  let ?m = "interfere env i 0 en"
  have f: "execute_fields (execute_request (PStr s) z csv) = Inr (PStr s, PStr z, PStr csv)"
    by (simp add: execute_fields_def execute_request_def dict_item_def dget_or_def py_len_def Let_def)
  obtain p ct where c: "pkcs7_pad cc client_AES_BLOCK_SIZE data = Inr p" "cbc_encrypt cc aes_key iv p = Inr ct"
    "decrypt_combined_with (he_crypto env) (PStr z) (s_private_key sess) = gcm_decrypt (he_crypto env) aes_key (take 12 iv) (drop 12 iv @ ct)"
    by (rule client_payload_parsed [OF assms(5-9,4)])
  obtain b where b: "str_encode gcm_failed = Inr b" "py_decode b = Inr gcm_failed" by (rule gcm_failed_bytes)
  obtain kb kbs where kb: "s_private_key sess = kb # kbs" using assms(3) by (cases "s_private_key sess") auto
  have "decrypt_combined_hybrid_data (he_crypto env) (he_pr env) (hi_now i 0) (PStr z) (PStr s) ?m = (Inr (False, b), ?m)"
    using assms(1,2) c(3) assms(10) [OF c(1,2)] b(1) kb
    by (simp add: decrypt_combined_hybrid_data_def with_private_key_def get_private_key_PStr)
  then have "decrypt_payload env i 0 ''ZIP'' (PStr z) (PStr s) en = (Inl (lit ''ZIP decryption failed: '' @ gcm_failed), en\<lparr>en_manager := ?m\<rparr>)"
    using b(2) by (simp add: decrypt_payload_def lit_def)
  then show ?thesis by (simp add: handle_execute_def f respond_def)
qed

definition keypair_answer :: "pystr \<Rightarrow> pystr \<Rightarrow> pyval dict" where
  "keypair_answer s pem = [(lit ''success'', PBool True), (lit ''session_id'', PStr s), (lit ''public_key'', PStr pem),
     (lit ''job_id'', pstr ''test-job-001''), (lit ''key_size'', PInt 2048)]"

lemma client_dispatch:
  "(case validate_request keypair_request of Some msg \<Rightarrow> (error_response msg, en) | None \<Rightarrow> dispatch env i keypair_request en)
    = handle_generate_keypair env i keypair_request en"
  "(case validate_request (execute_request v z c) of Some msg \<Rightarrow> (error_response msg, en) | None \<Rightarrow> dispatch env i (execute_request v z c) en)
    = handle_execute env i (execute_request v z c) en"
  by (simp_all add: validate_request_def dispatch_def has_field_def keypair_request_def execute_request_def dget_or_def Let_def)

lemma client_json:
  "json_ok (PDict keypair_request)" "keypair_request \<noteq> []" "execute_request v z c \<noteq> []"
  "json_ok (PDict (execute_request (PStr s) z c)) \<longleftrightarrow> list_all valid_cp s \<and> list_all valid_cp z \<and> list_all valid_cp c"
  "json_ok (PDict (keypair_answer s pem)) \<longleftrightarrow> list_all valid_cp s \<and> list_all valid_cp pem"
  "json_ok (PDict (error_response msg)) \<longleftrightarrow> list_all valid_cp msg"
  by (simp_all add: keypair_request_def execute_request_def keypair_answer_def error_response_def)

lemma client_reads:
  "response_success (PDict (keypair_answer s pem)) = Inr True" "response_success (PDict (error_response msg)) = Inr False"
  "session_fields (PDict (keypair_answer s pem)) = Inr (PStr s, PStr pem)"
  by (simp_all add: response_success_def session_fields_def keypair_answer_def error_response_def dget_or_def dict_item_def py_len_def)

lemmas client_requests = client_dispatch client_json client_reads

lemma encrypt_data_text: "encrypt_data cc key iv data pem = Inr z \<Longrightarrow> list_all valid_cp z"
  using b64encode_ascii by (fastforce simp: encrypt_data_def rbind_eq_Inr_iff list_all_iff valid_cp_def is_surrogate_def)

lemma seal_both_text:
  assumes "seal_both cc zip_write r1 r2 (PStr pem) = Inr (z, c)" shows "list_all valid_cp z \<and> list_all valid_cp c"
  using assms by (auto simp: seal_both_def rbind_eq_Inr_iff dest: encrypt_data_text)

lemma generate_keypair_executor: "en_executor (snd (handle_generate_keypair env i request en)) = en_executor en"
  by (auto simp: handle_generate_keypair_def new_keypair_def lookup_public_def Let_def split: sum.splits prod.splits bool.splits)

lemma services_crypto: "create_enclave_services cr pr fr cfg xe h kms backend d = Inr (env, en0) \<Longrightarrow> he_crypto env = cr"
  by (auto simp: create_enclave_services_def rbind_eq_Inr_iff)


section \<open>Concrete runs\<close>

definition bytewise :: "bytes \<Rightarrow> conn" where
  "bytewise b = map (\<lambda>x. Seg [x]) b"

lemma bytewise_clean: "clean (bytewise b) \<and> conn_bytes (bytewise b) = b"
  by (induction b) (auto simp: bytewise_def clean_def)

definition health_request :: "pyval dict" where
  "health_request = [(lit ''operation'', pstr ''health_check'')]"


definition pkcs7_tail :: "nat \<Rightarrow> nat \<Rightarrow> bytes" where
  "pkcs7_tail n l = replicate (n - l mod n) (of_nat (n - l mod n))"

definition toy_client :: "toy_key client_crypto" where
  "toy_client = \<lparr>load_public = \<lambda>_. Inr (2048, 3), pkcs7_pad = \<lambda>n m. Inr (m @ pkcs7_tail (n div 8) (length m)), cbc_encrypt = \<lambda>key iv m. Inr m,
     oaep_encrypt = \<lambda>k m. if length m + 66 \<le> fst k div 8 then Inr (toy_oaep_encrypt k m)
       else Inl (Exn ValueError (lit ''Encryption failed''))\<rparr>"

lemma toy_paired: "paired_keys toy_crypto (2048, 3) toy_client (2048, 3)"
  using toy_oaep_decrypt_encrypt [of _ "(2048, 3)"]
  by (auto simp: paired_keys_def toy_client_def toy_crypto_def toy_oaep_encrypt_def split: if_splits)

lemma toy_gcm_wrong_tag:
  assumes "length key = 32" "length t = 16" "hd t \<noteq> 7"
  shows "toy_gcm_decrypt key n (m @ t) = Inl (Exn InvalidTag [])"
proof -
  have "hd (toy_gcm_tag key n m) = 7" by (simp add: toy_gcm_tag_def hd_append)
  with assms(3) have "t \<noteq> toy_gcm_tag key n m" by metis
  with assms(1,2) show ?thesis by (simp add: toy_gcm_decrypt_def)
qed

text \<open>The session the client is given, and the sizes of what it sends.\<close>

definition client_session :: session where
  "client_session = mk_session (init_manager default_config) demo_gen (pstr ''test-job-001'') (PInt 2048) (toy_pem (2048, 3))
     (lit ''PUB '' @ show_nat 2048 @ [32] @ show_nat 3)"

lemma client_session_key:
  "private_pem toy_crypto (2048, 3) = Inr (s_private_key client_session)" "is_session_valid 3000 client_session"
  "s_public_key client_session \<noteq> []" "ascii (s_public_key client_session)"
  using show_nat_digits
  by (auto simp: toy_crypto_def client_session_def mk_session_def is_session_valid_def demo_gen_def init_manager_def default_config_def
      list_all_iff lit_def) fastforce+

lemma client_keypair:
  assumes "he_crypto env = toy_crypto" "he_cfg env = default_config"
  shows "handle_generate_keypair env demo_hin keypair_request (init_enclave default_config [])
    = (keypair_answer demo_sid (s_public_key client_session),
       (init_enclave default_config [])\<lparr>en_manager := (init_manager default_config)\<lparr>active_sessions := [(demo_sid, client_session)]\<rparr>\<rparr>)"
proof -
  let ?m = "(init_manager default_config)\<lparr>active_sessions := [(demo_sid, client_session)]\<rparr>"
  have i: "interfere env demo_hin n en = en_manager en" "hi_gen demo_hin = demo_gen" "hi_now demo_hin n = 3000" for n en
    by (simp_all add: interfere_def demo_hin_def)
  have g: "Keypair_Manager.generate_keypair toy_crypto default_config pr demo_gen (pstr ''test-job-001'') (PInt 2048) (init_manager default_config)
      = ((True, demo_sid), ?m)" for pr
    by (simp add: client_session_def km_eval lit_def)
  have "Keypair_Manager.get_public_key toy_crypto (lit ''PEM'') 3000 (PStr demo_sid) ?m = (Some (s_public_key client_session), ?m)"
    using client_session_key(2) by (simp add: get_public_key_def get_valid_session_PStr format_public_key_def)
  with g assms show ?thesis
    by (simp add: handle_generate_keypair_def keypair_request_def dict_item_def dget_or_def new_keypair_def lookup_public_def i init_enclave_def
        keypair_answer_def opt_str_def Let_def)
qed

lemma length_json_str: "length (json_str s) \<le> 12 * length s + 2"
  by (induction s) (auto simp: json_str_def json_esc_def u_escape_def hex4_def)

lemma length_b64encode: "length (b64encode bs) \<le> 2 * length bs + 2"
  by (induction bs rule: b64encode.induct) auto

lemma client_seals:
  "\<exists>z. encrypt_data toy_client demo_aes (replicate 16 9) data (s_public_key client_session) = Inr z \<and> length z \<le> 2 * length data + 600"
proof -
  have "str_encode (s_public_key client_session) = Inr (map of_nat (s_public_key client_session))"
    using client_session_key(4) by (intro str_encode_ascii) (auto simp: list_all_iff)
  moreover have "length (pkcs7_tail 16 (length data)) \<le> 16" by (simp add: pkcs7_tail_def)
  ultimately show ?thesis
    using length_b64encode [of "toy_oaep_encrypt (2048, 3) demo_aes @ replicate 16 9 @ data @ pkcs7_tail 16 (length data)"]
    by (auto simp: encrypt_data_def toy_client_def demo_aes_def client_AES_BLOCK_SIZE_def toy_oaep_encrypt_def elim!: order_trans)
qed

lemma toy_client_gcm:
  assumes "create_test_bundle (\<lambda>_. Inr [1]) = Inr data" "pkcs7_pad toy_client client_AES_BLOCK_SIZE data = Inr p"
    and "cbc_encrypt toy_client (fst (demo_aes, replicate 16 9)) (snd (demo_aes, replicate 16 9)) p = Inr ct"
  shows "gcm_decrypt toy_crypto (fst (demo_aes, replicate 16 9)) (take 12 (snd (demo_aes, replicate 16 9)))
    (drop 12 (snd (demo_aes, replicate 16 9)) @ ct) = Inl (Exn InvalidTag [])"
  using assms toy_gcm_wrong_tag [of demo_aes "1 # pkcs7_tail 16 1"]
  by (auto simp: create_test_bundle_def toy_client_def toy_crypto_def client_AES_BLOCK_SIZE_def pkcs7_tail_def demo_aes_def)

lemma client_csv: "\<exists>csv_data. create_test_csv = Inr csv_data \<and> length csv_data \<le> 1000"
  unfolding create_test_csv_def by (subst str_encode_ascii) (auto simp: text_lines_def lit_def)

lemma length_execute_request:
  "length (json_text False False (PDict (execute_request (PStr s) z c))) \<le> 12 * (length s + length z + length c) + 2000"
  using length_json_str [of s] length_json_str [of z] length_json_str [of c]
  by (simp add: execute_request_def dict_items_def item_sep_def key_sep_def json_str_def [of "x # xs" for x xs] json_esc_def lit_def)


end
