(* ===== verification/Spec2Isabelle.thy ===== *)
theory Spec2Isabelle
  imports Dev_Scripts
begin

text \<open>
  A verification of the Epsilon enclave: a service that runs researchers' scripts on confidential data inside an AWS Nitro Enclave or an Intel
  TDX machine and proves to the outside what it ran.

  \<^bold>\<open>The program.\<close> A client opens a connection and sends one JSON request (\<^verbatim>\<open>server/server.py\<close>). \<^verbatim>\<open>RequestHandlerImpl\<close>
  (\<^verbatim>\<open>implementations/request_handler_impl.py\<close>) dispatches it: it creates RSA session keys (\<^verbatim>\<open>keypair_manager_impl.py\<close>), attests their
  public halves, or takes a hybrid-encrypted bundle and data set, decrypts them (\<^verbatim>\<open>decrypt_service_impl.py\<close>), runs the bundle's script as an
  unprivileged user (\<^verbatim>\<open>execute_service_impl.py\<close>), collects its files (\<^verbatim>\<open>output_files.py\<close>), deletes the session key and has the result
  attested by the security module (\<^verbatim>\<open>attestation_service_impl.py\<close>), by a local stand-in (\<^verbatim>\<open>local_attestation_service.py\<close>) or by a TDX quote
  (\<^verbatim>\<open>tdx_attestation_service_impl.py\<close>). \<^verbatim>\<open>factory.py\<close>, \<^verbatim>\<open>main.py\<close> and \<^verbatim>\<open>main_tdx.py\<close> wire the parts.

  \<^bold>\<open>The language.\<close>
  \<^item> \<open>Py_Prelude\<close>: results with exceptions, dictionaries as association lists, strings as lists of code points, shared lemmas.
  \<^item> \<open>Py_Codec\<close>, \<open>Py_Json\<close>: UTF-8, base64, hexadecimal, and \<^verbatim>\<open>json.dumps\<close>/\<^verbatim>\<open>json.loads\<close> with the round trip that the binding results use;
    \<open>Json_Prefix\<close>: a complete JSON object stays complete when more text arrives.
  \<^item> \<open>Sha2\<close>: SHA-256 and SHA-512 as functions on bytes. Nothing is assumed of them: results on hashes name the explicit collision.
  \<^item> \<open>Py_Value\<close>, \<open>Py_Path\<close>, \<open>Py_Process\<close>: dynamic values with \<^verbatim>\<open>str\<close> and \<^verbatim>\<open>repr\<close>, \<^verbatim>\<open>os.path\<close> with \<^verbatim>\<open>realpath\<close>, child processes.

  \<^bold>\<open>The components.\<close>
  \<^item> \<open>Config\<close> (\<^verbatim>\<open>config.py\<close>): the record \<open>config\<close>, read from the environment.
  \<^item> \<open>Output_Files\<close> (\<^verbatim>\<open>output_files.py\<close>): names, the walk, opening without following links, the collection under limits while the
    directory may change between any two opens, and the manifest with its hash. Theorems: what is collected, completeness at rest, no
    symbolic links, the hash of the manifest binds the files.
  \<^item> \<open>Crypto_Api\<close>, \<open>Key_Store_Spec\<close>, \<open>Keypair_Manager\<close> (\<^verbatim>\<open>keypair_manager_impl.py\<close>): the session store as a state machine of critical sections;
    \<open>Key_Store_Spec\<close> is the contract of a store with lifetimes, which the manager interprets. Theorems: the exact lifetime of a
    private key for every interleaving, deletion is final, well-formedness.
  \<^item> \<open>Decrypt_Service\<close> (\<^verbatim>\<open>decrypt_service_impl.py\<close>): authentication, round trip with the sealing side, totality.
  \<^item> \<open>Bundle_Zip\<close>, \<open>Script_Check\<close>, \<open>Script_User\<close>, \<open>Execute_Service\<close> (\<^verbatim>\<open>execute_service_impl.py\<close>): extraction within bounds and inside its
    directory, the check of the script, the handover to the script user, the three ways to run a script and the table of executions.
  \<^item> \<open>Attestation_Api\<close>, \<open>Cbor_Instance\<close>: CBOR values, and two contracts as locales: \<open>attestation_service\<close> (a document determines what it was
    asked to attest) and \<open>execution_proof\<close> (a proof determines the run). \<open>Nitro_Attestation\<close> and \<open>Tdx_Attestation\<close> interpret both;
    \<open>Local_Attestation\<close> models the certificate hierarchy and the COSE document, \<open>Kms_Attestation\<close> the calls of the key-management tool.
  \<^item> \<open>Request_Handler\<close>: every operation of the handler as a function on the record \<open>enclave\<close> (session store, table of executions, certificate
    directory). Before each use of the session store, the critical sections that other threads ran in between are applied
    (\<open>interfere\<close>, any list of operations). \<open>Handler_Properties\<close>: what a successful execution means, keys are gone after a run, the host
    cannot choose attested data, and the invariant of reachable states; the locale \<open>plain_service\<close> is what the handler needs of a back end.
  \<^item> \<open>Enclave_Factory\<close> (\<^verbatim>\<open>factory.py\<close>, \<^verbatim>\<open>main.py\<close>, \<^verbatim>\<open>main_tdx.py\<close>): both back ends as interpretations of \<open>plain_service\<close>; every request is
    answered; started scripts cannot reach the device; the TDX back end never completes an execution.
  \<^item> \<open>Enclave_Server\<close>, \<open>Server_Loop\<close> (\<^verbatim>\<open>server/server.py\<close>): framing on a stream the network cuts as it likes, the size limit, one frame per framed
    request, one JSON text per raw request, and the accept loop with its threads as a step relation.
  \<^item> \<open>Dev_Scripts\<close> (\<^verbatim>\<open>scripts/test-client.py\<close>, \<^verbatim>\<open>scripts/local-test-server.py\<close>): the test client as the other end of the wire, and the local
    server. Theorems: the client gets exactly the answer the handler gave to its request, and its whole run against the enclave fails, since it
    seals with AES-CBC; the local server ends before it listens.
  \<^item> This theory: the signed document determines the result that was returned, and a session executes at most once.

  \<^bold>\<open>Parameters.\<close> Code outside the repository is an argument: the \<^verbatim>\<open>cryptography\<close> package (records \<open>crypto\<close> and \<open>pki\<close>), \<^verbatim>\<open>cbor2\<close>
  (\<open>cbor_lib\<close>), the device (\<open>nsm_io\<close>), child processes, the Python parser, \<^verbatim>\<open>zipfile\<close>'s reader, clocks, random bytes and the texts of floating-point
  numbers. What a theorem needs of them is a hypothesis of that theorem, and its witness instantiates them.

  \<^bold>\<open>Bounds.\<close> \<open>realpath\<close> follows links with a bound that is proved to be enough for the given table of links; the JSON
  parser has fuel, one unit per nested call, of more than twice the length of the text, and more of it never changes a result
  (\<open>parse_request_terminates\<close>); all other loops are structural or have a termination proof.

  \<^bold>\<open>Not modelled.\<close> Logging; the limits of the interpreter (recursion depth, memory); the time a call takes (timings are opaque numbers); creating and binding sockets; shutdown by
  \<^verbatim>\<open>KeyboardInterrupt\<close>; the destructor that closes the device; the abstract classes under \<^verbatim>\<open>interfaces/\<close> beyond the attestation interface;
  what the scripts print to the terminal; the tests; the Go helper \<^verbatim>\<open>tdquote\<close>.
\<close>

section \<open>Documents determine results\<close>

text \<open>The signed document inside the answer to an execution request.\<close>

definition attested_document :: "pyval dict \<Rightarrow> pyval option" where
  "attested_document r =
     (case dget r (lit ''attestation'') of
        Some (PDict a) \<Rightarrow> (case dget a (lit ''attestation'') of Some (PDict d) \<Rightarrow> dget d (lit ''attestation_document'') | _ \<Rightarrow> None)
      | _ \<Rightarrow> None)"

lemma nitro_execution_document:
  assumes "as_execution (nitro_service h cfg st) a d = (Inr (True, att), d')" "nsm_available st" "nsm_fd st \<noteq> None"
  obtains u doc where "nitro_proof_bytes a = Inr u" "dget att (lit ''attestation'') = Some (PDict doc)"
    "generate_nsm_attestation (h_cbor h) (h_nsm h) st (Some u) (PBytes (nitro_nonce a)) None = (True, doc)"
proof -
  have g: "nitro_generate_attestation (h_cbor h) (h_pki h) (h_nsm h) cfg (h_local h) st u n None d
      = (generate_nsm_attestation (h_cbor h) (h_nsm h) st u n None, d)" for u n d
    using assms(2,3) by (auto simp: nitro_generate_attestation_def)
  have c: "fst (nitro_create_execution_attestation (\<lambda>u n d. (generate_nsm_attestation (h_cbor h) (h_nsm h) st u n None, d)) a d) = (True, att)"
    using assms(1) by (simp add: g split: prod.splits)
  obtain pd where pd: "nitro_proof_data a = Inr pd"
    using c by (cases "nitro_proof_data a") (simp_all add: nitro_create_execution_attestation_def)
  obtain u where u: "nitro_proof_bytes a = Inr u"
    using c pd by (cases "nitro_proof_bytes a") (simp_all add: nitro_create_execution_attestation_def)
  obtain ok doc where q: "generate_nsm_attestation (h_cbor h) (h_nsm h) st (Some u) (PBytes (nitro_nonce a)) None = (ok, doc)" by fastforce
  have ok using c pd u q by (cases ok) (simp_all add: nitro_create_execution_attestation_def)
  with c pd u q have "dget att (lit ''attestation'') = Some (PDict doc)"
    by (auto simp: nitro_create_execution_attestation_def)
  with that u q \<open>ok\<close> show thesis by simp
qed

text \<open>What a successful answer of a Nitro enclave with its device contains, in one lemma: the arguments that were attested and the
  call that produced the document.\<close>

lemma nitro_execution_facts:
  assumes env: "he_att env = nitro_service h cfg st" "nsm_available st" "nsm_fd st \<noteq> None"
    and run: "fst (handle_execute env i request en) = r" "dget r (lit ''success'') = Some (PBool True)" "attested_document r \<noteq> None"
    and req: "json_ok (PDict request)"
  obtains s t fs b csv n hsh u d where "dget request (lit ''session_id'') = Some (PStr s)" "dget r (lit ''output'') = Some (PStr t)"
    "dget r (lit ''files'') = Some (PList (map response_file fs))"
    "collected_ok (MAX_OUTPUT_FILES (he_cfg env)) (MAX_OUTPUT_FILES_MB (he_cfg env) * 1024 * 1024) fs"
    "files_manifest_sha256 (build_files_manifest fs) = Inr hsh"
    "nitro_proof_bytes (execution_args i request (PStr s) t b csv n hsh) = Inr u"
    "generate_nsm_attestation (h_cbor h) (h_nsm h) st (Some u) (PBytes (nitro_nonce (execution_args i request (PStr s) t b csv n hsh))) None = (True, d)"
    "attested_document r = dget d (lit ''attestation_document'')"
    "list_all valid_cp t \<Longrightarrow> exec_args_ok (execution_args i request (PStr s) t b csv n hsh)"
proof -
  from execute_success_facts [of env i request en] run(1,2) obtain s b csv t fs n hsh ok att d where
    f: "dget request (lit ''session_id'') = Some (PStr s)" "dget r (lit ''output'') = Some (PStr t)"
      "dget r (lit ''files'') = Some (PList (map response_file fs))"
      "collected_ok (MAX_OUTPUT_FILES (he_cfg env)) (MAX_OUTPUT_FILES_MB (he_cfg env) * 1024 * 1024) fs"
      "files_manifest_sha256 (build_files_manifest fs) = Inr hsh"
    and a: "as_execution (he_att env) (execution_args i request (PStr s) t b csv n hsh) (en_ca en) = (Inr (ok, att), d)"
      "dget r (lit ''attestation'') = (if ok then Some (PDict att) else None)"
    by blast
  have ok: ok using a(2) run(3) by (cases ok) (simp_all add: attested_document_def)
  obtain u doc where u: "nitro_proof_bytes (execution_args i request (PStr s) t b csv n hsh) = Inr u"
    "dget att (lit ''attestation'') = Some (PDict doc)"
    "generate_nsm_attestation (h_cbor h) (h_nsm h) st (Some u) (PBytes (nitro_nonce (execution_args i request (PStr s) t b csv n hsh))) None = (True, doc)"
    using nitro_execution_document [OF _ env(2,3)] a(1) ok env(1) by metis
  have "attested_document r = dget doc (lit ''attestation_document'')" using a(2) ok u(2) by (simp add: attested_document_def)
  moreover have "exec_args_ok (execution_args i request (PStr s) t b csv n hsh)" if "list_all valid_cp t"
  proof -
    have "list_all valid_cp s" using req f(1) by (force simp: list_all_iff dest: map_of_SomeD)
    moreover have "json_ok (dget_or PNone request (lit ''atl_context_hash''))"
      using req by (auto simp: dget_or_def list_all_iff split: option.splits dest!: map_of_SomeD)
    moreover have "list_all valid_cp hsh" using f(5) by (auto simp: files_manifest_sha256_def rbind_eq_Inr_iff)
    ultimately show ?thesis using that by (simp add: exec_args_ok_def execution_args_def)
  qed
  ultimately show thesis using that f u by blast
qed

text \<open>C1: The signed document determines the result. Take two successful executions of one Nitro enclave, at any times, in any states and for any
  requests. If both answers carry the same attestation document and the device never signs the same document for two requests, then both
  answers are about the same session and carry the same output and the same files, byte by byte, unless the hashed texts contain an
  explicit SHA-256 collision.\<close>

theorem same_document_same_result:
  assumes env: "he_att env = nitro_service h cfg st" "nsm_available st" "nsm_fd st \<noteq> None"
    and hw: "\<And>c c' q. nsm_hardware (h_cbor h) (h_nsm h) st c = Inr q \<Longrightarrow> nsm_hardware (h_cbor h) (h_nsm h) st c' = Inr q \<Longrightarrow> c = c'"
    and run: "fst (handle_execute env i request en) = r" "dget r (lit ''success'') = Some (PBool True)" "json_ok (PDict request)"
    and run': "fst (handle_execute env i' request' en') = r'" "dget r' (lit ''success'') = Some (PBool True)" "json_ok (PDict request')"
    and texts: "dget r (lit ''output'') = Some (PStr t)" "list_all valid_cp t" "dget r' (lit ''output'') = Some (PStr t')" "list_all valid_cp t'"
    and doc: "attested_document r \<noteq> None" "attested_document r = attested_document r'"
  shows "dget request (lit ''session_id'') = dget request' (lit ''session_id'')
    \<and> (t = t' \<or> (\<exists>x y. str_encode t = Inr x \<and> str_encode t' = Inr y \<and> collides {x} {y}))
    \<and> (\<exists>fs fs'. dget r (lit ''files'') = Some (PList (map response_file fs)) \<and> dget r' (lit ''files'') = Some (PList (map response_file fs'))
        \<and> (fs = fs' \<or> collides (hashed_bytes fs) (hashed_bytes fs')))"
proof -
  obtain s t0 fs b csv n hsh u d where f: "dget request (lit ''session_id'') = Some (PStr s)" "dget r (lit ''output'') = Some (PStr t0)"
    "dget r (lit ''files'') = Some (PList (map response_file fs))"
    "collected_ok (MAX_OUTPUT_FILES (he_cfg env)) (MAX_OUTPUT_FILES_MB (he_cfg env) * 1024 * 1024) fs"
    "files_manifest_sha256 (build_files_manifest fs) = Inr hsh"
    "nitro_proof_bytes (execution_args i request (PStr s) t0 b csv n hsh) = Inr u"
    "generate_nsm_attestation (h_cbor h) (h_nsm h) st (Some u) (PBytes (nitro_nonce (execution_args i request (PStr s) t0 b csv n hsh))) None = (True, d)"
    "attested_document r = dget d (lit ''attestation_document'')"
    "list_all valid_cp t0 \<Longrightarrow> exec_args_ok (execution_args i request (PStr s) t0 b csv n hsh)"
    by (rule nitro_execution_facts [OF env run(1,2) doc(1) run(3)]) blast
  have doc': "attested_document r' \<noteq> None" using doc by simp
  obtain s' t1 fs' b' csv' n' hsh' u' d' where g: "dget request' (lit ''session_id'') = Some (PStr s')" "dget r' (lit ''output'') = Some (PStr t1)"
    "dget r' (lit ''files'') = Some (PList (map response_file fs'))"
    "collected_ok (MAX_OUTPUT_FILES (he_cfg env)) (MAX_OUTPUT_FILES_MB (he_cfg env) * 1024 * 1024) fs'"
    "files_manifest_sha256 (build_files_manifest fs') = Inr hsh'"
    "nitro_proof_bytes (execution_args i' request' (PStr s') t1 b' csv' n' hsh') = Inr u'"
    "generate_nsm_attestation (h_cbor h) (h_nsm h) st (Some u') (PBytes (nitro_nonce (execution_args i' request' (PStr s') t1 b' csv' n' hsh'))) None = (True, d')"
    "attested_document r' = dget d' (lit ''attestation_document'')"
    "list_all valid_cp t1 \<Longrightarrow> exec_args_ok (execution_args i' request' (PStr s') t1 b' csv' n' hsh')"
    by (rule nitro_execution_facts [OF env run'(1,2) doc' run'(3)]) blast
  have tt: "t0 = t" "t1 = t'" using f(2) g(2) texts by simp_all
  have "u = u'" using nsm.document_binds [OF hw f(7) g(7)] doc(2) f(8) g(8) by simp
  with nitro_proof.proof_binds [OF f(9) g(9) f(6)] g(6) texts(2,4) tt
  have p: "s = s'" "hsh = hsh'" "t = t' \<or> (\<exists>x y. str_encode t = Inr x \<and> str_encode t' = Inr y \<and> collides {x} {y})"
    by (auto simp: execution_args_def)
  have "fs = fs' \<or> collides (hashed_bytes fs) (hashed_bytes fs')"
    using f(5) g(5) p(2) by (intro files_manifest_binds [OF f(4) g(4)]) simp
  with f(1,3) g(1,3) p show ?thesis by auto
qed

section \<open>A session executes once\<close>

definition regenerates :: "pystr \<Rightarrow> km_op \<Rightarrow> bool" where
  "regenerates s op \<longleftrightarrow> (case op of OpGenerate g j k \<Rightarrow> session_id_of g = s | _ \<Rightarrow> False)"

lemma km_exec_absent:
  assumes "dget (active_sessions m) s = None" "\<not> regenerates s op"
  shows "dget (active_sessions (km_exec c cfg pr op m)) s = None"
proof (cases op)
  case (OpGenerate g j k)
  with assms show ?thesis by (auto simp: generate_keypair_def regenerates_def split: sum.splits)
next
  case (OpGetPrivate t v)
  with assms show ?thesis by (cases v) (auto simp: get_private_key_PStr get_private_key_not_str split: option.splits)
next
  case (OpGetPublic f t v)
  with assms show ?thesis by (cases v) (auto simp: snd_get_public_key get_private_key_PStr get_private_key_not_str split: option.splits)
next
  case (OpDelete v)
  with assms show ?thesis by (cases v) (auto simp: delete_keypair_PStr delete_keypair_not_str)
next
  case (OpPurge t)
  then show ?thesis using assms by (auto simp: purge_expired_sessions_def Let_def fold_ddel map_of_eq_None_iff)
qed

lemma km_fold_absent:
  assumes "dget (active_sessions m) s = None" "list_all (\<lambda>op. \<not> regenerates s op) ops"
  shows "dget (active_sessions (fold (km_exec c cfg pr) ops m)) s = None"
  using assms by (induction ops arbitrary: m) (simp_all add: km_exec_absent)

lemma handle_execute_absent:
  assumes "dget request (lit ''session_id'') = Some (PStr s)" "dget (active_sessions (interfere env i 0 en)) s = None"
  shows "dget (fst (handle_execute env i request en)) (lit ''success'') = Some (PBool False)
    \<and> en_executor (snd (handle_execute env i request en)) = en_executor en"
proof (cases rule: handle_execute_cases [of env i request en])
  case (refused msg)
  then show ?thesis by simp
next
  case (runs sid data csvv b csv en1 en2)
  have "sid = PStr s" using runs(1) assms(1) by (auto simp: execute_fields_def Let_def rbind_eq_Inr_iff dict_item_eq_Inr)
  with decrypt_combined_success [OF decrypt_payload_Inr [OF runs(2)]] assms(2) show ?thesis by auto
qed

text \<open>C4: A session executes at most one bundle. After a successful execution for a session, and after any further critical sections of any
  threads that do not generate a key under the same identifier, another execution request for that session is refused and runs nothing.\<close>

theorem session_executes_once:
  assumes "dget request (lit ''session_id'') = Some (PStr s)" "dget request' (lit ''session_id'') = Some (PStr s)"
    and "handle_execute env i request en = (r, en1)" "dget r (lit ''success'') = Some (PBool True)"
    and "en_manager en2 = fold (km_exec (he_crypto env) (he_cfg env) (he_pr env)) ops (en_manager en1)"
    and "list_all (\<lambda>op. \<not> regenerates s op) ops" "list_all (\<lambda>op. \<not> regenerates s op) (hi_others i' 0)"
  shows "dget (fst (handle_execute env i' request' en2)) (lit ''success'') = Some (PBool False)
    \<and> en_executor (snd (handle_execute env i' request' en2)) = en_executor en2"
proof -
  have "dget (active_sessions (en_manager en1)) s = None"
  proof (cases rule: handle_execute_cases [of env i request en])
    case (refused msg)
    with assms(3,4) show ?thesis by simp
  next
    case (runs sid data csvv b csv e1 e2)
    have "sid = PStr s" using runs(1) assms(1) by (auto simp: execute_fields_def Let_def rbind_eq_Inr_iff dict_item_eq_Inr)
    from run_decrypted_key_gone [OF this, of env i request b csv "truthy csvv" e2] runs(4) assms(3) show ?thesis
      by (metis snd_conv snd_respond)
  qed
  from km_fold_absent [OF km_fold_absent [OF this assms(6)] assms(7)]
  have "dget (active_sessions (interfere env i' 0 en2)) s = None" unfolding interfere_def assms(5) .
  from handle_execute_absent [OF assms(2) this] show ?thesis .
qed

section \<open>Concrete runs\<close>

text \<open>A Nitro enclave whose codec knows exactly the request of the example, and whose device echoes what it gets.\<close>

definition demo_proof :: bytes where
  "demo_proof = (case nitro_proof_bytes demo_exec_args of Inr u \<Rightarrow> u | Inl _ \<Rightarrow> [])"

definition demo_nsm_request :: pyval where
  "demo_nsm_request = build_attestation_request (Some demo_proof) (PBytes (nitro_nonce demo_exec_args)) None"

definition one_cbor :: cbor_lib where
  "one_cbor = \<lparr>cb_dumps = \<lambda>v. if v = cbor_of demo_nsm_request then Inr [1] else Inl (Exn ValueError (lit ''not supported'')),
     cb_loads = \<lambda>b. Inr (CMap [(CText (lit ''Attestation''), CMap [(CText (lit ''document''), CBytes b)])]), cb_str = cbor_type\<rparr>"

definition nitro_host :: "(bytes, bytes) host" where
  "nitro_host = (demo_host [])\<lparr>h_cbor := one_cbor, h_nsm := toy_device (\<lambda>r. r)\<rparr>"

definition nitro_env :: "toy_key handler_env" where
  "nitro_env = demo_henv\<lparr>he_att := nitro_service nitro_host default_config demo_nitro\<rparr>"

lemma one_hardware:
  "nsm_hardware one_cbor (toy_device (\<lambda>r. r)) demo_nitro c = (if c = demo_nsm_request then Inr [1] else Inl (Exn ValueError (lit ''not supported'')))"
proof -
  have "nsm_fd demo_nitro = Some 3" by (simp add: demo_nitro_def)
  from nsm_ioctl_answer [OF toy_device_protocol this, of "\<lambda>r. r" "[1]"] have "nsm_ioctl (toy_device (\<lambda>r. r)) demo_nitro [1] = Inr [1]"
    by (simp add: toy_device_def response_capacity_def)
  then show ?thesis
    by (simp add: nsm_hardware_def one_cbor_def cbor_of_inject parse_attestation_response_def response_document_def)
qed

lemma demo_exec_args_ok: "exec_args_ok demo_exec_args"
proof -
  have "list_all valid_cp demo_manifest_hash"
    using demo_manifest by (auto simp: demo_manifest_hash_def files_manifest_sha256_def rbind_eq_Inr_iff)
  then show ?thesis by (simp add: exec_args_ok_def demo_exec_args_def execution_args_def demo_request_def dget_or_def demo_sid_def)
qed

lemma demo_nitro_run:
  "\<exists>att. fst (handle_execute nitro_env demo_hin demo_request demo_enclave)
     = execution_response nitro_env demo_hin (PStr demo_sid) (lit ''ok'') demo_files demo_manifest_hash False True att
     \<and> (\<exists>doc q. dget att (lit ''attestation'') = Some (PDict doc) \<and> dget doc (lit ''attestation_document'') = Some q)"
proof -
  let ?g = "\<lambda>u n d. nitro_generate_attestation one_cbor (h_pki nitro_host) (toy_device (\<lambda>r. r)) default_config (h_local nitro_host) demo_nitro u n None d"
  obtain u where u: "nitro_proof_bytes demo_exec_args = Inr u" using nitro_proof_bytes_ok [OF demo_exec_args_ok] by blast
  obtain pd where pd: "nitro_proof_data demo_exec_args = Inr pd" using u by (auto simp: nitro_proof_bytes_def rbind_eq_Inr_iff)
  have "nsm_hardware one_cbor (toy_device (\<lambda>r. r)) demo_nitro (build_attestation_request (Some u) (PBytes (nitro_nonce demo_exec_args)) None) = Inr [1]"
    using u by (simp add: one_hardware demo_nsm_request_def demo_proof_def)
  then have "nsm_exchange one_cbor (toy_device (\<lambda>r. r)) demo_nitro (Some u) (PBytes (nitro_nonce demo_exec_args)) None = Inr (True, CBytes [1])"
    by (auto simp: nsm_hardware_def nsm_exchange_def one_cbor_def py_len_def rbind_eq_Inr_iff parse_attestation_response_def response_document_def
        split: if_splits)
  then have "?g (Some u) (PBytes (nitro_nonce demo_exec_args)) d = (nsm_success (Some u) (PBytes (nitro_nonce demo_exec_args)) [1], d)" for d
    by (simp add: nitro_generate_attestation_def generate_nsm_attestation_def) (simp add: demo_nitro_def)
  then obtain att d where a: "nitro_create_execution_attestation ?g demo_exec_args [] = ((True, att), d)"
      "\<exists>doc q. dget att (lit ''attestation'') = Some (PDict doc) \<and> dget doc (lit ''attestation_document'') = Some q"
    using u pd by (simp add: nitro_create_execution_attestation_def nsm_success_def)
  have "h_cbor nitro_host = one_cbor" "h_nsm nitro_host = toy_device (\<lambda>r. r)" by (simp_all add: nitro_host_def)
  with a(1) have "as_execution (nitro_service nitro_host default_config demo_nitro) demo_exec_args [] = (Inr (True, att), d)" by simp
  from demo_execute_with [OF this] a(2) show ?thesis unfolding nitro_env_def by blast
qed

theorem same_document_same_result_witness:
  "\<exists>r. fst (handle_execute nitro_env demo_hin demo_request demo_enclave) = r \<and> attested_document r \<noteq> None
     \<and> (\<exists>fs fs'. dget r (lit ''files'') = Some (PList (map response_file fs)) \<and> dget r (lit ''files'') = Some (PList (map response_file fs'))
        \<and> (fs = fs' \<or> collides (hashed_bytes fs) (hashed_bytes fs')))"
proof -
  obtain att where r: "fst (handle_execute nitro_env demo_hin demo_request demo_enclave)
      = execution_response nitro_env demo_hin (PStr demo_sid) (lit ''ok'') demo_files demo_manifest_hash False True att" (is "_ = ?r")
    and a: "\<exists>doc q. dget att (lit ''attestation'') = Some (PDict doc) \<and> dget doc (lit ''attestation_document'') = Some q"
    using demo_nitro_run by blast
  have s: "dget ?r (lit ''success'') = Some (PBool True)" "dget ?r (lit ''output'') = Some (PStr (lit ''ok''))" "list_all valid_cp (lit ''ok'')"
    by (simp_all add: execution_response_def)
  have d: "attested_document ?r \<noteq> None" using a by (auto simp: attested_document_def execution_response_def)
  have j: "json_ok (PDict demo_request)"
    using b64encode_ascii by (simp add: demo_request_def demo_sid_def demo_sealed_def seal_combined_def)
  have e: "he_att nitro_env = nitro_service nitro_host default_config demo_nitro" "nsm_available demo_nitro" "nsm_fd demo_nitro \<noteq> None"
    by (simp_all add: nitro_env_def demo_nitro_def)
  have hw: "nsm_hardware (h_cbor nitro_host) (h_nsm nitro_host) demo_nitro c = Inr q \<Longrightarrow>
      nsm_hardware (h_cbor nitro_host) (h_nsm nitro_host) demo_nitro c' = Inr q \<Longrightarrow> c = c'" for c c' q
    by (simp add: nitro_host_def one_hardware split: if_splits)
  note same_document_same_result [OF e hw r s(1) j r s(1) j s(2,3) s(2,3) d refl, THEN conjunct2, THEN conjunct2]
  with r d show ?thesis by (intro exI [of _ ?r] conjI)
qed

theorem session_executes_once_witness:
  "dget (fst (handle_execute demo_henv demo_hin demo_request (snd (handle_execute demo_henv demo_hin demo_request demo_enclave)))) (lit ''success'')
     = Some (PBool False)"
proof -
  obtain r en1 where r: "handle_execute demo_henv demo_hin demo_request demo_enclave = (r, en1)" by fastforce
  have s: "dget demo_request (lit ''session_id'') = Some (PStr demo_sid)" by (simp add: demo_request_def)
  have ok: "dget r (lit ''success'') = Some (PBool True)" using demo_handle_execute r by simp
  have "hi_others demo_hin 0 = []" by (simp add: demo_hin_def)
  with session_executes_once [OF s s r ok, of en1 "[]" demo_hin] show ?thesis by (simp add: r)
qed

end
